theory Spec2Isabelle
  imports Complex_Main "HOL-Library.Word"
begin

unbundle bit_operations_syntax

section \<open>Tensor and quantization descriptors\<close>

text \<open>
  The support library works on 32-bit unsigned dimensions (\<open>uint32_t\<close>), 8-bit weights
  (\<open>uint8_t\<close>) and 32-bit signed biases and zero points (\<open>int32_t\<close>). A tensor shape is a
  \<open>std::array<uint32_t, 4>\<close>; it is modelled as a 4-tuple, indexed by \<open>dim\<close>.
  Quantization scales are C++ \<open>float\<close>s; the only arithmetic done on them by the code
  modelled here is a multiplication by \<open>0.5f\<close>, which is idealised as a multiplication
  of reals.
\<close>

type_synonym u8 = "8 word"
type_synonym u32 = "32 word"
type_synonym i32 = "32 word"

type_synonym TensorShape = "u32 \<times> u32 \<times> u32 \<times> u32"

fun dim :: "TensorShape \<Rightarrow> nat \<Rightarrow> u32" where
  "dim (d0, d1, d2, d3) i = (if i = 0 then d0 else if i = 1 then d1 else if i = 2 then d2 else d3)"

fun set_dim :: "TensorShape \<Rightarrow> nat \<Rightarrow> u32 \<Rightarrow> TensorShape" where
  "set_dim (d0, d1, d2, d3) i v =
     (if i = 0 then (v, d1, d2, d3) else if i = 1 then (d0, v, d2, d3)
      else if i = 2 then (d0, d1, v, d3) else (d0, d1, d2, v))"

datatype DataType = UINT8_QUANTIZED | INT32_QUANTIZED

datatype DataFormat = NHWC | NHWCB | HWIO | HWIM

datatype CompilerDataFormat = CNONE | CNHWC | CNHWCB

record QuantizationInfo =
  m_ZeroPoint :: i32
  m_Scale :: real

record TensorInfo =
  m_Dimensions :: TensorShape
  m_DataType :: DataType
  m_DataFormat :: DataFormat
  m_QuantizationInfo :: QuantizationInfo

record Stride =
  m_X :: u32
  m_Y :: u32

record Padding =
  m_Top :: u32
  m_Bottom :: u32
  m_Left :: u32
  m_Right :: u32

section \<open>Helpers of \<open>Utils.hpp\<close>\<close>

text \<open>
  Modelled from the spec: \<open>utils::DivRoundUp\<close> is declared in \<open>Utils.hpp\<close>, which is not
  part of the sources at hand. The specification describes its use in the linear-shape
  packer as \<open>num_patches = ceil(N / 16)\<close>; the model is the exact ceiling of the quotient,
  delivered as a \<open>uint32_t\<close>.
\<close>

definition DivRoundUp :: "u32 \<Rightarrow> u32 \<Rightarrow> u32" where
  "DivRoundUp numerator denominator =
     of_nat ((unat numerator + unat denominator - 1) div unat denominator)"

text \<open>
  Modelled from the spec: \<open>utils::RoundUpToNearestMultiple\<close> is declared in \<open>Utils.hpp\<close>
  as well. The specification says that the input channels of the fully connected weights
  are padded "up to a multiple of 1024"; the model is the least multiple that is not below
  the number, delivered as a \<open>uint32_t\<close> (so it wraps when that multiple is \<open>2 ^ 32\<close>).
\<close>

definition RoundUpToNearestMultiple :: "u32 \<Rightarrow> u32 \<Rightarrow> u32" where
  "RoundUpToNearestMultiple num nearestMultiple =
     of_nat (((unat num + unat nearestMultiple - 1) div unat nearestMultiple) * unat nearestMultiple)"

section \<open>The linear-shape packer of the fully connected lowering\<close>

text \<open>
  The lambda \<open>GetShapeContainingLinearElements\<close> of \<open>Visit(FullyConnected&)\<close>. All
  arithmetic is on \<open>uint32_t\<close>. The division and the remainder by
  \<open>patchesPerBrickGroup\<close> are undefined in C++ when that number is zero; the model
  returns \<open>None\<close> there.
\<close>

definition GetShapeContainingLinearElements :: "TensorShape \<Rightarrow> u32 \<Rightarrow> TensorShape option" where
  "GetShapeContainingLinearElements brickGroupShape numElements =
    (let brickGroupHeight = dim brickGroupShape 1;
         brickGroupWidth = dim brickGroupShape 2;
         brickGroupChannels = dim brickGroupShape 3;
         patchHeight = (4 :: u32);
         patchWidth = (4 :: u32);
         patchesPerBrickGroupHeight = brickGroupHeight div patchHeight;
         patchesPerBrickGroupWidth = brickGroupWidth div patchWidth;
         patchesPerBrickGroup =
           patchesPerBrickGroupHeight * patchesPerBrickGroupWidth * brickGroupChannels;
         numPatches = DivRoundUp numElements (patchWidth * patchHeight);
         reinterpretedWidth =
           (if numPatches \<le> brickGroupChannels * patchesPerBrickGroupHeight
            then patchWidth else brickGroupWidth);
         reinterpretedHeight =
           (if numPatches \<le> brickGroupChannels then patchHeight else brickGroupHeight)
     in if patchesPerBrickGroup = 0 then None
        else
          (let numFullBrickGroups = numPatches div patchesPerBrickGroup;
               reinterpretedChannels =
                 brickGroupChannels * numFullBrickGroups
                   + min brickGroupChannels (numPatches mod patchesPerBrickGroup)
           in Some (1, reinterpretedHeight, reinterpretedWidth, reinterpretedChannels)))"

section \<open>Weight tensors and their rotation\<close>

text \<open>
  Modelled from the spec: \<open>utils::TensorData::GetElementRef\<close> (of \<open>Utils.hpp\<close>, not part of
  the sources at hand) yields a reference to the element at a 4-D position of a buffer. The
  buffer is dense and row-major: the specification of the weight rotation addresses
  \<open>original[y, x, *, *]\<close> and says that the trailing two dimensions are one contiguous block
  of \<open>in_channels * out_channels\<close> bytes. The reference is modelled by its offset into the
  buffer.
\<close>

definition GetElementRef :: "TensorShape \<Rightarrow> u32 \<Rightarrow> u32 \<Rightarrow> u32 \<Rightarrow> u32 \<Rightarrow> nat" where
  "GetElementRef shape d0 d1 d2 d3 =
     unat d0 * unat (dim shape 1) * unat (dim shape 2) * unat (dim shape 3)
       + unat d1 * unat (dim shape 2) * unat (dim shape 3)
       + unat d2 * unat (dim shape 3)
       + unat d3"

text \<open>
  \<open>std::copy_n(&src, n, &dst)\<close> on two byte buffers, \<open>first\<close> and \<open>result\<close> being the
  offsets of \<open>src\<close> and \<open>dst\<close> in them. Reading or writing past the end of a buffer is
  undefined behaviour in C++; the model returns \<open>None\<close>.
\<close>

definition copy_n :: "u8 list \<Rightarrow> nat \<Rightarrow> nat \<Rightarrow> u8 list \<Rightarrow> nat \<Rightarrow> u8 list option" where
  "copy_n src first count dst result =
     (if first + count \<le> length src \<and> result + count \<le> length dst
      then Some (take result dst @ take count (drop first src) @ drop (result + count) dst)
      else None)"

text \<open>The values \<open>0, 1, \<dots>, n - 1\<close> taken by a loop counter \<open>for (uint32_t i = 0; i < n; ++i)\<close>.\<close>

definition word_upto :: "u32 \<Rightarrow> u32 list" where
  "word_upto n = map of_nat [0..<unat n]"

text \<open>
  The rotation loops of \<open>CreateTransposeConv\<close>: \<open>FlipWeightsRow\<close> is the inner loop over
  \<open>x\<close> for one \<open>y\<close>, \<open>FlipWeightsRows\<close> the outer loop over \<open>y\<close>, and \<open>FlipWeights\<close> allocates
  the zero-initialised \<open>flippedWeightsData\<close> of the size of \<open>weightsData\<close> and runs them.
  The block length \<open>n\<close> is a \<open>uint32_t\<close> product.
\<close>

fun FlipWeightsRow :: "TensorShape \<Rightarrow> u8 list \<Rightarrow> u32 \<Rightarrow> u32 list \<Rightarrow> u8 list \<Rightarrow> u8 list option" where
  "FlipWeightsRow weightsShape originalWeights y [] flippedWeights = Some flippedWeights"
| "FlipWeightsRow weightsShape originalWeights y (x # xs) flippedWeights =
     (let n = unat (dim weightsShape 2 * dim weightsShape 3);
          src = GetElementRef weightsShape y x 0 0;
          dst = GetElementRef weightsShape (dim weightsShape 0 - 1 - y) (dim weightsShape 1 - 1 - x) 0 0
      in case copy_n originalWeights src n flippedWeights dst of
           None \<Rightarrow> None
         | Some flippedWeights' \<Rightarrow> FlipWeightsRow weightsShape originalWeights y xs flippedWeights')"

fun FlipWeightsRows :: "TensorShape \<Rightarrow> u8 list \<Rightarrow> u32 list \<Rightarrow> u8 list \<Rightarrow> u8 list option" where
  "FlipWeightsRows weightsShape originalWeights [] flippedWeights = Some flippedWeights"
| "FlipWeightsRows weightsShape originalWeights (y # ys) flippedWeights =
     (case FlipWeightsRow weightsShape originalWeights y (word_upto (dim weightsShape 1)) flippedWeights of
        None \<Rightarrow> None
      | Some flippedWeights' \<Rightarrow> FlipWeightsRows weightsShape originalWeights ys flippedWeights')"

definition FlipWeights :: "TensorShape \<Rightarrow> u8 list \<Rightarrow> u8 list option" where
  "FlipWeights weightsShape weightsData =
     FlipWeightsRows weightsShape weightsData (word_upto (dim weightsShape 0))
       (replicate (length weightsData) 0)"

text \<open>
  Two notions used to state what the rotation does: the block (pair of the two leading
  coordinates, in row-major order) that the block \<open>(y, x)\<close> is copied to, and the position
  that the byte at position \<open>j\<close> comes from, for \<open>N\<close> blocks of \<open>n\<close> bytes.
\<close>

definition flipped_block :: "u32 \<Rightarrow> u32 \<Rightarrow> u32 \<Rightarrow> u32 \<Rightarrow> nat" where
  "flipped_block KH KW y x = (unat KH - 1 - unat y) * unat KW + (unat KW - 1 - unat x)"

definition mirror :: "nat \<Rightarrow> nat \<Rightarrow> nat \<Rightarrow> nat" where
  "mirror N n j = (N - 1 - j div n) * n + j mod n"

section \<open>The lowered graph\<close>

datatype MceOperation = CONVOLUTION | DEPTHWISE_CONVOLUTION | FULLY_CONNECTED

datatype PleOperation =
  MEAN_XY_8X8 | AVGPOOL_3X3_1_1_UDMA | MAXPOOL_2X2_2_2 | MAXPOOL_3X3_2_2
  | SIGMOID | ADDITION | ADDITION_RESCALE | INTERLEAVE_2X2_2_2

text \<open>
  Modelled from the spec: the shape multiplier (\<open>utils::ShapeMultiplier\<close>, not part of the
  sources at hand) is the triple \<open>((num_h, den_h), (num_w, den_w), chan_mult)\<close>.
\<close>

type_synonym ShapeMultiplier = "(u32 \<times> u32) \<times> (u32 \<times> u32) \<times> u32"

text \<open>The arguments of the constructor of \<open>MceOperationNode\<close>, in the order of the calls.\<close>

record MceOperationData =
  mce_InputShape :: TensorShape
  mce_WeightsInfo :: TensorInfo
  mce_WeightsData :: "u8 list"
  mce_BiasInfo :: TensorInfo
  mce_BiasData :: "i32 list"
  mce_Stride :: Stride
  mce_UpscaleFactor :: u32
  mce_PadTop :: u32
  mce_PadLeft :: u32
  mce_Operation :: MceOperation

datatype NodeKind =
    InputNode
  | ConstantNode
  | FormatConversionNode
  | ReinterpretNode
  | ExtractSubtensorNode TensorShape
  | ConcatNode u32
  | RequantizeNode
  | McePostProcessOperationNode
  | MceOperationNode MceOperationData
  | FuseOnlyPleOperationNode PleOperation ShapeMultiplier
  | StandalonePleOperationNode PleOperation
  | EstimateOnlyNode

text \<open>
  Modelled from the spec: the classes \<open>Node\<close>, \<open>Edge\<close> and \<open>Graph\<close> (\<open>Graph.hpp\<close>,
  \<open>GraphNodes.hpp\<close>) are not part of the sources at hand. By the specification every
  lowered node carries its output shape, output quantization, output layout and the set of
  source operation ids it was made for; the graph holds nodes and directed edges, and has
  the operations \<open>create_node\<close>, \<open>connect\<close> (appends an input edge to the destination),
  \<open>split_edge\<close> (inserts a node between the endpoints of an edge, mutating the edge in place
  and creating one new edge, preserving the order of the inputs) and \<open>edge_in\<close>. A node is
  referred to by its position in the list of nodes, an edge by its position in the list of
  edges; nothing is ever deleted.
\<close>

record Node =
  NodeKind :: NodeKind
  NodeShape :: TensorShape
  NodeQuantizationInfo :: QuantizationInfo
  NodeFormat :: CompilerDataFormat
  NodeOperationIds :: "u32 set"

record Edge =
  GetSource :: nat
  GetDestination :: nat

record Graph =
  GetNodes :: "Node list"
  GetEdges :: "Edge list"
  NodeInputs :: "nat \<Rightarrow> nat list"
  NodeOutputs :: "nat \<Rightarrow> nat list"

definition EmptyGraph :: Graph where
  "EmptyGraph = \<lparr>GetNodes = [], GetEdges = [], NodeInputs = (\<lambda>_. []), NodeOutputs = (\<lambda>_. [])\<rparr>"

definition CreateAndAddNode :: "Graph \<Rightarrow> Node \<Rightarrow> Graph \<times> nat" where
  "CreateAndAddNode g node =
     (let n = length (GetNodes g)
      in (g\<lparr>GetNodes := GetNodes g @ [node],
            NodeInputs := (NodeInputs g)(n := []),
            NodeOutputs := (NodeOutputs g)(n := [])\<rparr>, n))"

definition Connect :: "Graph \<Rightarrow> nat \<Rightarrow> nat \<Rightarrow> Graph" where
  "Connect g source destination =
     (let e = length (GetEdges g);
          outs = (NodeOutputs g)(source := NodeOutputs g source @ [e])
      in g\<lparr>GetEdges := GetEdges g @ [\<lparr>GetSource = source, GetDestination = destination\<rparr>],
           NodeInputs := (NodeInputs g)(destination := NodeInputs g destination @ [e]),
           NodeOutputs := outs\<rparr>)"

fun replace_first :: "'a \<Rightarrow> 'a \<Rightarrow> 'a list \<Rightarrow> 'a list" where
  "replace_first a b [] = []"
| "replace_first a b (x # xs) = (if x = a then b # xs else x # replace_first a b xs)"

definition SplitEdge :: "Graph \<Rightarrow> nat \<Rightarrow> nat \<Rightarrow> Graph" where
  "SplitEdge g edge newNode =
     (let oldDest = GetDestination (GetEdges g ! edge);
          newEdge = length (GetEdges g);
          ins = (NodeInputs g)(oldDest := replace_first edge newEdge (NodeInputs g oldDest))
      in g\<lparr>GetEdges := (GetEdges g)[edge := (GetEdges g ! edge)\<lparr>GetDestination := newNode\<rparr>]
                          @ [\<lparr>GetSource = newNode, GetDestination = oldDest\<rparr>],
           NodeInputs := ins(newNode := ins newNode @ [edge]),
           NodeOutputs := (NodeOutputs g)(newNode := NodeOutputs g newNode @ [newEdge])\<rparr>)"

definition Node_GetInput :: "Graph \<Rightarrow> nat \<Rightarrow> nat \<Rightarrow> nat" where
  "Node_GetInput g n i = NodeInputs g n ! i"

definition GetInputFormat :: "Graph \<Rightarrow> nat \<Rightarrow> nat \<Rightarrow> CompilerDataFormat" where
  "GetInputFormat g n i = NodeFormat (GetNodes g ! GetSource (GetEdges g ! Node_GetInput g n i))"

definition GetInputQuantizationInfo :: "Graph \<Rightarrow> nat \<Rightarrow> nat \<Rightarrow> QuantizationInfo" where
  "GetInputQuantizationInfo g n i =
     NodeQuantizationInfo (GetNodes g ! GetSource (GetEdges g ! Node_GetInput g n i))"

section \<open>Failures\<close>

text \<open>
  A rewrite rule either completes or stops: by the \<open>NotSupportedException\<close> it throws, by the
  \<open>std::out_of_range\<close> of \<open>std::map::at\<close>, by a failing \<open>assert\<close> (which aborts the pass), or
  by running into undefined behaviour (a division by zero, an access out of the bounds of a
  buffer, the use of an operand that no node is bound to). A failure is returned together
  with the state reached when it happened.
\<close>

datatype error =
    NotSupportedException string
  | OutOfRangeException
  | AssertionFailure string
  | UndefinedBehaviour string

section \<open>The transpose convolution builder\<close>

definition MakeMceOperationNode ::
  "TensorShape \<Rightarrow> TensorShape \<Rightarrow> QuantizationInfo \<Rightarrow> TensorInfo \<Rightarrow> u8 list \<Rightarrow> TensorInfo
     \<Rightarrow> i32 list \<Rightarrow> Stride \<Rightarrow> u32 \<Rightarrow> u32 \<Rightarrow> u32 \<Rightarrow> MceOperation \<Rightarrow> CompilerDataFormat
     \<Rightarrow> u32 set \<Rightarrow> Node" where
  "MakeMceOperationNode inputShape outputShape quantizationInfo weightsInfo weightsData biasInfo
       biasData stride upscaleFactor padTop padLeft operation format correspondingOperationIds =
     \<lparr>NodeKind = MceOperationNode
        \<lparr>mce_InputShape = inputShape, mce_WeightsInfo = weightsInfo,
         mce_WeightsData = weightsData, mce_BiasInfo = biasInfo, mce_BiasData = biasData,
         mce_Stride = stride, mce_UpscaleFactor = upscaleFactor, mce_PadTop = padTop,
         mce_PadLeft = padLeft, mce_Operation = operation\<rparr>,
      NodeShape = outputShape, NodeQuantizationInfo = quantizationInfo, NodeFormat = format,
      NodeOperationIds = correspondingOperationIds\<rparr>"

text \<open>
  \<open>CreateTransposeConv\<close>. The \<open>assert\<close> on the stride aborts; the large-kernel branch adds
  the identity depthwise node and resets the upscale factor and the input shape; the weights
  are rotated; the convolution node is added last. The result is the graph and the chain of
  the nodes added to it.
\<close>

definition CreateTransposeConv ::
  "Graph \<Rightarrow> Stride \<Rightarrow> TensorInfo \<Rightarrow> u8 list \<Rightarrow> TensorInfo \<Rightarrow> i32 list \<Rightarrow> Padding \<Rightarrow> TensorInfo
     \<Rightarrow> TensorInfo \<Rightarrow> u32 \<Rightarrow> (error \<times> Graph) + (Graph \<times> nat list)" where
  "CreateTransposeConv graph stride weightsInfo weightsData biasInfo biasData padding inputInfo
       outputInfo sourceOperationId =
    (if m_X stride \<noteq> m_Y stride then Inl (AssertionFailure ''stride.m_X == stride.m_Y'', graph)
     else
      (let upscaleFactor = m_X stride;
           weightsShape = m_Dimensions weightsInfo;
           topMcePadding = dim weightsShape 0 - 1 - m_Top padding;
           leftMcePadding = dim weightsShape 1 - 1 - m_Left padding;
           inputShape = m_Dimensions inputInfo;
           (graph1, nodes, upscaleFactor1, inputShape1) =
             (if 7 < dim weightsShape 0 \<or> 7 < dim weightsShape 1
              then
                (let intermediateOutputShape =
                       (dim inputShape 0, dim inputShape 1 * upscaleFactor,
                        dim inputShape 2 * upscaleFactor, dim inputShape 3);
                     numIfm = dim inputShape 3;
                     weightScale = (0.5 :: real);
                     biasScale = weightScale * m_Scale (m_QuantizationInfo inputInfo);
                     weightsData' = replicate (unat (1 * 1 * 1 * numIfm)) (2 :: u8);
                     biasData' = replicate (unat numIfm) (0 :: i32);
                     weightInfo =
                       \<lparr>m_Dimensions = (1, 1, numIfm, 1), m_DataType = UINT8_QUANTIZED,
                        m_DataFormat = HWIM,
                        m_QuantizationInfo = \<lparr>m_ZeroPoint = 0, m_Scale = weightScale\<rparr>\<rparr>;
                     biasInfo' =
                       \<lparr>m_Dimensions = (1, 1, 1, numIfm), m_DataType = INT32_QUANTIZED,
                        m_DataFormat = NHWC,
                        m_QuantizationInfo = \<lparr>m_ZeroPoint = 0, m_Scale = biasScale\<rparr>\<rparr>;
                     (g, identityDepthwiseNode) =
                       CreateAndAddNode graph
                         (MakeMceOperationNode inputShape intermediateOutputShape
                            (m_QuantizationInfo inputInfo) weightInfo weightsData' biasInfo'
                            biasData' \<lparr>m_X = 1, m_Y = 1\<rparr> upscaleFactor 0 0
                            DEPTHWISE_CONVOLUTION CNHWCB {sourceOperationId})
                 in (g, [identityDepthwiseNode], 1, intermediateOutputShape))
              else (graph, [], upscaleFactor, inputShape))
       in case FlipWeights weightsShape weightsData of
            None \<Rightarrow> Inl (UndefinedBehaviour ''std::copy_n out of bounds'', graph1)
          | Some flippedWeightsData \<Rightarrow>
              (let (graph2, convNode) =
                     CreateAndAddNode graph1
                       (MakeMceOperationNode inputShape1 (m_Dimensions outputInfo)
                          (m_QuantizationInfo outputInfo) weightsInfo flippedWeightsData biasInfo
                          biasData \<lparr>m_X = 1, m_Y = 1\<rparr> upscaleFactor1 topMcePadding
                          leftMcePadding CONVOLUTION CNHWCB {sourceOperationId})
               in Inr (graph2, nodes @ [convNode]))))"

text \<open>
  The precondition on a weights constant under which the rotation stays inside its buffers:
  the data vector has one byte for each element of the shape, and the number of elements can
  be represented as a \<open>uint32_t\<close>.
\<close>

definition WeightsWellFormed :: "TensorShape \<Rightarrow> u8 list \<Rightarrow> bool" where
  "WeightsWellFormed weightsShape weightsData \<longleftrightarrow>
     length weightsData =
       unat (dim weightsShape 0) * unat (dim weightsShape 1)
         * (unat (dim weightsShape 2) * unat (dim weightsShape 3))
     \<and> unat (dim weightsShape 0) * unat (dim weightsShape 1)
         * (unat (dim weightsShape 2) * unat (dim weightsShape 3)) < 2 ^ 32"

section \<open>The source network\<close>

text \<open>
  Modelled from the spec: the classes of the source network (\<open>Network.hpp\<close>, \<open>Operation.hpp\<close>,
  \<open>Support.hpp\<close>) are not part of the sources at hand. By the specification an operand has
  a producer operation, a producer output index, a tensor info and a set of consumers, and a
  source operation carries its input operands, its output operands, a stable id and the
  parameters of its kind. The converter compares operands by address; the model identifies
  an operand by its producer and its index among the outputs of the producer, as the
  specification proposes. The field names are those the converter uses; where two structs of
  the source have a field of the same name, the name of one of them is qualified.
\<close>

record Operand =
  GetProducerId :: u32
  GetProducerOutputIndex :: u32
  GetTensorInfo :: TensorInfo
  GetConsumers :: "u32 list"

type_synonym OperandKey = "u32 \<times> u32"

definition OperandKey :: "Operand \<Rightarrow> OperandKey" where
  "OperandKey operand = (GetProducerId operand, GetProducerOutputIndex operand)"

record Operation =
  GetId :: u32
  GetInputs :: "Operand list"
  GetOutputs :: "Operand list"

definition GetInput :: "'a Operation_scheme \<Rightarrow> nat \<Rightarrow> Operand" where
  "GetInput operation i = GetInputs operation ! i"

definition GetOutput :: "'a Operation_scheme \<Rightarrow> nat \<Rightarrow> Operand" where
  "GetOutput operation i = GetOutputs operation ! i"

record Constant =
  Constant_GetTensorInfo :: TensorInfo
  GetDataVector :: "u8 list"

datatype SupportedLevel = Unsupported | EstimateOnly | Supported

datatype PoolingType = PoolingType_AVG | PoolingType_MAX

record PoolingInfo =
  m_PoolingSizeX :: u32
  m_PoolingSizeY :: u32
  m_PoolingStrideX :: u32
  m_PoolingStrideY :: u32
  m_Padding :: Padding
  m_PoolingType :: PoolingType

record ConvolutionInfo =
  m_ConvolutionPadding :: Padding
  m_Stride :: Stride

record ConcatenationInfo =
  m_Axis :: u32
  m_OutputQuantizationInfo :: QuantizationInfo

record SplitInfo =
  m_SplitAxis :: u32
  m_Sizes :: "u32 list"

record Pooling = Operation +
  GetPoolingInfo :: PoolingInfo

record WeightedOperation = Operation +
  GetWeights :: Constant
  GetBias :: Constant

type_synonym FullyConnected = WeightedOperation

record TransposeConvolution = WeightedOperation +
  GetConvolutionInfo :: ConvolutionInfo

record Concatenation = Operation +
  GetConcatenationInfo :: ConcatenationInfo

record Split = Operation +
  GetSplitInfo :: SplitInfo

section \<open>The converter\<close>

text \<open>
  The state of \<open>NetworkToGraphConverter\<close>: the graph under construction, the map from
  operands to the nodes producing them, the estimation mode and the hardware capabilities,
  of which the converter reads the brick-group shape only.
\<close>

record HardwareCapabilities =
  GetBrickGroupShape :: TensorShape

record NetworkToGraphConverter =
  m_Graph :: Graph
  m_OperandToNode :: "OperandKey \<rightharpoonup> nat"
  m_EstimationMode :: bool
  m_Capabilities :: HardwareCapabilities

type_synonym 'a outcome = "(error \<times> NetworkToGraphConverter) + 'a"

text \<open>
  \<open>ConnectNodeChain\<close>: the loop connecting each node of the chain to the next, the loop
  connecting the node of every input operand (\<open>m_OperandToNode.at\<close> throws for an operand that
  is not bound) to the front of the chain, and the binding of the first output to the back.
  The chain is never empty at the calls; \<open>nodes.front()\<close> of an empty vector is undefined.
\<close>

fun ConnectChain :: "Graph \<Rightarrow> nat list \<Rightarrow> Graph" where
  "ConnectChain g (a # b # nodes) = ConnectChain (Connect g a b) (b # nodes)"
| "ConnectChain g nodes = g"

fun ConnectInputs :: "NetworkToGraphConverter \<Rightarrow> Operand list \<Rightarrow> nat \<Rightarrow> NetworkToGraphConverter outcome" where
  "ConnectInputs c [] front = Inr c"
| "ConnectInputs c (operand # operands) front =
     (case m_OperandToNode c (OperandKey operand) of
        None \<Rightarrow> Inl (OutOfRangeException, c)
      | Some n \<Rightarrow> ConnectInputs (c\<lparr>m_Graph := Connect (m_Graph c) n front\<rparr>) operands front)"

definition ConnectNodeChain ::
  "NetworkToGraphConverter \<Rightarrow> 'a Operation_scheme \<Rightarrow> nat list \<Rightarrow> NetworkToGraphConverter outcome" where
  "ConnectNodeChain c operation nodes =
     (if \<not> length (GetOutputs operation) \<le> 1
      then Inl (AssertionFailure ''operation.GetOutputs().size() <= 1'', c)
      else if nodes = [] then Inl (UndefinedBehaviour ''nodes.front() of an empty chain'', c)
      else
        (case ConnectInputs (c\<lparr>m_Graph := ConnectChain (m_Graph c) nodes\<rparr>)
                (GetInputs operation) (hd nodes) of
           Inl failure \<Rightarrow> Inl failure
         | Inr c' \<Rightarrow>
             Inr (if 0 < length (GetOutputs operation)
                  then c'\<lparr>m_OperandToNode :=
                            (m_OperandToNode c')(OperandKey (GetOutput operation 0) \<mapsto> last nodes)\<rparr>
                  else c')))"

definition ConnectNode ::
  "NetworkToGraphConverter \<Rightarrow> 'a Operation_scheme \<Rightarrow> nat \<Rightarrow> NetworkToGraphConverter outcome" where
  "ConnectNode c operation node = ConnectNodeChain c operation [node]"

definition MakeEstimateOnlyNode :: "TensorInfo \<Rightarrow> u32 \<Rightarrow> Node" where
  "MakeEstimateOnlyNode outInfo operationId =
     \<lparr>NodeKind = EstimateOnlyNode, NodeShape = m_Dimensions outInfo,
      NodeQuantizationInfo = m_QuantizationInfo outInfo, NodeFormat = CNHWCB,
      NodeOperationIds = {operationId}\<rparr>"

text \<open>
  The branch common to the rules with one output: a single \<open>EstimateOnlyNode\<close> with the shape
  and the quantization of output 0, connected by \<open>ConnectNode\<close>.
\<close>

definition ConnectEstimateOnlyNode ::
  "NetworkToGraphConverter \<Rightarrow> 'a Operation_scheme \<Rightarrow> NetworkToGraphConverter outcome" where
  "ConnectEstimateOnlyNode c operation =
     (if GetOutputs operation = []
      then Inl (UndefinedBehaviour ''GetOutput(0) of an operation without outputs'', c)
      else
        (let (g, n) = CreateAndAddNode (m_Graph c)
                        (MakeEstimateOnlyNode (GetTensorInfo (GetOutput operation 0)) (GetId operation))
         in ConnectNode (c\<lparr>m_Graph := g\<rparr>) operation n))"

section \<open>Rewrite rules\<close>

text \<open>
  The verdict of the support oracle (\<open>IsPoolingSupported\<close> and its siblings, which are not
  part of the sources at hand) is an argument of each rule: the rules are modelled for every
  oracle. So are the other helpers the rules call whose definitions are missing and about
  which the specification says nothing: \<open>utils::TotalSizeBytes\<close>,
  \<open>Constant::GetDataVectorAs<int32_t>\<close> and the default-constructed \<open>Stride()\<close>.
\<close>

subsection \<open>TransposeConvolution\<close>

definition Visit_TransposeConvolution ::
  "(TensorInfo \<Rightarrow> TensorInfo \<Rightarrow> ConvolutionInfo \<Rightarrow> TensorInfo \<Rightarrow> SupportedLevel)
     \<Rightarrow> (u8 list \<Rightarrow> i32 list)
     \<Rightarrow> NetworkToGraphConverter \<Rightarrow> TransposeConvolution \<Rightarrow> NetworkToGraphConverter outcome" where
  "Visit_TransposeConvolution IsTransposeConvolutionSupported GetDataVectorAs_int32 c
       transposeConvolution =
    (if GetInputs transposeConvolution = [] \<or> GetOutputs transposeConvolution = []
     then Inl (UndefinedBehaviour ''GetInput(0) or GetOutput(0) out of range'', c)
     else
      (let stride = m_Stride (GetConvolutionInfo transposeConvolution);
           weightsInfo = Constant_GetTensorInfo (GetWeights transposeConvolution);
           weightsData = GetDataVector (GetWeights transposeConvolution);
           biasInfo = Constant_GetTensorInfo (GetBias transposeConvolution);
           biasData = GetDataVectorAs_int32 (GetDataVector (GetBias transposeConvolution));
           padding = m_ConvolutionPadding (GetConvolutionInfo transposeConvolution);
           inputInfo = GetTensorInfo (GetInput transposeConvolution 0);
           outputInfo = GetTensorInfo (GetOutput transposeConvolution 0);
           supportedLevel =
             IsTransposeConvolutionSupported biasInfo weightsInfo
               (GetConvolutionInfo transposeConvolution) inputInfo
       in if supportedLevel = EstimateOnly then ConnectEstimateOnlyNode c transposeConvolution
          else
            (case CreateTransposeConv (m_Graph c) stride weightsInfo weightsData biasInfo biasData
                    padding inputInfo outputInfo (GetId transposeConvolution) of
               Inl (failure, g) \<Rightarrow> Inl (failure, c\<lparr>m_Graph := g\<rparr>)
             | Inr (g, transposeConvNodes) \<Rightarrow>
                 ConnectNodeChain (c\<lparr>m_Graph := g\<rparr>) transposeConvolution transposeConvNodes)))"

subsection \<open>Pooling\<close>

definition createFuseOnlyPleNode :: "Pooling \<Rightarrow> PleOperation \<Rightarrow> Node" where
  "createFuseOnlyPleNode pooling op =
     (let shapeMultiplier =
            ((1, m_PoolingStrideY (GetPoolingInfo pooling)),
             (1, m_PoolingStrideX (GetPoolingInfo pooling)), 1)
      in \<lparr>NodeKind = FuseOnlyPleOperationNode op shapeMultiplier,
          NodeShape = m_Dimensions (GetTensorInfo (GetOutput pooling 0)),
          NodeQuantizationInfo = m_QuantizationInfo (GetTensorInfo (GetOutput pooling 0)),
          NodeFormat = CNHWCB, NodeOperationIds = {GetId pooling}\<rparr>)"

definition createStandalonePleNode :: "Pooling \<Rightarrow> PleOperation \<Rightarrow> Node" where
  "createStandalonePleNode pooling op =
     \<lparr>NodeKind = StandalonePleOperationNode op,
      NodeShape = m_Dimensions (GetTensorInfo (GetOutput pooling 0)),
      NodeQuantizationInfo = m_QuantizationInfo (GetTensorInfo (GetOutput pooling 0)),
      NodeFormat = CNHWCB, NodeOperationIds = {GetId pooling}\<rparr>"

text \<open>
  \<open>Visit(Pooling&)\<close>. The pooling info is compared, in this order, with the info of a mean
  over the whole input and with three fixed configurations that take the padding of the
  incoming info; \<open>assert(!"Unsupported")\<close> aborts the pass for every other info.
\<close>

definition Visit_Pooling ::
  "(PoolingInfo \<Rightarrow> TensorInfo \<Rightarrow> SupportedLevel)
     \<Rightarrow> NetworkToGraphConverter \<Rightarrow> Pooling \<Rightarrow> NetworkToGraphConverter outcome" where
  "Visit_Pooling IsPoolingSupported c pooling =
    (if GetInputs pooling = [] \<or> GetOutputs pooling = []
     then Inl (UndefinedBehaviour ''GetInput(0) or GetOutput(0) out of range'', c)
     else
      (let inputHeight = dim (m_Dimensions (GetTensorInfo (GetInput pooling 0))) 1;
           inputWidth = dim (m_Dimensions (GetTensorInfo (GetInput pooling 0))) 2;
           poolingInfo = GetPoolingInfo pooling;
           poolingInfoIfMean =
             \<lparr>m_PoolingSizeX = inputWidth, m_PoolingSizeY = inputHeight,
              m_PoolingStrideX = m_PoolingStrideX poolingInfo,
              m_PoolingStrideY = m_PoolingStrideY poolingInfo,
              m_Padding = \<lparr>m_Top = 0, m_Bottom = 0, m_Left = 0, m_Right = 0\<rparr>,
              m_PoolingType = PoolingType_AVG\<rparr>;
           supportedLevel = IsPoolingSupported poolingInfo (GetTensorInfo (GetInput pooling 0))
       in if supportedLevel = EstimateOnly then ConnectEstimateOnlyNode c pooling
          else if poolingInfo = poolingInfoIfMean
          then (let (g, n) = CreateAndAddNode (m_Graph c) (createFuseOnlyPleNode pooling MEAN_XY_8X8)
                in ConnectNode (c\<lparr>m_Graph := g\<rparr>) pooling n)
          else if poolingInfo =
                    \<lparr>m_PoolingSizeX = 3, m_PoolingSizeY = 3, m_PoolingStrideX = 1,
                     m_PoolingStrideY = 1, m_Padding = m_Padding poolingInfo, m_PoolingType = PoolingType_AVG\<rparr>
          then (let (g, n) = CreateAndAddNode (m_Graph c)
                               (createStandalonePleNode pooling AVGPOOL_3X3_1_1_UDMA)
                in ConnectNode (c\<lparr>m_Graph := g\<rparr>) pooling n)
          else if poolingInfo =
                    \<lparr>m_PoolingSizeX = 2, m_PoolingSizeY = 2, m_PoolingStrideX = 2,
                     m_PoolingStrideY = 2, m_Padding = m_Padding poolingInfo, m_PoolingType = PoolingType_MAX\<rparr>
          then (let (g, n) = CreateAndAddNode (m_Graph c) (createFuseOnlyPleNode pooling MAXPOOL_2X2_2_2)
                in ConnectNode (c\<lparr>m_Graph := g\<rparr>) pooling n)
          else if poolingInfo =
                    \<lparr>m_PoolingSizeX = 3, m_PoolingSizeY = 3, m_PoolingStrideX = 2,
                     m_PoolingStrideY = 2, m_Padding = m_Padding poolingInfo, m_PoolingType = PoolingType_MAX\<rparr>
          then (let (g, n) = CreateAndAddNode (m_Graph c) (createFuseOnlyPleNode pooling MAXPOOL_3X3_2_2)
                in ConnectNode (c\<lparr>m_Graph := g\<rparr>) pooling n)
          else Inl (AssertionFailure ''Unsupported'', c)))"

subsection \<open>FullyConnected\<close>

text \<open>\<open>std::vector::resize(newSize, padValue)\<close> on a copy of the input.\<close>

definition Pad :: "u8 list \<Rightarrow> nat \<Rightarrow> u8 \<Rightarrow> u8 list" where
  "Pad input newSize padValue = take newSize input @ replicate (newSize - length input) padValue"

definition MakeFormatConversionNode ::
  "TensorShape \<Rightarrow> QuantizationInfo \<Rightarrow> CompilerDataFormat \<Rightarrow> u32 set \<Rightarrow> Node" where
  "MakeFormatConversionNode shape quantizationInfo format correspondingOperationIds =
     \<lparr>NodeKind = FormatConversionNode, NodeShape = shape,
      NodeQuantizationInfo = quantizationInfo, NodeFormat = format,
      NodeOperationIds = correspondingOperationIds\<rparr>"

definition MakeReinterpretNode ::
  "TensorShape \<Rightarrow> QuantizationInfo \<Rightarrow> CompilerDataFormat \<Rightarrow> u32 set \<Rightarrow> Node" where
  "MakeReinterpretNode shape quantizationInfo format correspondingOperationIds =
     \<lparr>NodeKind = ReinterpretNode, NodeShape = shape,
      NodeQuantizationInfo = quantizationInfo, NodeFormat = format,
      NodeOperationIds = correspondingOperationIds\<rparr>"

text \<open>
  \<open>Visit(FullyConnected&)\<close>. \<open>m_OperandToNode[&operand]\<close> yields a null pointer for an operand
  that is not bound, and \<open>->GetFormat()\<close> on it is undefined.
\<close>

definition Visit_FullyConnected ::
  "(TensorInfo \<Rightarrow> nat) \<Rightarrow> (u8 list \<Rightarrow> i32 list) \<Rightarrow> Stride
     \<Rightarrow> NetworkToGraphConverter \<Rightarrow> FullyConnected \<Rightarrow> NetworkToGraphConverter outcome" where
  "Visit_FullyConnected TotalSizeBytes GetDataVectorAs_int32 Stride_default c fullyConnected =
    (if GetInputs fullyConnected = [] \<or> GetOutputs fullyConnected = []
     then Inl (UndefinedBehaviour ''GetInput(0) or GetOutput(0) out of range'', c)
     else
      (case m_OperandToNode c (OperandKey (GetInput fullyConnected 0)) of
         None \<Rightarrow> Inl (UndefinedBehaviour ''m_OperandToNode[&input] is null'', c)
       | Some inputNode \<Rightarrow>
          (let inputInfo = GetTensorInfo (GetInput fullyConnected 0);
               ids = {GetId fullyConnected};
               (g1, nodes1) =
                 (if NodeFormat (GetNodes (m_Graph c) ! inputNode) \<noteq> CNHWC
                  then (let (g, conversionNode) =
                              CreateAndAddNode (m_Graph c)
                                (MakeFormatConversionNode (m_Dimensions inputInfo)
                                   (m_QuantizationInfo inputInfo) CNHWC ids)
                        in (g, [conversionNode]))
                  else (m_Graph c, []))
           in case GetShapeContainingLinearElements (GetBrickGroupShape (m_Capabilities c))
                     (dim (m_Dimensions inputInfo) 3) of
                None \<Rightarrow> Inl (UndefinedBehaviour ''division by zero'', c\<lparr>m_Graph := g1\<rparr>)
              | Some reinterpretedInput \<Rightarrow>
                 (let (g2, reinterpretNode) =
                        CreateAndAddNode g1
                          (MakeReinterpretNode reinterpretedInput (m_QuantizationInfo inputInfo)
                             CNHWCB ids);
                      nodes2 = nodes1 @ [reinterpretNode];
                      weightsInfo0 = Constant_GetTensorInfo (GetWeights fullyConnected);
                      weightsInfo =
                        weightsInfo0\<lparr>m_Dimensions :=
                          set_dim (m_Dimensions weightsInfo0) 2
                            (RoundUpToNearestMultiple (dim (m_Dimensions weightsInfo0) 2) 1024)\<rparr>;
                      paddedWeightsData =
                        Pad (GetDataVector (GetWeights fullyConnected)) (TotalSizeBytes weightsInfo)
                          (ucast (m_ZeroPoint (m_QuantizationInfo weightsInfo)));
                      (g3, fcNode) =
                        CreateAndAddNode g2
                          (MakeMceOperationNode (m_Dimensions inputInfo)
                             (m_Dimensions (GetTensorInfo (GetOutput fullyConnected 0)))
                             (m_QuantizationInfo (GetTensorInfo (GetOutput fullyConnected 0)))
                             weightsInfo paddedWeightsData
                             (Constant_GetTensorInfo (GetBias fullyConnected))
                             (GetDataVectorAs_int32 (GetDataVector (GetBias fullyConnected)))
                             Stride_default 1 0 0 FULLY_CONNECTED CNHWCB ids);
                      nodes3 = nodes2 @ [fcNode]
                  in ConnectNodeChain (c\<lparr>m_Graph := g3\<rparr>) fullyConnected nodes3))))"

subsection \<open>Concatenation\<close>

text \<open>
  The loop over the inputs that throws for an input with more than one consumer outside the
  estimation mode: \<open>True\<close> when it throws.
\<close>

fun SharedInputThrows :: "bool \<Rightarrow> Operand list \<Rightarrow> bool" where
  "SharedInputThrows estimationMode [] = False"
| "SharedInputThrows estimationMode (it # its) =
     (if 1 < length (GetConsumers it) \<and> \<not> estimationMode then True
      else SharedInputThrows estimationMode its)"

text \<open>
  The loop choosing the layout. Indexing a shape at an axis beyond 3 and the remainder by a
  zero dimension of the brick group are undefined; the model returns \<open>None\<close>.
\<close>

fun ConcatenationFormat :: "TensorShape \<Rightarrow> nat \<Rightarrow> Operand list \<Rightarrow> CompilerDataFormat option" where
  "ConcatenationFormat brickGroupShape axis [] = Some CNHWCB"
| "ConcatenationFormat brickGroupShape axis (input # inputs) =
     (if \<not> axis < 4 \<or> dim brickGroupShape axis = 0 then None
      else if dim (m_Dimensions (GetTensorInfo input)) axis mod dim brickGroupShape axis \<noteq> 0
      then Some CNHWC
      else ConcatenationFormat brickGroupShape axis inputs)"

text \<open>
  The two collecting loops over the input index \<open>i\<close>, which create the nodes to insert and
  record them with the input edges of the concat node \<open>n\<close>, and the loop that splits the
  recorded edges.
\<close>

fun AddConversions ::
  "Graph \<Rightarrow> nat \<Rightarrow> CompilerDataFormat \<Rightarrow> u32 \<Rightarrow> Operand list \<Rightarrow> nat \<Rightarrow> (nat \<times> nat) list
     \<Rightarrow> Graph \<times> (nat \<times> nat) list" where
  "AddConversions g n format operationId [] i edgeToAddConversion = (g, edgeToAddConversion)"
| "AddConversions g n format operationId (input # inputs) i edgeToAddConversion =
     (if GetInputFormat g n i \<noteq> format
      then
        (let (g', reformat) =
               CreateAndAddNode g
                 (MakeFormatConversionNode (m_Dimensions (GetTensorInfo input))
                    (m_QuantizationInfo (GetTensorInfo input)) format {operationId})
         in AddConversions g' n format operationId inputs (Suc i)
              (edgeToAddConversion @ [(Node_GetInput g' n i, reformat)]))
      else AddConversions g n format operationId inputs (Suc i) edgeToAddConversion)"

definition MakeRequantizeNode ::
  "TensorShape \<Rightarrow> QuantizationInfo \<Rightarrow> CompilerDataFormat \<Rightarrow> u32 set \<Rightarrow> Node" where
  "MakeRequantizeNode shape quantizationInfo format correspondingOperationIds =
     \<lparr>NodeKind = RequantizeNode, NodeShape = shape,
      NodeQuantizationInfo = quantizationInfo, NodeFormat = format,
      NodeOperationIds = correspondingOperationIds\<rparr>"

fun AddRequantizes ::
  "Graph \<Rightarrow> nat \<Rightarrow> QuantizationInfo \<Rightarrow> CompilerDataFormat \<Rightarrow> u32 \<Rightarrow> Operand list \<Rightarrow> nat
     \<Rightarrow> (nat \<times> nat) list \<Rightarrow> Graph \<times> (nat \<times> nat) list" where
  "AddRequantizes g n outputQuantInfo format operationId [] i edgeToAddRequantize =
     (g, edgeToAddRequantize)"
| "AddRequantizes g n outputQuantInfo format operationId (input # inputs) i edgeToAddRequantize =
     (if GetInputQuantizationInfo g n i \<noteq> outputQuantInfo
      then
        (let (g', requant) =
               CreateAndAddNode g
                 (MakeRequantizeNode (m_Dimensions (GetTensorInfo input)) outputQuantInfo format
                    {operationId})
         in AddRequantizes g' n outputQuantInfo format operationId inputs (Suc i)
              (edgeToAddRequantize @ [(Node_GetInput g' n i, requant)]))
      else AddRequantizes g n outputQuantInfo format operationId inputs (Suc i)
             edgeToAddRequantize)"

fun SplitEdges :: "Graph \<Rightarrow> (nat \<times> nat) list \<Rightarrow> Graph" where
  "SplitEdges g [] = g"
| "SplitEdges g ((edge, node) # rest) = SplitEdges (SplitEdge g edge node) rest"

definition MakeConcatNode ::
  "TensorShape \<Rightarrow> QuantizationInfo \<Rightarrow> CompilerDataFormat \<Rightarrow> u32 \<Rightarrow> u32 set \<Rightarrow> Node" where
  "MakeConcatNode shape quantizationInfo format axis correspondingOperationIds =
     \<lparr>NodeKind = ConcatNode axis, NodeShape = shape,
      NodeQuantizationInfo = quantizationInfo, NodeFormat = format,
      NodeOperationIds = correspondingOperationIds\<rparr>"

definition Visit_Concatenation ::
  "(TensorInfo list \<Rightarrow> ConcatenationInfo \<Rightarrow> SupportedLevel)
     \<Rightarrow> NetworkToGraphConverter \<Rightarrow> Concatenation \<Rightarrow> NetworkToGraphConverter outcome" where
  "Visit_Concatenation IsConcatenationSupported c concatenation =
    (let axis = m_Axis (GetConcatenationInfo concatenation);
         inputInfos = map GetTensorInfo (GetInputs concatenation);
         supportedLevel = IsConcatenationSupported inputInfos (GetConcatenationInfo concatenation)
     in if SharedInputThrows (m_EstimationMode c) (GetInputs concatenation)
        then Inl (NotSupportedException
                    ''Inputs to Concatentation cannot be connected to multiple operations'', c)
        else if supportedLevel = EstimateOnly then ConnectEstimateOnlyNode c concatenation
        else
          (case ConcatenationFormat (GetBrickGroupShape (m_Capabilities c)) (unat axis)
                  (GetInputs concatenation) of
             None \<Rightarrow> Inl (UndefinedBehaviour ''axis out of range or remainder by zero'', c)
           | Some format \<Rightarrow>
              (if GetOutputs concatenation = []
               then Inl (UndefinedBehaviour ''GetOutput(0) of an operation without outputs'', c)
               else
                (let (g1, n) =
                       CreateAndAddNode (m_Graph c)
                         (MakeConcatNode (m_Dimensions (GetTensorInfo (GetOutput concatenation 0)))
                            (m_OutputQuantizationInfo (GetConcatenationInfo concatenation))
                            format axis {GetId concatenation})
                 in case ConnectNode (c\<lparr>m_Graph := g1\<rparr>) concatenation n of
                      Inl failure \<Rightarrow> Inl failure
                    | Inr c1 \<Rightarrow>
                       (let (g2, edgeToAddConversion) =
                              AddConversions (m_Graph c1) n format (GetId concatenation)
                                (GetInputs concatenation) 0 [];
                            g3 = SplitEdges g2 edgeToAddConversion;
                            outputQuantInfo =
                              m_QuantizationInfo (GetTensorInfo (GetOutput concatenation 0));
                            (g4, edgeToAddRequantize) =
                              AddRequantizes g3 n outputQuantInfo format (GetId concatenation)
                                (GetInputs concatenation) 0 [];
                            g5 = SplitEdges g4 edgeToAddRequantize
                        in Inr (c1\<lparr>m_Graph := g5\<rparr>))))))"

subsection \<open>Split\<close>

text \<open>
  The estimate-only branch of \<open>Visit(Split&)\<close>: one \<open>EstimateOnlyNode\<close> for each output,
  bound to the output and connected from the node of the input.
\<close>

fun SplitEstimateOnly ::
  "NetworkToGraphConverter \<Rightarrow> nat \<Rightarrow> u32 \<Rightarrow> Operand list \<Rightarrow> NetworkToGraphConverter" where
  "SplitEstimateOnly c inputNode operationId [] = c"
| "SplitEstimateOnly c inputNode operationId (it # its) =
     (let (g, estimateOnlyNode) =
            CreateAndAddNode (m_Graph c) (MakeEstimateOnlyNode (GetTensorInfo it) operationId)
      in SplitEstimateOnly
           (c\<lparr>m_Graph := Connect g inputNode estimateOnlyNode,
              m_OperandToNode := (m_OperandToNode c)(OperandKey it \<mapsto> estimateOnlyNode)\<rparr>)
           inputNode operationId its)"

fun SplitFormat :: "TensorShape \<Rightarrow> nat \<Rightarrow> Operand list \<Rightarrow> CompilerDataFormat option" where
  "SplitFormat brickGroupShape axis [] = Some CNHWCB"
| "SplitFormat brickGroupShape axis (output # outputs) =
     (if \<not> axis < 4 \<or> dim brickGroupShape axis = 0 then None
      else if dim (m_Dimensions (GetTensorInfo output)) axis mod dim brickGroupShape axis \<noteq> 0
      then Some CNHWC
      else SplitFormat brickGroupShape axis outputs)"

definition MakeExtractSubtensorNode ::
  "TensorShape \<Rightarrow> TensorShape \<Rightarrow> QuantizationInfo \<Rightarrow> CompilerDataFormat \<Rightarrow> u32 set \<Rightarrow> Node" where
  "MakeExtractSubtensorNode supertensorOffset shape quantizationInfo format correspondingOperationIds =
     \<lparr>NodeKind = ExtractSubtensorNode supertensorOffset, NodeShape = shape,
      NodeQuantizationInfo = quantizationInfo, NodeFormat = format,
      NodeOperationIds = correspondingOperationIds\<rparr>"

text \<open>
  The loop creating one \<open>ExtractSubtensorNode\<close> for each output. It runs over the outputs and
  reads \<open>m_Sizes[outputIdx]\<close>: the sizes are consumed along with the outputs, and a missing
  size (or an axis beyond 3) is undefined behaviour.
\<close>

fun ExtractSubtensors ::
  "Graph \<Rightarrow> TensorInfo \<Rightarrow> nat \<Rightarrow> CompilerDataFormat \<Rightarrow> u32 \<Rightarrow> Operand list \<Rightarrow> u32 list
     \<Rightarrow> TensorShape \<Rightarrow> nat list \<Rightarrow> (Graph \<times> nat list) option" where
  "ExtractSubtensors g inputTensorInfo axis format operationId [] sizes supertensorOffset
       extractSubtensorNodes = Some (g, extractSubtensorNodes)"
| "ExtractSubtensors g inputTensorInfo axis format operationId (output # outputs) []
       supertensorOffset extractSubtensorNodes = None"
| "ExtractSubtensors g inputTensorInfo axis format operationId (output # outputs) (sz # sizes)
       supertensorOffset extractSubtensorNodes =
     (if \<not> axis < 4 then None
      else
        (let outputShape = set_dim (m_Dimensions inputTensorInfo) axis sz;
             (g', node) =
               CreateAndAddNode g
                 (MakeExtractSubtensorNode supertensorOffset outputShape
                    (m_QuantizationInfo inputTensorInfo) format {operationId})
         in ExtractSubtensors g' inputTensorInfo axis format operationId outputs sizes
              (set_dim supertensorOffset axis (dim supertensorOffset axis + sz))
              (extractSubtensorNodes @ [node])))"

fun ConnectSubtensors ::
  "NetworkToGraphConverter \<Rightarrow> nat \<Rightarrow> Operand list \<Rightarrow> nat list \<Rightarrow> NetworkToGraphConverter" where
  "ConnectSubtensors c inputNode (output # outputs) (node # nodes) =
     ConnectSubtensors
       (c\<lparr>m_Graph := Connect (m_Graph c) inputNode node,
          m_OperandToNode := (m_OperandToNode c)(OperandKey output \<mapsto> node)\<rparr>)
       inputNode outputs nodes"
| "ConnectSubtensors c inputNode outputs nodes = c"

definition Visit_Split ::
  "(TensorInfo \<Rightarrow> SplitInfo \<Rightarrow> SupportedLevel)
     \<Rightarrow> NetworkToGraphConverter \<Rightarrow> Split \<Rightarrow> NetworkToGraphConverter outcome" where
  "Visit_Split IsSplitSupported c split =
    (if GetInputs split = []
     then Inl (UndefinedBehaviour ''GetInput(0) of an operation without inputs'', c)
     else
      (let inputTensorInfo = GetTensorInfo (GetInput split 0);
           splitInfo = GetSplitInfo split;
           supportedLevel = IsSplitSupported inputTensorInfo splitInfo
       in if supportedLevel = EstimateOnly
          then
            (case m_OperandToNode c (OperandKey (GetInput split 0)) of
               None \<Rightarrow>
                 (if GetOutputs split = [] then Inr c
                  else Inl (UndefinedBehaviour ''m_OperandToNode[&input] is null'', c))
             | Some inputNode \<Rightarrow>
                 Inr (SplitEstimateOnly c inputNode (GetId split) (GetOutputs split)))
          else
            (case SplitFormat (GetBrickGroupShape (m_Capabilities c))
                    (unat (m_SplitAxis splitInfo)) (GetOutputs split) of
               None \<Rightarrow> Inl (UndefinedBehaviour ''axis out of range or remainder by zero'', c)
             | Some format \<Rightarrow>
                (case m_OperandToNode c (OperandKey (GetInput split 0)) of
                   None \<Rightarrow> Inl (UndefinedBehaviour ''m_OperandToNode[&input] is null'', c)
                 | Some inputNode \<Rightarrow>
                    (let (g1, inputNode1) =
                           (if NodeFormat (GetNodes (m_Graph c) ! inputNode) \<noteq> format
                            then
                              (let (g, conversionNode) =
                                     CreateAndAddNode (m_Graph c)
                                       (MakeFormatConversionNode (m_Dimensions inputTensorInfo)
                                          (m_QuantizationInfo inputTensorInfo) format {GetId split})
                               in (Connect g inputNode conversionNode, conversionNode))
                            else (m_Graph c, inputNode))
                     in case ExtractSubtensors g1 inputTensorInfo (unat (m_SplitAxis splitInfo))
                               format (GetId split) (GetOutputs split) (m_Sizes splitInfo)
                               (0, 0, 0, 0) [] of
                          None \<Rightarrow>
                            Inl (UndefinedBehaviour ''axis or m_Sizes index out of range'',
                                 c\<lparr>m_Graph := g1\<rparr>)
                        | Some (g2, extractSubtensorNodes) \<Rightarrow>
                            Inr (ConnectSubtensors (c\<lparr>m_Graph := g2\<rparr>) inputNode1
                                   (GetOutputs split) extractSubtensorNodes))))))"

section \<open>Vocabulary for the edges of the lowered graph\<close>

text \<open>
  \<open>Feeds g s n i\<close>: the \<open>i\<close>-th input of node \<open>n\<close> is an edge of the graph, and that edge
  runs from node \<open>s\<close> to node \<open>n\<close>.
\<close>

definition Feeds :: "Graph \<Rightarrow> nat \<Rightarrow> nat \<Rightarrow> nat \<Rightarrow> bool" where
  "Feeds g s n i \<longleftrightarrow>
     i < length (NodeInputs g n) \<and> NodeInputs g n ! i < length (GetEdges g)
     \<and> GetEdges g ! (NodeInputs g n ! i) = \<lparr>GetSource = s, GetDestination = n\<rparr>"

text \<open>The node at the source of the \<open>i\<close>-th input edge of node \<open>n\<close>.\<close>

definition InputSource :: "Graph \<Rightarrow> nat \<Rightarrow> nat \<Rightarrow> nat" where
  "InputSource g n i = GetSource (GetEdges g ! Node_GetInput g n i)"

text \<open>
  The inputs a collecting loop selects, each with the index of the node the loop creates for it:
  the loop runs over the inputs \<open>i, i + 1, \<dots>\<close>, and the next node it adds gets the index \<open>N\<close>.
\<close>

fun NewNodeIndices :: "(nat \<Rightarrow> bool) \<Rightarrow> nat \<Rightarrow> nat \<Rightarrow> nat \<Rightarrow> (nat \<times> nat) list" where
  "NewNodeIndices sel i 0 N = []"
| "NewNodeIndices sel i (Suc k) N =
     (if sel i then (i, N) # NewNodeIndices sel (Suc i) k (Suc N)
      else NewNodeIndices sel (Suc i) k N)"

section \<open>Example networks\<close>

text \<open>
  Small concrete inputs on which the theorems below are instantiated: a converter whose graph
  holds the producers of two operands, and operations reading them.
\<close>

definition example_tensor :: "TensorShape \<Rightarrow> i32 \<Rightarrow> TensorInfo" where
  "example_tensor shape zeroPoint =
     \<lparr>m_Dimensions = shape, m_DataType = UINT8_QUANTIZED, m_DataFormat = NHWC,
      m_QuantizationInfo = \<lparr>m_ZeroPoint = zeroPoint, m_Scale = 1\<rparr>\<rparr>"

definition example_operand :: "u32 \<Rightarrow> TensorInfo \<Rightarrow> u32 list \<Rightarrow> Operand" where
  "example_operand producer info consumers =
     \<lparr>GetProducerId = producer, GetProducerOutputIndex = 0, GetTensorInfo = info,
      GetConsumers = consumers\<rparr>"

definition example_node :: "TensorInfo \<Rightarrow> CompilerDataFormat \<Rightarrow> u32 \<Rightarrow> Node" where
  "example_node info format operationId =
     \<lparr>NodeKind = InputNode, NodeShape = m_Dimensions info,
      NodeQuantizationInfo = m_QuantizationInfo info, NodeFormat = format,
      NodeOperationIds = {operationId}\<rparr>"

definition example_converter :: "bool \<Rightarrow> NetworkToGraphConverter" where
  "example_converter estimationMode =
     \<lparr>m_Graph =
        \<lparr>GetNodes = [example_node (example_tensor (1, 8, 8, 16) 0) CNHWCB 0,
                     example_node (example_tensor (1, 8, 8, 3) 5) CNHWC 1],
         GetEdges = [], NodeInputs = (\<lambda>_. []), NodeOutputs = (\<lambda>_. [])\<rparr>,
      m_OperandToNode = [(0, 0) \<mapsto> 0, (1, 0) \<mapsto> 1],
      m_EstimationMode = estimationMode,
      m_Capabilities = \<lparr>GetBrickGroupShape = (1, 8, 8, 16)\<rparr>\<rparr>"

definition example_pooling :: "PoolingInfo \<Rightarrow> Pooling" where
  "example_pooling info =
     \<lparr>GetId = 2,
      GetInputs = [example_operand 0 (example_tensor (1, 8, 8, 16) 0) [2]],
      GetOutputs = [example_operand 2 (example_tensor (1, 4, 4, 16) 0) []],
      GetPoolingInfo = info\<rparr>"

definition example_pooling_info :: "u32 \<Rightarrow> u32 \<Rightarrow> u32 \<Rightarrow> PoolingType \<Rightarrow> PoolingInfo" where
  "example_pooling_info k s p t =
     \<lparr>m_PoolingSizeX = k, m_PoolingSizeY = k, m_PoolingStrideX = s, m_PoolingStrideY = s,
      m_Padding = \<lparr>m_Top = p, m_Bottom = p, m_Left = p, m_Right = p\<rparr>, m_PoolingType = t\<rparr>"

definition example_fully_connected :: FullyConnected where
  "example_fully_connected =
     \<lparr>GetId = 2,
      GetInputs = [example_operand 0 (example_tensor (1, 1, 1, 1000) 7) [2]],
      GetOutputs = [example_operand 2 (example_tensor (1, 1, 1, 4) 0) []],
      GetWeights = \<lparr>Constant_GetTensorInfo = example_tensor (1, 1, 1000, 4) 3,
                    GetDataVector = replicate 4000 1\<rparr>,
      GetBias = \<lparr>Constant_GetTensorInfo = example_tensor (1, 1, 1, 4) 0,
                 GetDataVector = replicate 16 0\<rparr>\<rparr>"

definition example_TotalSizeBytes :: "TensorInfo \<Rightarrow> nat" where
  "example_TotalSizeBytes info =
     unat (dim (m_Dimensions info) 0) * unat (dim (m_Dimensions info) 1)
       * unat (dim (m_Dimensions info) 2) * unat (dim (m_Dimensions info) 3)"

definition example_concatenation :: "u32 list \<Rightarrow> Concatenation" where
  "example_concatenation consumers =
     \<lparr>GetId = 2,
      GetInputs = [example_operand 0 (example_tensor (1, 8, 8, 16) 0) consumers,
                   example_operand 1 (example_tensor (1, 8, 8, 3) 5) [2]],
      GetOutputs = [example_operand 2 (example_tensor (1, 8, 8, 19) 0) []],
      GetConcatenationInfo =
        \<lparr>m_Axis = 3, m_OutputQuantizationInfo = \<lparr>m_ZeroPoint = 0, m_Scale = 1\<rparr>\<rparr>\<rparr>"

definition example_split :: Split where
  "example_split =
     \<lparr>GetId = 2,
      GetInputs = [example_operand 0 (example_tensor (1, 8, 8, 16) 0) [2]],
      GetOutputs =
        [\<lparr>GetProducerId = 2, GetProducerOutputIndex = 0,
          GetTensorInfo = example_tensor (1, 8, 8, 4) 0, GetConsumers = []\<rparr>,
         \<lparr>GetProducerId = 2, GetProducerOutputIndex = 1,
          GetTensorInfo = example_tensor (1, 8, 8, 12) 0, GetConsumers = []\<rparr>],
      GetSplitInfo = \<lparr>m_SplitAxis = 3, m_Sizes = [4, 12]\<rparr>\<rparr>"

section \<open>Properties of the linear-shape packer\<close>

lemma unat_DivRoundUp_16: "unat (DivRoundUp n 16) = (unat n + 15) div 16"
proof -
  have "unat n < 2 ^ 32" using unsigned_less [of n] by simp
  then have "(unat n + 15) div 16 < 2 ^ 32" by simp
  then show ?thesis
    by (simp add: DivRoundUp_def unat_of_nat)
qed

lemma unat_mult_small:
  fixes a b :: u32
  assumes "unat a * unat b < 2 ^ 32"
  shows "unat (a * b) = unat a * unat b"
  using assms by (simp add: unat_mult_lem [THEN iffD1])

lemma unat_add_small:
  fixes a b :: u32
  assumes "unat a + unat b < 2 ^ 32"
  shows "unat (a + b) = unat a + unat b"
  using assms by (simp add: unat_add_lem [THEN iffD1])

text \<open>
  Claim C3. For every brick-group shape \<open>(B0, BH, BW, BC)\<close> and every element count \<open>N\<close>,
  the linear-shape packer returns the shape \<open>(1, H, W, C)\<close> with
  \<open>num_patches = ceil(N / 16)\<close>, \<open>W = 4\<close> if \<open>num_patches \<le> BC * (BH div 4)\<close> and \<open>BW\<close>
  otherwise, \<open>H = 4\<close> if \<open>num_patches \<le> BC\<close> and \<open>BH\<close> otherwise, and
  \<open>C = BC * (num_patches div patches_per_bg) + min BC (num_patches mod patches_per_bg)\<close>,
  where \<open>patches_per_bg = (BH div 4) * (BW div 4) * BC\<close>; all of these are numbers, not
  residues modulo \<open>2 ^ 32\<close>. A brick group is tiled from 4 by 4 patches, so the shapes the
  claim ranges over have \<open>BH \<ge> 4\<close>, \<open>BW \<ge> 4\<close> and \<open>BC \<ge> 1\<close>, and a number of patches
  \<open>patches_per_bg\<close> that a \<open>uint32_t\<close> holds; these are the hypotheses of the theorem, and
  the shape \<open>GetBrickGroupShape\<close> of the capabilities, the only one the rule passes, meets
  them.
\<close>

theorem GetShapeContainingLinearElements_shape:
  fixes BH BW BC N B0 :: u32
  assumes h: "4 \<le> unat BH" and w: "4 \<le> unat BW" and c: "1 \<le> unat BC"
    and fit: "(unat BH div 4) * (unat BW div 4) * unat BC < 2 ^ 32"
  shows "\<exists>H W C. GetShapeContainingLinearElements (B0, BH, BW, BC) N = Some (1, H, W, C)
     \<and> unat W = (if (unat N + 15) div 16 \<le> unat BC * (unat BH div 4) then 4 else unat BW)
     \<and> unat H = (if (unat N + 15) div 16 \<le> unat BC then 4 else unat BH)
     \<and> unat C = unat BC * (((unat N + 15) div 16) div ((unat BH div 4) * (unat BW div 4) * unat BC))
                + min (unat BC) (((unat N + 15) div 16) mod ((unat BH div 4) * (unat BW div 4) * unat BC))"
proof -
  let ?np = "(unat N + 15) div 16"
  let ?ph = "unat BH div 4" and ?pw = "unat BW div 4"
  let ?pg = "?ph * ?pw * unat BC"
  have ph1: "1 \<le> ?ph" and pw1: "1 \<le> ?pw" using h w by simp_all
  have uph: "unat (BH div 4) = ?ph" and upw: "unat (BW div 4) = ?pw"
    by (simp_all add: unat_div)
  have hw_le: "?ph * ?pw \<le> ?pg" using c by simp
  have hw_fit: "?ph * ?pw < 2 ^ 32" using hw_le fit by linarith
  have uhw: "unat (BH div 4 * (BW div 4)) = ?ph * ?pw"
    using hw_fit unat_mult_small [of "BH div 4" "BW div 4"] by (simp add: uph upw)
  have upg: "unat (BH div 4 * (BW div 4) * BC) = ?pg"
    using fit unat_mult_small [of "BH div 4 * (BW div 4)" BC] by (simp add: uhw)
  have pg_pos: "0 < ?pg" using ph1 pw1 c by simp
  have pg_ne: "BH div 4 * (BW div 4) * BC \<noteq> 0"
    using upg pg_pos by (metis less_irrefl unat_0)
  have ch_le: "unat BC * ?ph \<le> ?pg"
  proof -
    have "unat BC * ?ph * 1 \<le> unat BC * ?ph * ?pw" using pw1 by (intro mult_le_mono2)
    then show ?thesis by (simp add: mult_ac)
  qed
  have ch_fit: "unat BC * ?ph < 2 ^ 32" using ch_le fit by linarith
  have uch: "unat (BC * (BH div 4)) = unat BC * ?ph"
    using ch_fit unat_mult_small [of BC "BH div 4"] by (simp only: uph)
  have unp: "unat (DivRoundUp N 16) = ?np"
    by (rule unat_DivRoundUp_16)
  have "unat N < 2 ^ 32" using unsigned_less [of N] by simp
  then have np_small: "?np \<le> 2 ^ 28" by simp
  let ?q = "?np div ?pg"
  have uq: "unat (DivRoundUp N 16 div (BH div 4 * (BW div 4) * BC)) = ?q"
    by (simp add: unat_div unp upg)
  have ur: "unat (DivRoundUp N 16 mod (BH div 4 * (BW div 4) * BC)) = ?np mod ?pg"
    by (simp add: unat_mod unp upg)
  have cq_le: "unat BC * ?q \<le> ?np"
  proof -
    have "unat BC * ?q * 1 \<le> unat BC * ?q * (?ph * ?pw)"
      using ph1 pw1 by (intro mult_le_mono2) (simp add: Suc_le_eq)
    also have "\<dots> = ?pg * ?q" by (simp add: mult_ac)
    also have "\<dots> \<le> ?np" by simp
    finally show ?thesis by simp
  qed
  have cq_fit: "unat BC * ?q < 2 ^ 32" using cq_le np_small by simp
  have ucq: "unat (BC * (DivRoundUp N 16 div (BH div 4 * (BW div 4) * BC))) = unat BC * ?q"
    using cq_fit
      unat_mult_small [of BC "DivRoundUp N 16 div (BH div 4 * (BW div 4) * BC)"]
    by (simp only: uq)
  have umin: "unat (min BC (DivRoundUp N 16 mod (BH div 4 * (BW div 4) * BC)))
      = min (unat BC) (?np mod ?pg)"
    by (simp add: min_def word_le_nat_alt ur)
  have min_le: "min (unat BC) (?np mod ?pg) \<le> ?np"
    by (meson min.coboundedI2 mod_less_eq_dividend)
  have usum: "unat (BC * (DivRoundUp N 16 div (BH div 4 * (BW div 4) * BC))
       + min BC (DivRoundUp N 16 mod (BH div 4 * (BW div 4) * BC)))
     = unat BC * ?q + min (unat BC) (?np mod ?pg)"
  proof -
    have "unat BC * ?q + min (unat BC) (?np mod ?pg) < 2 ^ 32"
      using cq_le min_le np_small by simp
    then show ?thesis
      using unat_add_small [of "BC * (DivRoundUp N 16 div (BH div 4 * (BW div 4) * BC))"
         "min BC (DivRoundUp N 16 mod (BH div 4 * (BW div 4) * BC))"]
      by (simp only: ucq umin)
  qed
  show ?thesis
    using pg_ne usum
    by (simp add: GetShapeContainingLinearElements_def Let_def word_le_nat_alt unp uch)
qed

theorem GetShapeContainingLinearElements_shape_witness:
  "\<exists>H W C. GetShapeContainingLinearElements (1, 8, 8, 16) 1024 = Some (1, H, W, C)
     \<and> unat W = 8 \<and> unat H = 8 \<and> unat C = 16"
  using GetShapeContainingLinearElements_shape [where BH = 8 and BW = 8 and BC = 16 and N = 1024 and ?B0.0 = 1] by simp

section \<open>Properties of the weight rotation\<close>

lemma set_word_upto: "x \<in> set (word_upto n) \<longleftrightarrow> x < n"
proof
  assume "x \<in> set (word_upto n)"
  then obtain k where k: "k < unat n" "x = of_nat k" by (auto simp: word_upto_def)
  have "unat n < 2 ^ 32" using unsigned_less [of n] by simp
  with k have "unat x = k" by (simp add: unat_of_nat)
  with k show "x < n" by (simp add: word_less_nat_alt)
next
  assume "x < n"
  then have "unat x < unat n" by (simp add: word_less_nat_alt)
  then have "of_nat (unat x) \<in> set (word_upto n)" unfolding word_upto_def by (simp del: of_nat_unat)
  then show "x \<in> set (word_upto n)" by simp
qed

lemma nth_append3:
  assumes "length a = la" and "length b = lb"
  shows "(a @ b @ c) ! j =
     (if j < la then a ! j else if j < la + lb then b ! (j - la) else c ! (j - la - lb))"
  using assms by (auto simp: nth_append)

lemma copy_n_nth:
  assumes "copy_n src first count dst result = Some out"
  shows "length out = length dst"
    and "j < length dst \<Longrightarrow> out ! j =
          (if result \<le> j \<and> j < result + count then src ! (first + (j - result)) else dst ! j)"
proof -
  from assms have b: "first + count \<le> length src" "result + count \<le> length dst"
    and out: "out = take result dst @ take count (drop first src) @ drop (result + count) dst"
    by (auto simp: copy_n_def split: if_splits)
  have l1: "length (take result dst) = result" using b by simp
  have l2: "length (take count (drop first src)) = count" using b by simp
  from b out show "length out = length dst" by simp
  assume j: "j < length dst"
  have split3: "out ! j = (if j < result then take result dst ! j
       else if j < result + count then take count (drop first src) ! (j - result)
       else drop (result + count) dst ! (j - result - count))"
    unfolding out by (rule nth_append3 [OF l1 l2])
  consider "j < result" | "result \<le> j" "j < result + count" | "result + count \<le> j"
    by linarith
  then show "out ! j =
          (if result \<le> j \<and> j < result + count then src ! (first + (j - result)) else dst ! j)"
  proof cases
    case 1
    then show ?thesis by (simp add: split3)
  next
    case 2
    then have "j - result < count" by linarith
    then have "take count (drop first src) ! (j - result) = src ! (first + (j - result))"
      using b by simp
    then show ?thesis using 2 by (simp add: split3)
  next
    case 3
    then have "drop (result + count) dst ! (j - result - count) = dst ! j"
      using j by simp
    then show ?thesis using 3 by (simp add: split3)
  qed
qed


lemma block_lt: "uy < H \<Longrightarrow> ux < W \<Longrightarrow> uy * W + ux < H * (W::nat)"
proof -
  assume a: "uy < H" "ux < W"
  then have "uy * W + ux < uy * W + W" by simp
  also have "\<dots> = Suc uy * W" by simp
  also have "\<dots> \<le> H * W" using a by (intro mult_le_mono1) simp
  finally show ?thesis .
qed

lemma block_sum:
  assumes "uy < H" "ux < (W::nat)"
  shows "(H - 1 - uy) * W + (W - 1 - ux) + (uy * W + ux) = H * W - 1"
proof -
  have "(H - 1 - uy) * W + uy * W = (H - 1) * W"
    using assms by (simp add: add_mult_distrib [symmetric])
  moreover have "(W - 1 - ux) + ux = W - 1" using assms by simp
  moreover have "(H - 1) * W + (W - 1) = H * W - 1"
    using assms by (cases H) simp_all
  ultimately show ?thesis by linarith
qed

lemma in_block_iff:
  assumes "0 < (n::nat)"
  shows "(b * n \<le> j \<and> j < b * n + n) \<longleftrightarrow> j div n = b"
proof
  assume "b * n \<le> j \<and> j < b * n + n"
  then show "j div n = b"
    using assms by (metis div_nat_eqI mult.commute mult_Suc_right add.commute)
next
  assume "j div n = b"
  then have "j = b * n + j mod n" by (metis div_mult_mod_eq)
  moreover have "j mod n < n" using assms by simp
  ultimately show "b * n \<le> j \<and> j < b * n + n" by linarith
qed

lemma unat_flip_index:
  fixes y K :: u32
  assumes "y < K"
  shows "unat (K - 1 - y) = unat K - 1 - unat y"
proof -
  have y: "unat y < unat K" using assms by (simp add: word_less_nat_alt)
  then have "unat (1::u32) \<le> unat K" by simp
  then have "1 \<le> K" by (simp only: word_le_nat_alt)
  then have 1: "unat (K - 1) = unat K - 1" by (simp add: unat_sub)
  have "y \<le> K - 1" using y 1 by (simp add: word_le_nat_alt)
  then show ?thesis using 1 by (simp add: unat_sub)
qed



lemma copy_block:
  fixes KH KW I O' y x :: u32
  assumes npos: "0 < unat I * unat O'" and nfit: "unat I * unat O' < 2 ^ 32"
    and y: "y < KH" and x: "x < KW"
    and lo: "length orig = unat KH * unat KW * (unat I * unat O')"
    and lf: "length fl = length orig"
  shows "\<exists>out. copy_n orig (GetElementRef (KH, KW, I, O') y x 0 0) (unat (I * O')) fl
            (GetElementRef (KH, KW, I, O') (KH - 1 - y) (KW - 1 - x) 0 0) = Some out
          \<and> length out = length fl
          \<and> (\<forall>j < length fl. out ! j =
                (if j div (unat I * unat O') = flipped_block KH KW y x
                 then orig ! mirror (unat KH * unat KW) (unat I * unat O') j else fl ! j))"
proof -
  let ?n = "unat I * unat O'" and ?N = "unat KH * unat KW"
  let ?bs = "unat y * unat KW + unat x" and ?bd = "flipped_block KH KW y x"
  have uy: "unat y < unat KH" and ux: "unat x < unat KW"
    using y x by (simp_all add: word_less_nat_alt)
  have n: "unat (I * O') = ?n" using nfit by (simp add: unat_mult_lem [THEN iffD1])
  have src: "GetElementRef (KH, KW, I, O') y x 0 0 = ?bs * ?n"
    by (simp add: GetElementRef_def add_mult_distrib mult.assoc)
  have "GetElementRef (KH, KW, I, O') (KH - 1 - y) (KW - 1 - x) 0 0
      = unat (KH - 1 - y) * unat KW * unat I * unat O' + unat (KW - 1 - x) * unat I * unat O'"
    by (simp add: GetElementRef_def)
  also have "\<dots> = ?bd * ?n"
    unfolding flipped_block_def unat_flip_index [OF y] unat_flip_index [OF x]
    by (simp add: add_mult_distrib mult.assoc)
  finally have dst: "GetElementRef (KH, KW, I, O') (KH - 1 - y) (KW - 1 - x) 0 0 = ?bd * ?n" .
  have sum: "?bd + ?bs = ?N - 1"
    unfolding flipped_block_def using block_sum [OF uy ux] by simp
  have Npos: "0 < ?N" using uy ux by simp
  have bs_lt: "?bs < ?N" using block_lt [OF uy ux] .
  have bd_lt: "?bd < ?N" using sum Npos by linarith
  have bs_eq: "?bs = ?N - 1 - ?bd" using sum by linarith
  have bound: "b < ?N \<Longrightarrow> b * ?n + ?n \<le> ?N * ?n" for b
  proof -
    assume "b < ?N"
    then have "Suc b * ?n \<le> ?N * ?n" by (intro mult_le_mono1) simp
    then show ?thesis by simp
  qed
  have ok: "?bs * ?n + ?n \<le> length orig \<and> ?bd * ?n + ?n \<le> length fl"
    using bound [OF bs_lt] bound [OF bd_lt] lo lf by simp
  define out where "out = take (?bd * ?n) fl @ take ?n (drop (?bs * ?n) orig) @ drop (?bd * ?n + ?n) fl"
  have c: "copy_n orig (?bs * ?n) ?n fl (?bd * ?n) = Some out"
    using ok by (simp add: copy_n_def out_def)
  have nth: "out ! j = (if j div ?n = ?bd then orig ! mirror ?N ?n j else fl ! j)"
    if j: "j < length fl" for j
  proof (cases "j div ?n = ?bd")
    case True
    then have r: "?bd * ?n \<le> j \<and> j < ?bd * ?n + ?n" using in_block_iff [OF npos] by blast
    have "j = ?bd * ?n + j mod ?n" using True by (metis div_mult_mod_eq)
    then have off: "j - ?bd * ?n = j mod ?n" by linarith
    have "out ! j = orig ! (?bs * ?n + (j - ?bd * ?n))"
      using copy_n_nth(2) [OF c j] by (simp only: r if_True simp_thms)
    also have "?bs * ?n + (j - ?bd * ?n) = mirror ?N ?n j"
      unfolding mirror_def off True using bs_eq by simp
    finally show ?thesis using True by simp
  next
    case False
    then have nr: "\<not> (?bd * ?n \<le> j \<and> j < ?bd * ?n + ?n)" using in_block_iff [OF npos] by blast
    have "out ! j = fl ! j"
      using copy_n_nth(2) [OF c j] by (simp only: nr if_False)
    then show ?thesis by (simp only: False if_False)
  qed
  show ?thesis
    unfolding src dst n using c copy_n_nth(1) [OF c] nth by blast
qed

lemma FlipWeightsRow_nth:
  fixes KH KW I O' y :: u32
  assumes npos: "0 < unat I * unat O'" and nfit: "unat I * unat O' < 2 ^ 32"
    and y: "y < KH" and xs: "\<forall>x\<in>set xs. x < KW"
    and lo: "length orig = unat KH * unat KW * (unat I * unat O')"
    and lf: "length fl = length orig"
  shows "\<exists>out. FlipWeightsRow (KH, KW, I, O') orig y xs fl = Some out
          \<and> length out = length fl
          \<and> (\<forall>j < length fl. out ! j =
                (if \<exists>x\<in>set xs. j div (unat I * unat O') = flipped_block KH KW y x
                 then orig ! mirror (unat KH * unat KW) (unat I * unat O') j else fl ! j))"
  using xs lf
proof (induction xs arbitrary: fl)
  case Nil
  then show ?case by simp
next
  case (Cons x xs)
  from Cons.prems have x: "x < KW" and xs': "\<forall>x\<in>set xs. x < KW" by simp_all
  from copy_block [OF npos nfit y x lo Cons.prems(2)]
  obtain out1 where c: "copy_n orig (GetElementRef (KH, KW, I, O') y x 0 0) (unat (I * O')) fl
            (GetElementRef (KH, KW, I, O') (KH - 1 - y) (KW - 1 - x) 0 0) = Some out1"
    and l1: "length out1 = length fl"
    and n1: "\<forall>j < length fl. out1 ! j =
                (if j div (unat I * unat O') = flipped_block KH KW y x
                 then orig ! mirror (unat KH * unat KW) (unat I * unat O') j else fl ! j)"
    by blast
  have l1': "length out1 = length orig" using l1 Cons.prems(2) by simp
  from Cons.IH [OF xs' l1']
  obtain out where r: "FlipWeightsRow (KH, KW, I, O') orig y xs out1 = Some out"
    and l2: "length out = length out1"
    and n2: "\<forall>j < length out1. out ! j =
                (if \<exists>x\<in>set xs. j div (unat I * unat O') = flipped_block KH KW y x
                 then orig ! mirror (unat KH * unat KW) (unat I * unat O') j else out1 ! j)"
    by blast
  have "FlipWeightsRow (KH, KW, I, O') orig y (x # xs) fl = Some out"
    using c r by (simp add: Let_def)
  moreover have "length out = length fl" using l1 l2 by simp
  moreover have "\<forall>j < length fl. out ! j =
                (if \<exists>x'\<in>set (x # xs). j div (unat I * unat O') = flipped_block KH KW y x'
                 then orig ! mirror (unat KH * unat KW) (unat I * unat O') j else fl ! j)"
    using n1 n2 l1 by auto
  ultimately show ?case by blast
qed

lemma FlipWeightsRows_nth:
  fixes KH KW I O' :: u32
  assumes npos: "0 < unat I * unat O'" and nfit: "unat I * unat O' < 2 ^ 32"
    and ys: "\<forall>y\<in>set ys. y < KH"
    and lo: "length orig = unat KH * unat KW * (unat I * unat O')"
    and lf: "length fl = length orig"
  shows "\<exists>out. FlipWeightsRows (KH, KW, I, O') orig ys fl = Some out
          \<and> length out = length fl
          \<and> (\<forall>j < length fl. out ! j =
                (if \<exists>y\<in>set ys. \<exists>x. x < KW \<and> j div (unat I * unat O') = flipped_block KH KW y x
                 then orig ! mirror (unat KH * unat KW) (unat I * unat O') j else fl ! j))"
  using ys lf
proof (induction ys arbitrary: fl)
  case Nil
  then show ?case by simp
next
  case (Cons y ys)
  from Cons.prems have y: "y < KH" and ys': "\<forall>y\<in>set ys. y < KH" by simp_all
  have xs: "\<forall>x\<in>set (word_upto KW). x < KW" by (simp add: set_word_upto)
  from FlipWeightsRow_nth [OF npos nfit y xs lo Cons.prems(2)]
  obtain out1 where c: "FlipWeightsRow (KH, KW, I, O') orig y (word_upto KW) fl = Some out1"
    and l1: "length out1 = length fl"
    and n1: "\<forall>j < length fl. out1 ! j =
                (if \<exists>x. x < KW \<and> j div (unat I * unat O') = flipped_block KH KW y x
                 then orig ! mirror (unat KH * unat KW) (unat I * unat O') j else fl ! j)"
    by (auto simp: set_word_upto Bex_def)
  have l1': "length out1 = length orig" using l1 Cons.prems(2) by simp
  from Cons.IH [OF ys' l1']
  obtain out where r: "FlipWeightsRows (KH, KW, I, O') orig ys out1 = Some out"
    and l2: "length out = length out1"
    and n2: "\<forall>j < length out1. out ! j =
                (if \<exists>y\<in>set ys. \<exists>x. x < KW \<and> j div (unat I * unat O') = flipped_block KH KW y x
                 then orig ! mirror (unat KH * unat KW) (unat I * unat O') j else out1 ! j)"
    by blast
  have "FlipWeightsRows (KH, KW, I, O') orig (y # ys) fl = Some out"
    using c r by simp
  moreover have "length out = length fl" using l1 l2 by simp
  moreover have "\<forall>j < length fl. out ! j =
                (if \<exists>y'\<in>set (y # ys). \<exists>x. x < KW \<and> j div (unat I * unat O') = flipped_block KH KW y' x
                 then orig ! mirror (unat KH * unat KW) (unat I * unat O') j else fl ! j)"
    using n1 n2 l1 by auto
  ultimately show ?case by blast
qed



lemma FlipWeightsRow_empty:
  assumes "xs = [] \<or> unat I * unat O' = 0"
  shows "FlipWeightsRow (KH, KW, I, O') [] y xs [] = Some []"
proof (cases "xs = []")
  case True
  then show ?thesis by simp
next
  case False
  with assms have z: "unat I * unat O' = 0" by simp
  then have "I = 0 \<or> O' = 0" by (simp add: unat_eq_zero)
  then have w: "I * O' = 0" by auto
  have g: "GetElementRef (KH, KW, I, O') a b 0 0 = 0" for a b
    using z by (auto simp: GetElementRef_def)
  show ?thesis
    by (induction xs) (simp_all add: Let_def g w copy_n_def)
qed

lemma FlipWeightsRows_empty:
  assumes "ys = [] \<or> unat KW = 0 \<or> unat I * unat O' = 0"
  shows "FlipWeightsRows (KH, KW, I, O') [] ys [] = Some []"
proof (cases "ys = []")
  case True
  then show ?thesis by simp
next
  case False
  with assms have "word_upto KW = [] \<or> unat I * unat O' = 0"
    by (auto simp: word_upto_def)
  then have r: "FlipWeightsRow (KH, KW, I, O') [] y (word_upto KW) [] = Some []" for y
    by (rule FlipWeightsRow_empty)
  show ?thesis
    by (induction ys) (simp_all add: r)
qed

lemma block_cover:
  fixes KH KW :: u32
  assumes "b < unat KH * unat KW"
  shows "\<exists>y x. y < KH \<and> x < KW \<and> flipped_block KH KW y x = b"
proof -
  let ?H = "unat KH" and ?W = "unat KW"
  let ?b' = "?H * ?W - 1 - b"
  have Wpos: "0 < ?W" using assms by (cases "?W = 0") simp_all
  have b': "?b' < ?H * ?W" using assms by linarith
  let ?uy = "?b' div ?W" and ?ux = "?b' mod ?W"
  have uy: "?uy < ?H" using b' Wpos by (simp add: less_mult_imp_div_less)
  have ux: "?ux < ?W" using Wpos by simp
  have H32: "?H < 2 ^ 32" and W32: "?W < 2 ^ 32"
    using unsigned_less [of KH] unsigned_less [of KW] by simp_all
  define y :: u32 where "y = of_nat ?uy"
  define x :: u32 where "x = of_nat ?ux"
  have yy: "unat y = ?uy" unfolding y_def using uy H32 by (simp add: unat_of_nat)
  have xx: "unat x = ?ux" unfolding x_def using ux W32 by (simp add: unat_of_nat)
  have "y < KH" using yy uy by (simp add: word_less_nat_alt)
  moreover have "x < KW" using xx ux by (simp add: word_less_nat_alt)
  moreover have "flipped_block KH KW y x = b"
  proof -
    have "flipped_block KH KW y x + (?uy * ?W + ?ux) = ?H * ?W - 1"
      unfolding flipped_block_def yy xx using block_sum [OF uy ux] by simp
    moreover have "?uy * ?W + ?ux = ?b'" by simp
    ultimately show ?thesis using assms by linarith
  qed
  ultimately show ?thesis by blast
qed

lemma FlipWeights_nth:
  fixes KH KW I O' :: u32
  assumes lo: "length w = unat KH * unat KW * (unat I * unat O')"
    and fit: "unat KH * unat KW * (unat I * unat O') < 2 ^ 32"
  shows "\<exists>f. FlipWeights (KH, KW, I, O') w = Some f \<and> length f = length w
           \<and> (\<forall>j < length w. f ! j = w ! mirror (unat KH * unat KW) (unat I * unat O') j)"
proof (cases "length w = 0")
  case True
  then have w: "w = []" by simp
  from True lo have "unat KH = 0 \<or> unat KW = 0 \<or> unat I * unat O' = 0" by auto
  then have "word_upto KH = [] \<or> unat KW = 0 \<or> unat I * unat O' = 0"
    by (auto simp: word_upto_def)
  then have "FlipWeightsRows (KH, KW, I, O') [] (word_upto KH) [] = Some []"
    by (rule FlipWeightsRows_empty)
  then show ?thesis by (simp add: FlipWeights_def w)
next
  case False
  let ?n = "unat I * unat O'" and ?N = "unat KH * unat KW"
  from False lo have Npos: "0 < ?N" and npos: "0 < ?n" by auto
  have "?n \<le> ?N * ?n" using Npos by simp
  then have nfit: "?n < 2 ^ 32" using fit by linarith
  have ys: "\<forall>y\<in>set (word_upto KH). y < KH" by (simp add: set_word_upto)
  have lf: "length (replicate (length w) (0::u8)) = length w" by simp
  from FlipWeightsRows_nth [OF npos nfit ys lo lf]
  obtain out where r: "FlipWeightsRows (KH, KW, I, O') w (word_upto KH) (replicate (length w) 0) = Some out"
    and l: "length out = length w"
    and n: "\<forall>j < length w. out ! j =
                (if \<exists>y. y < KH \<and> (\<exists>x. x < KW \<and> j div ?n = flipped_block KH KW y x)
                 then w ! mirror ?N ?n j else replicate (length w) 0 ! j)"
    by (auto simp: set_word_upto Bex_def)
  have "out ! j = w ! mirror ?N ?n j" if j: "j < length w" for j
  proof -
    have "j div ?n < ?N" using j lo npos by (simp add: less_mult_imp_div_less mult.commute)
    from block_cover [OF this] obtain y x where "y < KH" "x < KW" "flipped_block KH KW y x = j div ?n"
      by blast
    then have "\<exists>y. y < KH \<and> (\<exists>x. x < KW \<and> j div ?n = flipped_block KH KW y x)" by metis
    then show ?thesis using n j by simp
  qed
  then show ?thesis using r l by (simp add: FlipWeights_def)
qed

lemma mirror_lt:
  assumes "j < N * n"
  shows "mirror N n j < N * n"
proof -
  have npos: "0 < n" using assms by (cases "n = 0") simp_all
  have "j div n < N" using assms npos by (simp add: less_mult_imp_div_less mult.commute)
  then have "Suc (N - 1 - j div n) \<le> N" by linarith
  then have "Suc (N - 1 - j div n) * n \<le> N * n" by (intro mult_le_mono1)
  moreover have "j mod n < n" using npos by simp
  ultimately show ?thesis unfolding mirror_def by simp
qed

lemma mirror_mirror:
  assumes "j < N * n"
  shows "mirror N n (mirror N n j) = j"
proof -
  have npos: "0 < n" using assms by (cases "n = 0") simp_all
  have b: "j div n < N" using assms npos by (simp add: less_mult_imp_div_less mult.commute)
  have r: "j mod n < n" using npos by simp
  have d: "mirror N n j div n = N - 1 - j div n"
    unfolding mirror_def using r npos by simp
  have m: "mirror N n j mod n = j mod n"
    unfolding mirror_def using r by simp
  have "N - 1 - (N - 1 - j div n) = j div n" using b by linarith
  then show ?thesis
    unfolding mirror_def [of N n "mirror N n j"] d m by simp
qed

lemma GetElementRef_decomp:
  fixes KH KW I O' a b i o' :: u32
  assumes "i < I" "o' < O'"
  shows "GetElementRef (KH, KW, I, O') a b i o'
           = (unat a * unat KW + unat b) * (unat I * unat O') + (unat i * unat O' + unat o')"
    and "unat i * unat O' + unat o' < unat I * unat O'"
proof -
  show "GetElementRef (KH, KW, I, O') a b i o'
           = (unat a * unat KW + unat b) * (unat I * unat O') + (unat i * unat O' + unat o')"
    by (simp add: GetElementRef_def add_mult_distrib mult.assoc)
  have "unat i < unat I" "unat o' < unat O'" using assms by (simp_all add: word_less_nat_alt)
  then show "unat i * unat O' + unat o' < unat I * unat O'" by (rule block_lt)
qed

lemma FlipWeights_Some:
  assumes "WeightsWellFormed weightsShape weightsData"
  shows "\<exists>flipped. FlipWeights weightsShape weightsData = Some flipped"
proof -
  obtain KH KW I O' where s: "weightsShape = (KH, KW, I, O')" by (cases weightsShape)
  from assms have "length weightsData = unat KH * unat KW * (unat I * unat O')"
    and "unat KH * unat KW * (unat I * unat O') < 2 ^ 32"
    by (simp_all add: WeightsWellFormed_def s)
  from FlipWeights_nth [OF this] show ?thesis unfolding s by blast
qed

text \<open>
  Claim C8. For a weights tensor of shape \<open>(KH, KW, I, O)\<close> (one byte for each element, the
  number of elements being a \<open>uint32_t\<close>), the rotation of the transpose convolution builder
  returns a buffer \<open>flipped\<close> of the same size with
  \<open>flipped[KH - 1 - y, KW - 1 - x, i, o] = original[y, x, i, o]\<close> for every position, and
  rotating \<open>flipped\<close> again gives the original weights back, byte for byte.
\<close>

theorem FlipWeights_rotation:
  fixes KH KW I O' :: u32
  assumes wf: "WeightsWellFormed (KH, KW, I, O') weightsData"
  shows "\<exists>flipped. FlipWeights (KH, KW, I, O') weightsData = Some flipped
          \<and> length flipped = length weightsData
          \<and> (\<forall>y x i o'. y < KH \<and> x < KW \<and> i < I \<and> o' < O' \<longrightarrow>
                flipped ! GetElementRef (KH, KW, I, O') (KH - 1 - y) (KW - 1 - x) i o'
                  = weightsData ! GetElementRef (KH, KW, I, O') y x i o')
          \<and> FlipWeights (KH, KW, I, O') flipped = Some weightsData"
proof -
  let ?n = "unat I * unat O'" and ?N = "unat KH * unat KW"
  from wf have lo: "length weightsData = ?N * ?n" and fit: "?N * ?n < 2 ^ 32"
    by (simp_all add: WeightsWellFormed_def)
  from FlipWeights_nth [OF lo fit]
  obtain f where f: "FlipWeights (KH, KW, I, O') weightsData = Some f"
    and lf: "length f = length weightsData"
    and nf: "\<forall>j < length weightsData. f ! j = weightsData ! mirror ?N ?n j"
    by blast
  have lf': "length f = ?N * ?n" using lf lo by simp
  from FlipWeights_nth [OF lf' fit]
  obtain f2 where f2: "FlipWeights (KH, KW, I, O') f = Some f2"
    and lf2: "length f2 = length f"
    and nf2: "\<forall>j < length f. f2 ! j = f ! mirror ?N ?n j"
    by blast
  have "f2 = weightsData"
  proof (rule nth_equalityI)
    show "length f2 = length weightsData" using lf lf2 by simp
  next
    fix j assume "j < length f2"
    then have j: "j < ?N * ?n" using lf2 lf' by simp
    have mj: "mirror ?N ?n j < ?N * ?n" using j by (rule mirror_lt)
    have "f2 ! j = f ! mirror ?N ?n j" using nf2 j lf' by simp
    also have "\<dots> = weightsData ! mirror ?N ?n (mirror ?N ?n j)" using nf mj lo by simp
    also have "\<dots> = weightsData ! j" using mirror_mirror [OF j] by simp
    finally show "f2 ! j = weightsData ! j" .
  qed
  moreover have "f ! GetElementRef (KH, KW, I, O') (KH - 1 - y) (KW - 1 - x) i o'
                  = weightsData ! GetElementRef (KH, KW, I, O') y x i o'"
    if b: "y < KH \<and> x < KW \<and> i < I \<and> o' < O'" for y x i o'
  proof -
    from b have y: "y < KH" and x: "x < KW" and i: "i < I" and o': "o' < O'" by simp_all
    let ?r = "unat i * unat O' + unat o'"
    let ?bs = "unat y * unat KW + unat x" and ?bd = "flipped_block KH KW y x"
    have uy: "unat y < unat KH" and ux: "unat x < unat KW"
      using y x by (simp_all add: word_less_nat_alt)
    have r: "?r < ?n" by (rule GetElementRef_decomp(2) [OF i o'])
    have npos: "0 < ?n" using r by linarith
    have src: "GetElementRef (KH, KW, I, O') y x i o' = ?bs * ?n + ?r"
      by (rule GetElementRef_decomp(1) [OF i o'])
    have dst: "GetElementRef (KH, KW, I, O') (KH - 1 - y) (KW - 1 - x) i o' = ?bd * ?n + ?r"
      unfolding GetElementRef_decomp(1) [OF i o'] flipped_block_def
        unat_flip_index [OF y] unat_flip_index [OF x] by simp
    have sum: "?bd + ?bs = ?N - 1"
      unfolding flipped_block_def using block_sum [OF uy ux] by simp
    have Npos: "0 < ?N" using uy ux by simp
    have bd_lt: "?bd < ?N" using sum Npos by linarith
    have "Suc ?bd * ?n \<le> ?N * ?n" using bd_lt by (intro mult_le_mono1) simp
    then have j: "?bd * ?n + ?r < ?N * ?n" using r by simp
    have d: "(?bd * ?n + ?r) div ?n = ?bd" using r npos by simp
    have m: "(?bd * ?n + ?r) mod ?n = ?r" using r by simp
    have "mirror ?N ?n (?bd * ?n + ?r) = (?N - 1 - ?bd) * ?n + ?r"
      unfolding mirror_def d m ..
    also have "?N - 1 - ?bd = ?bs" using sum by linarith
    finally have mir: "mirror ?N ?n (?bd * ?n + ?r) = ?bs * ?n + ?r" .
    have "f ! (?bd * ?n + ?r) = weightsData ! mirror ?N ?n (?bd * ?n + ?r)"
      using nf j lo by simp
    then show ?thesis unfolding src dst mir .
  qed
  ultimately show ?thesis using f lf f2 by blast
qed

theorem FlipWeights_rotation_witness:
  "\<exists>flipped. FlipWeights (2, 2, 1, 2) [1, 2, 3, 4, 5, 6, 7, 8] = Some flipped
     \<and> length flipped = 8
     \<and> flipped ! GetElementRef (2, 2, 1, 2) 1 1 0 1 = [1, 2, 3, 4, 5, 6, 7, 8 :: u8] ! GetElementRef (2, 2, 1, 2) 0 0 0 1
     \<and> FlipWeights (2, 2, 1, 2) flipped = Some [1, 2, 3, 4, 5, 6, 7, 8]"
proof -
  have wf: "WeightsWellFormed (2, 2, 1, 2) [1, 2, 3, 4, 5, 6, 7, 8]"
    by (simp add: WeightsWellFormed_def)
  from FlipWeights_rotation [OF wf] obtain flipped where
    f: "FlipWeights (2, 2, 1, 2) [1, 2, 3, 4, 5, 6, 7, 8] = Some flipped"
    and l: "length flipped = length [1, 2, 3, 4, 5, 6, 7, 8 :: u8]"
    and n: "\<forall>y x i o'. y < 2 \<and> x < 2 \<and> i < 1 \<and> o' < 2 \<longrightarrow>
                flipped ! GetElementRef (2, 2, 1, 2) (2 - 1 - y) (2 - 1 - x) i o'
                  = [1, 2, 3, 4, 5, 6, 7, 8] ! GetElementRef (2, 2, 1, 2) y x i o'"
    and b: "FlipWeights (2, 2, 1, 2) flipped = Some [1, 2, 3, 4, 5, 6, 7, 8]"
    by blast
  from n have "(0::u32) < 2 \<and> (0::u32) < 2 \<and> (0::u32) < 1 \<and> (1::u32) < 2 \<longrightarrow>
       flipped ! GetElementRef (2, 2, 1, 2) (2 - 1 - 0) (2 - 1 - 0) 0 1
                  = [1, 2, 3, 4, 5, 6, 7, 8] ! GetElementRef (2, 2, 1, 2) 0 0 0 1"
    by blast
  then have "flipped ! GetElementRef (2, 2, 1, 2) 1 1 0 1
                  = [1, 2, 3, 4, 5, 6, 7, 8] ! GetElementRef (2, 2, 1, 2) 0 0 0 1"
    by simp
  with f l b show ?thesis by simp
qed

section \<open>Properties of the transpose convolution builder\<close>

text \<open>
  Claim C1. For a square stride and well-formed weights (which the support check grants for a
  supported transpose convolution, and which the depth-to-space lowering provides by
  construction), the builder returns a chain whose last node is a new
  \<open>MceOperation(CONVOLUTION)\<close> node with stride \<open>(1, 1)\<close>, with the stride as its upscale factor
  when no large-kernel split occurs, with top padding \<open>KH - 1 - pad.top\<close> and left padding
  \<open>KW - 1 - pad.left\<close> (computed on \<open>uint32_t\<close>; they are these numbers whenever the user
  padding is below the kernel size), and with the declared output shape and quantization of
  the transpose convolution.
\<close>

theorem CreateTransposeConv_convolution_node:
  assumes sq: "m_X stride = m_Y stride"
    and wf: "WeightsWellFormed (m_Dimensions weightsInfo) weightsData"
  shows "\<exists>graph' nodes d.
      CreateTransposeConv graph stride weightsInfo weightsData biasInfo biasData padding inputInfo
        outputInfo sourceOperationId = Inr (graph', nodes)
      \<and> nodes \<noteq> []
      \<and> length (GetNodes graph) \<le> last nodes \<and> last nodes < length (GetNodes graph')
      \<and> NodeKind (GetNodes graph' ! last nodes) = MceOperationNode d
      \<and> mce_Operation d = CONVOLUTION
      \<and> mce_Stride d = \<lparr>m_X = 1, m_Y = 1\<rparr>
      \<and> (\<not> (7 < dim (m_Dimensions weightsInfo) 0 \<or> 7 < dim (m_Dimensions weightsInfo) 1)
            \<longrightarrow> mce_UpscaleFactor d = m_X stride)
      \<and> mce_PadTop d = dim (m_Dimensions weightsInfo) 0 - 1 - m_Top padding
      \<and> mce_PadLeft d = dim (m_Dimensions weightsInfo) 1 - 1 - m_Left padding
      \<and> (m_Top padding < dim (m_Dimensions weightsInfo) 0 \<longrightarrow>
            unat (mce_PadTop d) = unat (dim (m_Dimensions weightsInfo) 0) - 1 - unat (m_Top padding))
      \<and> (m_Left padding < dim (m_Dimensions weightsInfo) 1 \<longrightarrow>
            unat (mce_PadLeft d) = unat (dim (m_Dimensions weightsInfo) 1) - 1 - unat (m_Left padding))
      \<and> NodeShape (GetNodes graph' ! last nodes) = m_Dimensions outputInfo
      \<and> NodeQuantizationInfo (GetNodes graph' ! last nodes) = m_QuantizationInfo outputInfo"
proof -
  from FlipWeights_Some [OF wf] obtain flipped
    where f: "FlipWeights (m_Dimensions weightsInfo) weightsData = Some flipped" by blast
  show ?thesis
  proof (cases "7 < dim (m_Dimensions weightsInfo) 0 \<or> 7 < dim (m_Dimensions weightsInfo) 1")
    case True
    then show ?thesis
      using sq f
      by (simp add: CreateTransposeConv_def Let_def CreateAndAddNode_def MakeMceOperationNode_def
          nth_append unat_flip_index)
  next
    case False
    then show ?thesis
      using sq f
      by (simp add: CreateTransposeConv_def Let_def CreateAndAddNode_def MakeMceOperationNode_def
          nth_append unat_flip_index)
  qed
qed

theorem CreateTransposeConv_convolution_node_witness:
  "\<exists>graph' nodes d.
      CreateTransposeConv EmptyGraph \<lparr>m_X = 2, m_Y = 2\<rparr>
        \<lparr>m_Dimensions = (2, 2, 1, 2), m_DataType = UINT8_QUANTIZED, m_DataFormat = HWIO,
         m_QuantizationInfo = \<lparr>m_ZeroPoint = 0, m_Scale = 0.5\<rparr>\<rparr>
        [1, 2, 3, 4, 5, 6, 7, 8]
        \<lparr>m_Dimensions = (1, 1, 1, 2), m_DataType = INT32_QUANTIZED, m_DataFormat = NHWC,
         m_QuantizationInfo = \<lparr>m_ZeroPoint = 0, m_Scale = 0.5\<rparr>\<rparr>
        [0, 0]
        \<lparr>m_Top = 0, m_Bottom = 0, m_Left = 1, m_Right = 0\<rparr>
        \<lparr>m_Dimensions = (1, 4, 4, 1), m_DataType = UINT8_QUANTIZED, m_DataFormat = NHWC,
         m_QuantizationInfo = \<lparr>m_ZeroPoint = 0, m_Scale = 1\<rparr>\<rparr>
        \<lparr>m_Dimensions = (1, 8, 7, 2), m_DataType = UINT8_QUANTIZED, m_DataFormat = NHWC,
         m_QuantizationInfo = \<lparr>m_ZeroPoint = 3, m_Scale = 2\<rparr>\<rparr>
        5 = Inr (graph', nodes)
      \<and> nodes \<noteq> []
      \<and> NodeKind (GetNodes graph' ! last nodes) = MceOperationNode d
      \<and> mce_Operation d = CONVOLUTION
      \<and> mce_Stride d = \<lparr>m_X = 1, m_Y = 1\<rparr>
      \<and> mce_UpscaleFactor d = 2
      \<and> mce_PadTop d = 1 \<and> mce_PadLeft d = 0
      \<and> unat (mce_PadTop d) = 1 \<and> unat (mce_PadLeft d) = 0
      \<and> NodeShape (GetNodes graph' ! last nodes) = (1, 8, 7, 2)
      \<and> NodeQuantizationInfo (GetNodes graph' ! last nodes) = \<lparr>m_ZeroPoint = 3, m_Scale = 2\<rparr>"
  using CreateTransposeConv_convolution_node
    [where stride = "\<lparr>m_X = 2, m_Y = 2\<rparr>"
       and weightsInfo = "\<lparr>m_Dimensions = (2, 2, 1, 2), m_DataType = UINT8_QUANTIZED,
         m_DataFormat = HWIO, m_QuantizationInfo = \<lparr>m_ZeroPoint = 0, m_Scale = 0.5\<rparr>\<rparr>"
       and weightsData = "[1, 2, 3, 4, 5, 6, 7, 8]" and graph = EmptyGraph
       and biasInfo = "\<lparr>m_Dimensions = (1, 1, 1, 2), m_DataType = INT32_QUANTIZED,
         m_DataFormat = NHWC, m_QuantizationInfo = \<lparr>m_ZeroPoint = 0, m_Scale = 0.5\<rparr>\<rparr>"
       and biasData = "[0, 0]"
       and padding = "\<lparr>m_Top = 0, m_Bottom = 0, m_Left = 1, m_Right = 0\<rparr>"
       and inputInfo = "\<lparr>m_Dimensions = (1, 4, 4, 1), m_DataType = UINT8_QUANTIZED,
         m_DataFormat = NHWC, m_QuantizationInfo = \<lparr>m_ZeroPoint = 0, m_Scale = 1\<rparr>\<rparr>"
       and outputInfo = "\<lparr>m_Dimensions = (1, 8, 7, 2), m_DataType = UINT8_QUANTIZED,
         m_DataFormat = NHWC, m_QuantizationInfo = \<lparr>m_ZeroPoint = 3, m_Scale = 2\<rparr>\<rparr>"
       and sourceOperationId = 5]
  by (fastforce simp: WeightsWellFormed_def EmptyGraph_def)

text \<open>
  Claim C2. Under the same preconditions the chain has two nodes if and only if \<open>KH > 7\<close> or
  \<open>KW > 7\<close>. In that case the first node is a \<open>MceOperation(DEPTHWISE_CONVOLUTION)\<close> with
  weights of shape \<open>(1, 1, C, 1)\<close> all equal to 2, weight scale \<open>0.5\<close>, an all-zero bias with
  bias scale \<open>0.5 * input_scale\<close>, the stride as upscale factor, zero top and left padding
  and the output shape \<open>(N, H * upscale, W * upscale, C)\<close>; the second is the convolution,
  with upscale factor 1 and that shape as its input shape. Otherwise the chain is the
  convolution alone, with the stride as its upscale factor.
\<close>

theorem CreateTransposeConv_large_kernel_split:
  assumes sq: "m_X stride = m_Y stride"
    and wf: "WeightsWellFormed (m_Dimensions weightsInfo) weightsData"
  shows "\<exists>graph' nodes.
      CreateTransposeConv graph stride weightsInfo weightsData biasInfo biasData padding inputInfo
        outputInfo sourceOperationId = Inr (graph', nodes)
      \<and> ((7 < dim (m_Dimensions weightsInfo) 0 \<or> 7 < dim (m_Dimensions weightsInfo) 1)
            \<longleftrightarrow> length nodes = 2)
      \<and> ((7 < dim (m_Dimensions weightsInfo) 0 \<or> 7 < dim (m_Dimensions weightsInfo) 1) \<longrightarrow>
           (\<exists>dw conv.
              NodeKind (GetNodes graph' ! (nodes ! 0)) = MceOperationNode dw
            \<and> mce_Operation dw = DEPTHWISE_CONVOLUTION
            \<and> m_Dimensions (mce_WeightsInfo dw) = (1, 1, dim (m_Dimensions inputInfo) 3, 1)
            \<and> mce_WeightsData dw = replicate (unat (dim (m_Dimensions inputInfo) 3)) 2
            \<and> m_Scale (m_QuantizationInfo (mce_WeightsInfo dw)) = 0.5
            \<and> mce_BiasData dw = replicate (unat (dim (m_Dimensions inputInfo) 3)) 0
            \<and> m_Scale (m_QuantizationInfo (mce_BiasInfo dw))
                = 0.5 * m_Scale (m_QuantizationInfo inputInfo)
            \<and> mce_UpscaleFactor dw = m_X stride
            \<and> mce_PadTop dw = 0 \<and> mce_PadLeft dw = 0
            \<and> NodeShape (GetNodes graph' ! (nodes ! 0))
                = (dim (m_Dimensions inputInfo) 0, dim (m_Dimensions inputInfo) 1 * m_X stride,
                   dim (m_Dimensions inputInfo) 2 * m_X stride, dim (m_Dimensions inputInfo) 3)
            \<and> NodeKind (GetNodes graph' ! (nodes ! 1)) = MceOperationNode conv
            \<and> mce_Operation conv = CONVOLUTION
            \<and> mce_UpscaleFactor conv = 1
            \<and> mce_InputShape conv = NodeShape (GetNodes graph' ! (nodes ! 0))))
      \<and> (\<not> (7 < dim (m_Dimensions weightsInfo) 0 \<or> 7 < dim (m_Dimensions weightsInfo) 1) \<longrightarrow>
           (\<exists>conv.
              length nodes = 1
            \<and> NodeKind (GetNodes graph' ! (nodes ! 0)) = MceOperationNode conv
            \<and> mce_Operation conv = CONVOLUTION
            \<and> mce_UpscaleFactor conv = m_X stride))"
proof -
  from FlipWeights_Some [OF wf] obtain flipped
    where f: "FlipWeights (m_Dimensions weightsInfo) weightsData = Some flipped" by blast
  show ?thesis
  proof (cases "7 < dim (m_Dimensions weightsInfo) 0 \<or> 7 < dim (m_Dimensions weightsInfo) 1")
    case True
    then show ?thesis
      using sq f
      by (simp add: CreateTransposeConv_def Let_def CreateAndAddNode_def MakeMceOperationNode_def
          nth_append)
  next
    case False
    then show ?thesis
      using sq f
      by (simp add: CreateTransposeConv_def Let_def CreateAndAddNode_def MakeMceOperationNode_def
          nth_append)
  qed
qed

theorem CreateTransposeConv_large_kernel_split_witness:
  "(\<exists>graph' nodes dw conv.
      CreateTransposeConv EmptyGraph \<lparr>m_X = 2, m_Y = 2\<rparr>
        \<lparr>m_Dimensions = (8, 1, 1, 1), m_DataType = UINT8_QUANTIZED, m_DataFormat = HWIO,
         m_QuantizationInfo = \<lparr>m_ZeroPoint = 0, m_Scale = 1\<rparr>\<rparr>
        [1, 2, 3, 4, 5, 6, 7, 8]
        \<lparr>m_Dimensions = (1, 1, 1, 1), m_DataType = INT32_QUANTIZED, m_DataFormat = NHWC,
         m_QuantizationInfo = \<lparr>m_ZeroPoint = 0, m_Scale = 1\<rparr>\<rparr>
        [0]
        \<lparr>m_Top = 0, m_Bottom = 0, m_Left = 0, m_Right = 0\<rparr>
        \<lparr>m_Dimensions = (1, 4, 4, 1), m_DataType = UINT8_QUANTIZED, m_DataFormat = NHWC,
         m_QuantizationInfo = \<lparr>m_ZeroPoint = 0, m_Scale = 3\<rparr>\<rparr>
        \<lparr>m_Dimensions = (1, 15, 8, 1), m_DataType = UINT8_QUANTIZED, m_DataFormat = NHWC,
         m_QuantizationInfo = \<lparr>m_ZeroPoint = 0, m_Scale = 2\<rparr>\<rparr>
        5 = Inr (graph', nodes)
      \<and> length nodes = 2
      \<and> NodeKind (GetNodes graph' ! (nodes ! 0)) = MceOperationNode dw
      \<and> mce_Operation dw = DEPTHWISE_CONVOLUTION
      \<and> m_Dimensions (mce_WeightsInfo dw) = (1, 1, 1, 1)
      \<and> mce_WeightsData dw = [2]
      \<and> m_Scale (m_QuantizationInfo (mce_WeightsInfo dw)) = 0.5
      \<and> mce_BiasData dw = [0]
      \<and> m_Scale (m_QuantizationInfo (mce_BiasInfo dw)) = 1.5
      \<and> mce_UpscaleFactor dw = 2
      \<and> mce_PadTop dw = 0 \<and> mce_PadLeft dw = 0
      \<and> NodeShape (GetNodes graph' ! (nodes ! 0)) = (1, 8, 8, 1)
      \<and> NodeKind (GetNodes graph' ! (nodes ! 1)) = MceOperationNode conv
      \<and> mce_Operation conv = CONVOLUTION
      \<and> mce_UpscaleFactor conv = 1
      \<and> mce_InputShape conv = (1, 8, 8, 1))
   \<and> (\<exists>graph' nodes conv.
      CreateTransposeConv EmptyGraph \<lparr>m_X = 2, m_Y = 2\<rparr>
        \<lparr>m_Dimensions = (7, 1, 1, 1), m_DataType = UINT8_QUANTIZED, m_DataFormat = HWIO,
         m_QuantizationInfo = \<lparr>m_ZeroPoint = 0, m_Scale = 1\<rparr>\<rparr>
        [1, 2, 3, 4, 5, 6, 7]
        \<lparr>m_Dimensions = (1, 1, 1, 1), m_DataType = INT32_QUANTIZED, m_DataFormat = NHWC,
         m_QuantizationInfo = \<lparr>m_ZeroPoint = 0, m_Scale = 1\<rparr>\<rparr>
        [0]
        \<lparr>m_Top = 0, m_Bottom = 0, m_Left = 0, m_Right = 0\<rparr>
        \<lparr>m_Dimensions = (1, 4, 4, 1), m_DataType = UINT8_QUANTIZED, m_DataFormat = NHWC,
         m_QuantizationInfo = \<lparr>m_ZeroPoint = 0, m_Scale = 3\<rparr>\<rparr>
        \<lparr>m_Dimensions = (1, 14, 8, 1), m_DataType = UINT8_QUANTIZED, m_DataFormat = NHWC,
         m_QuantizationInfo = \<lparr>m_ZeroPoint = 0, m_Scale = 2\<rparr>\<rparr>
        5 = Inr (graph', nodes)
      \<and> length nodes = 1
      \<and> NodeKind (GetNodes graph' ! (nodes ! 0)) = MceOperationNode conv
      \<and> mce_Operation conv = CONVOLUTION
      \<and> mce_UpscaleFactor conv = 2)"
proof -
  have large: "\<exists>graph' nodes dw conv.
      CreateTransposeConv EmptyGraph \<lparr>m_X = 2, m_Y = 2\<rparr>
        \<lparr>m_Dimensions = (8, 1, 1, 1), m_DataType = UINT8_QUANTIZED, m_DataFormat = HWIO,
         m_QuantizationInfo = \<lparr>m_ZeroPoint = 0, m_Scale = 1\<rparr>\<rparr>
        [1, 2, 3, 4, 5, 6, 7, 8]
        \<lparr>m_Dimensions = (1, 1, 1, 1), m_DataType = INT32_QUANTIZED, m_DataFormat = NHWC,
         m_QuantizationInfo = \<lparr>m_ZeroPoint = 0, m_Scale = 1\<rparr>\<rparr>
        [0]
        \<lparr>m_Top = 0, m_Bottom = 0, m_Left = 0, m_Right = 0\<rparr>
        \<lparr>m_Dimensions = (1, 4, 4, 1), m_DataType = UINT8_QUANTIZED, m_DataFormat = NHWC,
         m_QuantizationInfo = \<lparr>m_ZeroPoint = 0, m_Scale = 3\<rparr>\<rparr>
        \<lparr>m_Dimensions = (1, 15, 8, 1), m_DataType = UINT8_QUANTIZED, m_DataFormat = NHWC,
         m_QuantizationInfo = \<lparr>m_ZeroPoint = 0, m_Scale = 2\<rparr>\<rparr>
        5 = Inr (graph', nodes)
      \<and> length nodes = 2
      \<and> NodeKind (GetNodes graph' ! (nodes ! 0)) = MceOperationNode dw
      \<and> mce_Operation dw = DEPTHWISE_CONVOLUTION
      \<and> m_Dimensions (mce_WeightsInfo dw) = (1, 1, 1, 1)
      \<and> mce_WeightsData dw = [2]
      \<and> m_Scale (m_QuantizationInfo (mce_WeightsInfo dw)) = 0.5
      \<and> mce_BiasData dw = [0]
      \<and> m_Scale (m_QuantizationInfo (mce_BiasInfo dw)) = 1.5
      \<and> mce_UpscaleFactor dw = 2
      \<and> mce_PadTop dw = 0 \<and> mce_PadLeft dw = 0
      \<and> NodeShape (GetNodes graph' ! (nodes ! 0)) = (1, 8, 8, 1)
      \<and> NodeKind (GetNodes graph' ! (nodes ! 1)) = MceOperationNode conv
      \<and> mce_Operation conv = CONVOLUTION
      \<and> mce_UpscaleFactor conv = 1
      \<and> mce_InputShape conv = (1, 8, 8, 1)"
    using CreateTransposeConv_large_kernel_split
      [where stride = "\<lparr>m_X = 2, m_Y = 2\<rparr>"
         and weightsInfo = "\<lparr>m_Dimensions = (8, 1, 1, 1), m_DataType = UINT8_QUANTIZED,
           m_DataFormat = HWIO, m_QuantizationInfo = \<lparr>m_ZeroPoint = 0, m_Scale = 1\<rparr>\<rparr>"
         and weightsData = "[1, 2, 3, 4, 5, 6, 7, 8]" and graph = EmptyGraph
         and biasInfo = "\<lparr>m_Dimensions = (1, 1, 1, 1), m_DataType = INT32_QUANTIZED,
           m_DataFormat = NHWC, m_QuantizationInfo = \<lparr>m_ZeroPoint = 0, m_Scale = 1\<rparr>\<rparr>"
         and biasData = "[0]"
         and padding = "\<lparr>m_Top = 0, m_Bottom = 0, m_Left = 0, m_Right = 0\<rparr>"
         and inputInfo = "\<lparr>m_Dimensions = (1, 4, 4, 1), m_DataType = UINT8_QUANTIZED,
           m_DataFormat = NHWC, m_QuantizationInfo = \<lparr>m_ZeroPoint = 0, m_Scale = 3\<rparr>\<rparr>"
         and outputInfo = "\<lparr>m_Dimensions = (1, 15, 8, 1), m_DataType = UINT8_QUANTIZED,
           m_DataFormat = NHWC, m_QuantizationInfo = \<lparr>m_ZeroPoint = 0, m_Scale = 2\<rparr>\<rparr>"
         and sourceOperationId = 5]
    by (fastforce simp: WeightsWellFormed_def)
  have small: "\<exists>graph' nodes conv.
      CreateTransposeConv EmptyGraph \<lparr>m_X = 2, m_Y = 2\<rparr>
        \<lparr>m_Dimensions = (7, 1, 1, 1), m_DataType = UINT8_QUANTIZED, m_DataFormat = HWIO,
         m_QuantizationInfo = \<lparr>m_ZeroPoint = 0, m_Scale = 1\<rparr>\<rparr>
        [1, 2, 3, 4, 5, 6, 7]
        \<lparr>m_Dimensions = (1, 1, 1, 1), m_DataType = INT32_QUANTIZED, m_DataFormat = NHWC,
         m_QuantizationInfo = \<lparr>m_ZeroPoint = 0, m_Scale = 1\<rparr>\<rparr>
        [0]
        \<lparr>m_Top = 0, m_Bottom = 0, m_Left = 0, m_Right = 0\<rparr>
        \<lparr>m_Dimensions = (1, 4, 4, 1), m_DataType = UINT8_QUANTIZED, m_DataFormat = NHWC,
         m_QuantizationInfo = \<lparr>m_ZeroPoint = 0, m_Scale = 3\<rparr>\<rparr>
        \<lparr>m_Dimensions = (1, 14, 8, 1), m_DataType = UINT8_QUANTIZED, m_DataFormat = NHWC,
         m_QuantizationInfo = \<lparr>m_ZeroPoint = 0, m_Scale = 2\<rparr>\<rparr>
        5 = Inr (graph', nodes)
      \<and> length nodes = 1
      \<and> NodeKind (GetNodes graph' ! (nodes ! 0)) = MceOperationNode conv
      \<and> mce_Operation conv = CONVOLUTION
      \<and> mce_UpscaleFactor conv = 2"
    using CreateTransposeConv_large_kernel_split
      [where stride = "\<lparr>m_X = 2, m_Y = 2\<rparr>"
         and weightsInfo = "\<lparr>m_Dimensions = (7, 1, 1, 1), m_DataType = UINT8_QUANTIZED,
           m_DataFormat = HWIO, m_QuantizationInfo = \<lparr>m_ZeroPoint = 0, m_Scale = 1\<rparr>\<rparr>"
         and weightsData = "[1, 2, 3, 4, 5, 6, 7]" and graph = EmptyGraph
         and biasInfo = "\<lparr>m_Dimensions = (1, 1, 1, 1), m_DataType = INT32_QUANTIZED,
           m_DataFormat = NHWC, m_QuantizationInfo = \<lparr>m_ZeroPoint = 0, m_Scale = 1\<rparr>\<rparr>"
         and biasData = "[0]"
         and padding = "\<lparr>m_Top = 0, m_Bottom = 0, m_Left = 0, m_Right = 0\<rparr>"
         and inputInfo = "\<lparr>m_Dimensions = (1, 4, 4, 1), m_DataType = UINT8_QUANTIZED,
           m_DataFormat = NHWC, m_QuantizationInfo = \<lparr>m_ZeroPoint = 0, m_Scale = 3\<rparr>\<rparr>"
         and outputInfo = "\<lparr>m_Dimensions = (1, 14, 8, 1), m_DataType = UINT8_QUANTIZED,
           m_DataFormat = NHWC, m_QuantizationInfo = \<lparr>m_ZeroPoint = 0, m_Scale = 2\<rparr>\<rparr>"
         and sourceOperationId = 5]
    by (fastforce simp: WeightsWellFormed_def)
  from large small show ?thesis by blast
qed

section \<open>Properties of the chain connector\<close>

lemmas example_defs = example_tensor_def example_operand_def example_node_def
  example_converter_def example_pooling_def example_pooling_info_def

lemmas example_defs2 = example_defs example_fully_connected_def example_TotalSizeBytes_def
  example_concatenation_def

lemma Connect_nodes [simp]: "GetNodes (Connect g a b) = GetNodes g"
  by (simp add: Connect_def Let_def)

lemma ConnectChain_nodes [simp]: "GetNodes (ConnectChain g ns) = GetNodes g"
  by (induction g ns rule: ConnectChain.induct) simp_all

lemma ConnectInputs_Inr:
  assumes "\<forall>operand\<in>set operands. m_OperandToNode c (OperandKey operand) \<noteq> None"
  shows "\<exists>c'. ConnectInputs c operands front = Inr c'
           \<and> GetNodes (m_Graph c') = GetNodes (m_Graph c)
           \<and> m_OperandToNode c' = m_OperandToNode c"
  using assms
proof (induction operands arbitrary: c)
  case Nil
  then show ?case by simp
next
  case (Cons operand operands)
  then obtain n where n: "m_OperandToNode c (OperandKey operand) = Some n" by auto
  let ?c1 = "c\<lparr>m_Graph := Connect (m_Graph c) n front\<rparr>"
  have "\<forall>operand\<in>set operands. m_OperandToNode ?c1 (OperandKey operand) \<noteq> None"
    using Cons.prems by simp
  from Cons.IH [OF this] show ?case using n by simp
qed

lemma ConnectNodeChain_Inr:
  assumes "length (GetOutputs operation) = 1" and "nodes \<noteq> []"
    and "\<forall>operand\<in>set (GetInputs operation). m_OperandToNode c (OperandKey operand) \<noteq> None"
  shows "\<exists>c'. ConnectNodeChain c operation nodes = Inr c'
           \<and> GetNodes (m_Graph c') = GetNodes (m_Graph c)
           \<and> m_OperandToNode c' = (m_OperandToNode c)(OperandKey (GetOutput operation 0) \<mapsto> last nodes)"
proof -
  let ?c0 = "c\<lparr>m_Graph := ConnectChain (m_Graph c) nodes\<rparr>"
  have "\<forall>operand\<in>set (GetInputs operation). m_OperandToNode ?c0 (OperandKey operand) \<noteq> None"
    using assms(3) by simp
  from ConnectInputs_Inr [OF this, of "hd nodes"] obtain c1 where
    "ConnectInputs ?c0 (GetInputs operation) (hd nodes) = Inr c1"
    "GetNodes (m_Graph c1) = GetNodes (m_Graph c)"
    "m_OperandToNode c1 = m_OperandToNode c"
    by auto
  then show ?thesis using assms(1,2) by (simp add: ConnectNodeChain_def)
qed

lemma ConnectInputs_no_NotSupported [simp]:
  "ConnectInputs c operands front = Inl (NotSupportedException s, c') \<longleftrightarrow> False"
  by (induction operands arbitrary: c) (auto split: option.splits)

lemma ConnectNodeChain_no_NotSupported [simp]:
  "ConnectNodeChain c operation nodes = Inl (NotSupportedException s, c') \<longleftrightarrow> False"
  by (auto simp: ConnectNodeChain_def split: sum.splits)

lemma ConnectEstimateOnlyNode_no_NotSupported [simp]:
  "ConnectEstimateOnlyNode c operation = Inl (NotSupportedException s, c') \<longleftrightarrow> False"
  by (auto simp: ConnectEstimateOnlyNode_def ConnectNode_def Let_def split: prod.splits)

lemma SharedInputThrows_iff:
  "SharedInputThrows estimationMode inputs \<longleftrightarrow>
     \<not> estimationMode \<and> (\<exists>it\<in>set inputs. 1 < length (GetConsumers it))"
  by (induction inputs) auto

lemma ConnectNode_Inr:
  assumes "length (GetOutputs operation) = 1"
    and "\<forall>operand\<in>set (GetInputs operation). m_OperandToNode c (OperandKey operand) \<noteq> None"
  shows "\<exists>c'. ConnectNode c operation n = Inr c'
           \<and> GetNodes (m_Graph c') = GetNodes (m_Graph c)
           \<and> m_OperandToNode c' = (m_OperandToNode c)(OperandKey (GetOutput operation 0) \<mapsto> n)"
  using ConnectNodeChain_Inr [OF assms(1) _ assms(2), of "[n]"] by (simp add: ConnectNode_def)

lemma add_node_then_connect:
  assumes "length (GetOutputs operation) = 1"
    and "\<forall>operand\<in>set (GetInputs operation). m_OperandToNode c (OperandKey operand) \<noteq> None"
  shows "\<exists>c'. (case CreateAndAddNode (m_Graph c) node of
                 (g, n) \<Rightarrow> ConnectNode (c\<lparr>m_Graph := g\<rparr>) operation n) = Inr c'
           \<and> GetNodes (m_Graph c') = GetNodes (m_Graph c) @ [node]
           \<and> m_OperandToNode c' =
               (m_OperandToNode c)(OperandKey (GetOutput operation 0) \<mapsto> length (GetNodes (m_Graph c)))"
proof -
  let ?g = "fst (CreateAndAddNode (m_Graph c) node)"
  let ?c1 = "c\<lparr>m_Graph := ?g\<rparr>"
  have b: "\<forall>operand\<in>set (GetInputs operation). m_OperandToNode ?c1 (OperandKey operand) \<noteq> None"
    using assms(2) by simp
  from ConnectNode_Inr [OF assms(1) b, of "length (GetNodes (m_Graph c))"]
  show ?thesis by (simp add: CreateAndAddNode_def Let_def)
qed

section \<open>Properties of the pooling rule\<close>

text \<open>
  Claim C5. For a pooling operation that the support oracle calls supported (with its input
  bound to a node and one output), the rule dispatches on the pooling info, in this order:
  a kernel equal to the whole input extent with zero padding and type AVG yields a
  \<open>FuseOnlyPleOperation(MEAN_XY_8X8)\<close> node with shape multiplier \<open>((1, SY), (1, SX), 1)\<close>;
  otherwise \<open>(3, 3, 1, 1, any padding, AVG)\<close> yields a
  \<open>StandalonePleOperation(AVGPOOL_3X3_1_1_UDMA)\<close> node; \<open>(2, 2, 2, 2, any padding, MAX)\<close> yields
  \<open>FuseOnlyPleOperation(MAXPOOL_2X2_2_2)\<close>; \<open>(3, 3, 2, 2, any padding, MAX)\<close> yields
  \<open>FuseOnlyPleOperation(MAXPOOL_3X3_2_2)\<close>; every other info aborts the pass, with the
  converter unchanged. The node yielded is the one node added to the graph, it has the shape
  and quantization of the output and the layout NHWCB, and the output is bound to it.
\<close>

theorem Visit_Pooling_dispatch:
  assumes ins: "GetInputs pooling \<noteq> []" and outs: "length (GetOutputs pooling) = 1"
    and bound: "\<forall>operand\<in>set (GetInputs pooling). m_OperandToNode c (OperandKey operand) \<noteq> None"
    and supported:
      "IsPoolingSupported (GetPoolingInfo pooling) (GetTensorInfo (GetInput pooling 0)) = Supported"
  shows
    "(let info = GetPoolingInfo pooling;
          inputShape = m_Dimensions (GetTensorInfo (GetInput pooling 0));
          outInfo = GetTensorInfo (GetOutput pooling 0);
          mean = (m_PoolingSizeX info = dim inputShape 2 \<and> m_PoolingSizeY info = dim inputShape 1
                  \<and> m_Padding info = \<lparr>m_Top = 0, m_Bottom = 0, m_Left = 0, m_Right = 0\<rparr>
                  \<and> m_PoolingType info = PoolingType_AVG);
          fixed = (\<lambda>k s t. m_PoolingSizeX info = k \<and> m_PoolingSizeY info = k
                  \<and> m_PoolingStrideX info = s \<and> m_PoolingStrideY info = s
                  \<and> m_PoolingType info = t);
          yields = (\<lambda>kind. \<exists>c'. Visit_Pooling IsPoolingSupported c pooling = Inr c'
                  \<and> GetNodes (m_Graph c') = GetNodes (m_Graph c) @
                       [\<lparr>NodeKind = kind, NodeShape = m_Dimensions outInfo,
                         NodeQuantizationInfo = m_QuantizationInfo outInfo, NodeFormat = CNHWCB,
                         NodeOperationIds = {GetId pooling}\<rparr>]
                  \<and> m_OperandToNode c' (OperandKey (GetOutput pooling 0))
                       = Some (length (GetNodes (m_Graph c))))
      in (mean \<longrightarrow> yields (FuseOnlyPleOperationNode MEAN_XY_8X8
                              ((1, m_PoolingStrideY info), (1, m_PoolingStrideX info), 1)))
       \<and> (\<not> mean \<and> fixed 3 1 PoolingType_AVG
            \<longrightarrow> yields (StandalonePleOperationNode AVGPOOL_3X3_1_1_UDMA))
       \<and> (fixed 2 2 PoolingType_MAX
            \<longrightarrow> yields (FuseOnlyPleOperationNode MAXPOOL_2X2_2_2
                              ((1, m_PoolingStrideY info), (1, m_PoolingStrideX info), 1)))
       \<and> (fixed 3 2 PoolingType_MAX
            \<longrightarrow> yields (FuseOnlyPleOperationNode MAXPOOL_3X3_2_2
                              ((1, m_PoolingStrideY info), (1, m_PoolingStrideX info), 1)))
       \<and> (\<not> mean \<and> \<not> fixed 3 1 PoolingType_AVG \<and> \<not> fixed 2 2 PoolingType_MAX
              \<and> \<not> fixed 3 2 PoolingType_MAX
            \<longrightarrow> Visit_Pooling IsPoolingSupported c pooling
                  = Inl (AssertionFailure ''Unsupported'', c)))"
proof -
  obtain sx sy stx sty pad ty where info:
    "GetPoolingInfo pooling = \<lparr>m_PoolingSizeX = sx, m_PoolingSizeY = sy, m_PoolingStrideX = stx,
       m_PoolingStrideY = sty, m_Padding = pad, m_PoolingType = ty\<rparr>"
    by (cases "GetPoolingInfo pooling") auto
  have outs': "GetOutputs pooling \<noteq> []" using outs by auto
  note conn = add_node_then_connect [OF outs bound]
  show ?thesis
    unfolding Let_def
  proof (intro conjI impI)
    assume "m_PoolingSizeX (GetPoolingInfo pooling) = dim (m_Dimensions (GetTensorInfo (GetInput pooling 0))) 2 \<and>
      m_PoolingSizeY (GetPoolingInfo pooling) = dim (m_Dimensions (GetTensorInfo (GetInput pooling 0))) 1 \<and>
      m_Padding (GetPoolingInfo pooling) = \<lparr>m_Top = 0, m_Bottom = 0, m_Left = 0, m_Right = 0\<rparr> \<and>
      m_PoolingType (GetPoolingInfo pooling) = PoolingType_AVG"
    then show "\<exists>c'. Visit_Pooling IsPoolingSupported c pooling = Inr c' \<and>
         GetNodes (m_Graph c') = GetNodes (m_Graph c) @
           [\<lparr>NodeKind = FuseOnlyPleOperationNode MEAN_XY_8X8
               ((1, m_PoolingStrideY (GetPoolingInfo pooling)), (1, m_PoolingStrideX (GetPoolingInfo pooling)), 1),
             NodeShape = m_Dimensions (GetTensorInfo (GetOutput pooling 0)),
             NodeQuantizationInfo = m_QuantizationInfo (GetTensorInfo (GetOutput pooling 0)),
             NodeFormat = CNHWCB, NodeOperationIds = {GetId pooling}\<rparr>] \<and>
         m_OperandToNode c' (OperandKey (GetOutput pooling 0)) = Some (length (GetNodes (m_Graph c)))"
      using ins outs' supported conn [of "createFuseOnlyPleNode pooling MEAN_XY_8X8"]
      by (auto simp: Visit_Pooling_def Let_def info createFuseOnlyPleNode_def)
  next
    assume "\<not> (m_PoolingSizeX (GetPoolingInfo pooling) = dim (m_Dimensions (GetTensorInfo (GetInput pooling 0))) 2 \<and>
      m_PoolingSizeY (GetPoolingInfo pooling) = dim (m_Dimensions (GetTensorInfo (GetInput pooling 0))) 1 \<and>
      m_Padding (GetPoolingInfo pooling) = \<lparr>m_Top = 0, m_Bottom = 0, m_Left = 0, m_Right = 0\<rparr> \<and>
      m_PoolingType (GetPoolingInfo pooling) = PoolingType_AVG) \<and>
      m_PoolingSizeX (GetPoolingInfo pooling) = 3 \<and> m_PoolingSizeY (GetPoolingInfo pooling) = 3 \<and>
      m_PoolingStrideX (GetPoolingInfo pooling) = 1 \<and> m_PoolingStrideY (GetPoolingInfo pooling) = 1 \<and>
      m_PoolingType (GetPoolingInfo pooling) = PoolingType_AVG"
    then show "\<exists>c'. Visit_Pooling IsPoolingSupported c pooling = Inr c' \<and>
         GetNodes (m_Graph c') = GetNodes (m_Graph c) @
           [\<lparr>NodeKind = StandalonePleOperationNode AVGPOOL_3X3_1_1_UDMA,
             NodeShape = m_Dimensions (GetTensorInfo (GetOutput pooling 0)),
             NodeQuantizationInfo = m_QuantizationInfo (GetTensorInfo (GetOutput pooling 0)),
             NodeFormat = CNHWCB, NodeOperationIds = {GetId pooling}\<rparr>] \<and>
         m_OperandToNode c' (OperandKey (GetOutput pooling 0)) = Some (length (GetNodes (m_Graph c)))"
      using ins outs' supported conn [of "createStandalonePleNode pooling AVGPOOL_3X3_1_1_UDMA"]
      by (auto simp: Visit_Pooling_def Let_def info createStandalonePleNode_def)
  next
    assume "m_PoolingSizeX (GetPoolingInfo pooling) = 2 \<and> m_PoolingSizeY (GetPoolingInfo pooling) = 2 \<and>
      m_PoolingStrideX (GetPoolingInfo pooling) = 2 \<and> m_PoolingStrideY (GetPoolingInfo pooling) = 2 \<and>
      m_PoolingType (GetPoolingInfo pooling) = PoolingType_MAX"
    then show "\<exists>c'. Visit_Pooling IsPoolingSupported c pooling = Inr c' \<and>
         GetNodes (m_Graph c') = GetNodes (m_Graph c) @
           [\<lparr>NodeKind = FuseOnlyPleOperationNode MAXPOOL_2X2_2_2
               ((1, m_PoolingStrideY (GetPoolingInfo pooling)), (1, m_PoolingStrideX (GetPoolingInfo pooling)), 1),
             NodeShape = m_Dimensions (GetTensorInfo (GetOutput pooling 0)),
             NodeQuantizationInfo = m_QuantizationInfo (GetTensorInfo (GetOutput pooling 0)),
             NodeFormat = CNHWCB, NodeOperationIds = {GetId pooling}\<rparr>] \<and>
         m_OperandToNode c' (OperandKey (GetOutput pooling 0)) = Some (length (GetNodes (m_Graph c)))"
      using ins outs' supported conn [of "createFuseOnlyPleNode pooling MAXPOOL_2X2_2_2"]
      by (auto simp: Visit_Pooling_def Let_def info createFuseOnlyPleNode_def)
  next
    assume "m_PoolingSizeX (GetPoolingInfo pooling) = 3 \<and> m_PoolingSizeY (GetPoolingInfo pooling) = 3 \<and>
      m_PoolingStrideX (GetPoolingInfo pooling) = 2 \<and> m_PoolingStrideY (GetPoolingInfo pooling) = 2 \<and>
      m_PoolingType (GetPoolingInfo pooling) = PoolingType_MAX"
    then show "\<exists>c'. Visit_Pooling IsPoolingSupported c pooling = Inr c' \<and>
         GetNodes (m_Graph c') = GetNodes (m_Graph c) @
           [\<lparr>NodeKind = FuseOnlyPleOperationNode MAXPOOL_3X3_2_2
               ((1, m_PoolingStrideY (GetPoolingInfo pooling)), (1, m_PoolingStrideX (GetPoolingInfo pooling)), 1),
             NodeShape = m_Dimensions (GetTensorInfo (GetOutput pooling 0)),
             NodeQuantizationInfo = m_QuantizationInfo (GetTensorInfo (GetOutput pooling 0)),
             NodeFormat = CNHWCB, NodeOperationIds = {GetId pooling}\<rparr>] \<and>
         m_OperandToNode c' (OperandKey (GetOutput pooling 0)) = Some (length (GetNodes (m_Graph c)))"
      using ins outs' supported conn [of "createFuseOnlyPleNode pooling MAXPOOL_3X3_2_2"]
      by (auto simp: Visit_Pooling_def Let_def info createFuseOnlyPleNode_def)
  next
    assume "\<not> (m_PoolingSizeX (GetPoolingInfo pooling) = dim (m_Dimensions (GetTensorInfo (GetInput pooling 0))) 2 \<and>
      m_PoolingSizeY (GetPoolingInfo pooling) = dim (m_Dimensions (GetTensorInfo (GetInput pooling 0))) 1 \<and>
      m_Padding (GetPoolingInfo pooling) = \<lparr>m_Top = 0, m_Bottom = 0, m_Left = 0, m_Right = 0\<rparr> \<and>
      m_PoolingType (GetPoolingInfo pooling) = PoolingType_AVG) \<and>
      \<not> (m_PoolingSizeX (GetPoolingInfo pooling) = 3 \<and> m_PoolingSizeY (GetPoolingInfo pooling) = 3 \<and>
      m_PoolingStrideX (GetPoolingInfo pooling) = 1 \<and> m_PoolingStrideY (GetPoolingInfo pooling) = 1 \<and>
      m_PoolingType (GetPoolingInfo pooling) = PoolingType_AVG) \<and>
      \<not> (m_PoolingSizeX (GetPoolingInfo pooling) = 2 \<and> m_PoolingSizeY (GetPoolingInfo pooling) = 2 \<and>
      m_PoolingStrideX (GetPoolingInfo pooling) = 2 \<and> m_PoolingStrideY (GetPoolingInfo pooling) = 2 \<and>
      m_PoolingType (GetPoolingInfo pooling) = PoolingType_MAX) \<and>
      \<not> (m_PoolingSizeX (GetPoolingInfo pooling) = 3 \<and> m_PoolingSizeY (GetPoolingInfo pooling) = 3 \<and>
      m_PoolingStrideX (GetPoolingInfo pooling) = 2 \<and> m_PoolingStrideY (GetPoolingInfo pooling) = 2 \<and>
      m_PoolingType (GetPoolingInfo pooling) = PoolingType_MAX)"
    then show "Visit_Pooling IsPoolingSupported c pooling = Inl (AssertionFailure ''Unsupported'', c)"
      using ins outs' supported
      by (auto simp: Visit_Pooling_def Let_def info)
  qed
qed

theorem Visit_Pooling_dispatch_witness:
  "(\<exists>c'. Visit_Pooling (\<lambda>_ _. Supported) (example_converter False)
            (example_pooling (example_pooling_info 8 1 0 PoolingType_AVG)) = Inr c'
        \<and> NodeKind (GetNodes (m_Graph c') ! 2)
             = FuseOnlyPleOperationNode MEAN_XY_8X8 ((1, 1), (1, 1), 1)
        \<and> m_OperandToNode c' (2, 0) = Some 2)
   \<and> (\<exists>c'. Visit_Pooling (\<lambda>_ _. Supported) (example_converter False)
            (example_pooling (example_pooling_info 3 1 1 PoolingType_AVG)) = Inr c'
        \<and> NodeKind (GetNodes (m_Graph c') ! 2) = StandalonePleOperationNode AVGPOOL_3X3_1_1_UDMA
        \<and> m_OperandToNode c' (2, 0) = Some 2)
   \<and> (\<exists>c'. Visit_Pooling (\<lambda>_ _. Supported) (example_converter False)
            (example_pooling (example_pooling_info 2 2 0 PoolingType_MAX)) = Inr c'
        \<and> NodeKind (GetNodes (m_Graph c') ! 2)
             = FuseOnlyPleOperationNode MAXPOOL_2X2_2_2 ((1, 2), (1, 2), 1)
        \<and> m_OperandToNode c' (2, 0) = Some 2)
   \<and> (\<exists>c'. Visit_Pooling (\<lambda>_ _. Supported) (example_converter False)
            (example_pooling (example_pooling_info 3 2 0 PoolingType_MAX)) = Inr c'
        \<and> NodeKind (GetNodes (m_Graph c') ! 2)
             = FuseOnlyPleOperationNode MAXPOOL_3X3_2_2 ((1, 2), (1, 2), 1)
        \<and> m_OperandToNode c' (2, 0) = Some 2)
   \<and> Visit_Pooling (\<lambda>_ _. Supported) (example_converter False)
            (example_pooling (example_pooling_info 1 1 0 PoolingType_MAX))
        = Inl (AssertionFailure ''Unsupported'', example_converter False)"
proof (intro conjI)
  show "\<exists>c'. Visit_Pooling (\<lambda>_ _. Supported) (example_converter False)
            (example_pooling (example_pooling_info 8 1 0 PoolingType_AVG)) = Inr c'
        \<and> NodeKind (GetNodes (m_Graph c') ! 2)
             = FuseOnlyPleOperationNode MEAN_XY_8X8 ((1, 1), (1, 1), 1)
        \<and> m_OperandToNode c' (2, 0) = Some 2"
    using Visit_Pooling_dispatch [where IsPoolingSupported = "\<lambda>_ _. Supported"
        and c = "example_converter False"
        and pooling = "example_pooling (example_pooling_info 8 1 0 PoolingType_AVG)"]
    by (fastforce simp: example_defs Let_def GetInput_def GetOutput_def OperandKey_def)
  show "\<exists>c'. Visit_Pooling (\<lambda>_ _. Supported) (example_converter False)
            (example_pooling (example_pooling_info 3 1 1 PoolingType_AVG)) = Inr c'
        \<and> NodeKind (GetNodes (m_Graph c') ! 2) = StandalonePleOperationNode AVGPOOL_3X3_1_1_UDMA
        \<and> m_OperandToNode c' (2, 0) = Some 2"
    using Visit_Pooling_dispatch [where IsPoolingSupported = "\<lambda>_ _. Supported"
        and c = "example_converter False"
        and pooling = "example_pooling (example_pooling_info 3 1 1 PoolingType_AVG)"]
    by (fastforce simp: example_defs Let_def GetInput_def GetOutput_def OperandKey_def)
  show "\<exists>c'. Visit_Pooling (\<lambda>_ _. Supported) (example_converter False)
            (example_pooling (example_pooling_info 2 2 0 PoolingType_MAX)) = Inr c'
        \<and> NodeKind (GetNodes (m_Graph c') ! 2)
             = FuseOnlyPleOperationNode MAXPOOL_2X2_2_2 ((1, 2), (1, 2), 1)
        \<and> m_OperandToNode c' (2, 0) = Some 2"
    using Visit_Pooling_dispatch [where IsPoolingSupported = "\<lambda>_ _. Supported"
        and c = "example_converter False"
        and pooling = "example_pooling (example_pooling_info 2 2 0 PoolingType_MAX)"]
    by (fastforce simp: example_defs Let_def GetInput_def GetOutput_def OperandKey_def)
  show "\<exists>c'. Visit_Pooling (\<lambda>_ _. Supported) (example_converter False)
            (example_pooling (example_pooling_info 3 2 0 PoolingType_MAX)) = Inr c'
        \<and> NodeKind (GetNodes (m_Graph c') ! 2)
             = FuseOnlyPleOperationNode MAXPOOL_3X3_2_2 ((1, 2), (1, 2), 1)
        \<and> m_OperandToNode c' (2, 0) = Some 2"
    using Visit_Pooling_dispatch [where IsPoolingSupported = "\<lambda>_ _. Supported"
        and c = "example_converter False"
        and pooling = "example_pooling (example_pooling_info 3 2 0 PoolingType_MAX)"]
    by (fastforce simp: example_defs Let_def GetInput_def GetOutput_def OperandKey_def)
  show "Visit_Pooling (\<lambda>_ _. Supported) (example_converter False)
            (example_pooling (example_pooling_info 1 1 0 PoolingType_MAX))
        = Inl (AssertionFailure ''Unsupported'', example_converter False)"
    using Visit_Pooling_dispatch [where IsPoolingSupported = "\<lambda>_ _. Supported"
        and c = "example_converter False"
        and pooling = "example_pooling (example_pooling_info 1 1 0 PoolingType_MAX)"]
    by (simp add: example_defs Let_def GetInput_def GetOutput_def OperandKey_def)
qed

section \<open>Properties of the fully connected rule\<close>

lemma unat_RoundUpToNearestMultiple_1024:
  assumes "unat num \<le> 2 ^ 32 - 1024"
  shows "unat (RoundUpToNearestMultiple num 1024) = ((unat num + 1023) div 1024) * 1024"
proof -
  define k where "k = ((unat num + unat (1024 :: u32) - 1) div unat (1024 :: u32)) * unat (1024 :: u32)"
  have k: "k = ((unat num + 1023) div 1024) * 1024" by (simp add: k_def)
  have "k \<le> unat num + 1023" unfolding k by simp
  then have small: "k < 2 ^ 32" using assms by simp
  have "RoundUpToNearestMultiple num 1024 = of_nat k"
    by (simp only: RoundUpToNearestMultiple_def k_def)
  then have "unat (RoundUpToNearestMultiple num 1024) = k mod 2 ^ 32"
    by (simp only: unat_of_nat) simp
  then show ?thesis using small k by simp
qed

lemma round_up_1024:
  fixes n :: nat
  shows "1024 dvd ((n + 1023) div 1024) * 1024"
    and "n \<le> ((n + 1023) div 1024) * 1024"
    and "((n + 1023) div 1024) * 1024 < n + 1024"
  by simp_all

lemma Pad_extends:
  assumes "length input \<le> newSize"
  shows "Pad input newSize padValue = input @ replicate (newSize - length input) padValue"
  using assms by (simp add: Pad_def)

lemma length_Pad [simp]: "length (Pad input newSize padValue) = newSize"
  by (simp add: Pad_def)

lemma ucast_zero_point:
  fixes z :: i32
  assumes "0 \<le> sint z" "sint z \<le> 255"
  shows "uint (ucast z :: u8) = sint z"
proof -
  have "uint z = take_bit 32 (sint z)" using uint_sint [of z] by simp
  also have "\<dots> = sint z" using assms by (simp add: take_bit_int_eq_self)
  finally have u: "uint z = sint z" .
  have "uint (ucast z :: u8) = take_bit 8 (uint z)"
    by (simp add: unsigned_ucast_eq)
  also have "\<dots> = uint z" using assms u by (simp add: take_bit_int_eq_self)
  finally show ?thesis using u by simp
qed

text \<open>
  Claim C4. For a fully connected operation (with its input bound to a node, one output, and a
  brick group for which the linear-shape packer is defined) the rule binds the output to a new
  \<open>MceOperation(FULLY_CONNECTED)\<close> node whose weights info is that of the weights constant with
  dimension 2 replaced by \<open>RoundUpToNearestMultiple\<close> of it and 1024 (a multiple of 1024, not
  below the dimension and less than 1024 above it, unless that multiple is beyond
  \<open>uint32_t\<close>); whose weights data has the total size of that info and, when the data vector
  of the constant is not longer than that, is the data vector followed by bytes equal to the
  zero point of the weights themselves (cast to \<open>uint8_t\<close>, the zero point itself when it is
  between 0 and 255); and which has the bias info and the bias data of the bias constant, the
  default stride, upscale factor 1 and zero top and left padding.
\<close>

theorem Visit_FullyConnected_padded_weights:
  assumes ins: "GetInputs fullyConnected \<noteq> []" and outs: "length (GetOutputs fullyConnected) = 1"
    and bound: "\<forall>operand\<in>set (GetInputs fullyConnected).
                  m_OperandToNode c (OperandKey operand) \<noteq> None"
    and packed: "GetShapeContainingLinearElements (GetBrickGroupShape (m_Capabilities c))
                   (dim (m_Dimensions (GetTensorInfo (GetInput fullyConnected 0))) 3) \<noteq> None"
  shows "\<exists>c' fcNode d.
      Visit_FullyConnected TotalSizeBytes GetDataVectorAs_int32 Stride_default c fullyConnected = Inr c'
    \<and> m_OperandToNode c' (OperandKey (GetOutput fullyConnected 0)) = Some fcNode
    \<and> fcNode < length (GetNodes (m_Graph c')) \<and> length (GetNodes (m_Graph c)) \<le> fcNode
    \<and> NodeKind (GetNodes (m_Graph c') ! fcNode) = MceOperationNode d
    \<and> mce_Operation d = FULLY_CONNECTED
    \<and> (let weightsInfo = Constant_GetTensorInfo (GetWeights fullyConnected);
            weightsData = GetDataVector (GetWeights fullyConnected);
            channels = dim (m_Dimensions weightsInfo) 2;
            padByte = (ucast (m_ZeroPoint (m_QuantizationInfo weightsInfo)) :: u8)
        in mce_WeightsInfo d =
             weightsInfo\<lparr>m_Dimensions :=
               (dim (m_Dimensions weightsInfo) 0, dim (m_Dimensions weightsInfo) 1,
                RoundUpToNearestMultiple channels 1024, dim (m_Dimensions weightsInfo) 3)\<rparr>
         \<and> (unat channels \<le> 2 ^ 32 - 1024 \<longrightarrow>
               1024 dvd unat (dim (m_Dimensions (mce_WeightsInfo d)) 2)
             \<and> unat channels \<le> unat (dim (m_Dimensions (mce_WeightsInfo d)) 2)
             \<and> unat (dim (m_Dimensions (mce_WeightsInfo d)) 2) < unat channels + 1024)
         \<and> length (mce_WeightsData d) = TotalSizeBytes (mce_WeightsInfo d)
         \<and> (length weightsData \<le> TotalSizeBytes (mce_WeightsInfo d) \<longrightarrow>
               mce_WeightsData d =
                 weightsData @ replicate (TotalSizeBytes (mce_WeightsInfo d) - length weightsData) padByte)
         \<and> (0 \<le> sint (m_ZeroPoint (m_QuantizationInfo weightsInfo))
              \<and> sint (m_ZeroPoint (m_QuantizationInfo weightsInfo)) \<le> 255 \<longrightarrow>
               uint padByte = sint (m_ZeroPoint (m_QuantizationInfo weightsInfo))))
    \<and> mce_BiasInfo d = Constant_GetTensorInfo (GetBias fullyConnected)
    \<and> mce_BiasData d = GetDataVectorAs_int32 (GetDataVector (GetBias fullyConnected))
    \<and> mce_Stride d = Stride_default
    \<and> mce_UpscaleFactor d = 1
    \<and> mce_PadTop d = 0 \<and> mce_PadLeft d = 0"
proof -
  let ?wi = "Constant_GetTensorInfo (GetWeights fullyConnected)"
  obtain w0 w1 w2 w3 where ws: "m_Dimensions ?wi = (w0, w1, w2, w3)"
    by (cases "m_Dimensions ?wi")
  from bound ins obtain inputNode where
    inode: "m_OperandToNode c (OperandKey (GetInput fullyConnected 0)) = Some inputNode"
    by (cases "GetInputs fullyConnected") (auto simp: GetInput_def)
  from packed obtain reinterpretedInput where
    pk: "GetShapeContainingLinearElements (GetBrickGroupShape (m_Capabilities c))
           (dim (m_Dimensions (GetTensorInfo (GetInput fullyConnected 0))) 3) = Some reinterpretedInput"
    by auto
  have outs': "GetOutputs fullyConnected \<noteq> []" using outs by auto
  have ru: "unat w2 \<le> 2 ^ 32 - 1024 \<Longrightarrow>
      1024 dvd unat (RoundUpToNearestMultiple w2 1024)
      \<and> unat w2 \<le> unat (RoundUpToNearestMultiple w2 1024)
      \<and> unat (RoundUpToNearestMultiple w2 1024) < unat w2 + 1024"
    using round_up_1024 [of "unat w2"] by (simp add: unat_RoundUpToNearestMultiple_1024)
  have chain: "\<exists>c'. ConnectNodeChain (c\<lparr>m_Graph := g\<rparr>) fullyConnected nodes = Inr c'
           \<and> GetNodes (m_Graph c') = GetNodes g
           \<and> m_OperandToNode c' = (m_OperandToNode c)(OperandKey (GetOutput fullyConnected 0) \<mapsto> last nodes)"
    if "nodes \<noteq> []" for g nodes
    using ConnectNodeChain_Inr [OF outs that, of "c\<lparr>m_Graph := g\<rparr>"] bound by simp
  show ?thesis
  proof (cases "NodeFormat (GetNodes (m_Graph c) ! inputNode) \<noteq> CNHWC")
    case True
    let ?g3 = "fst (CreateAndAddNode (fst (CreateAndAddNode (fst (CreateAndAddNode (m_Graph c)
        (MakeFormatConversionNode (m_Dimensions (GetTensorInfo (GetInput fullyConnected 0)))
           (m_QuantizationInfo (GetTensorInfo (GetInput fullyConnected 0))) CNHWC {GetId fullyConnected})))
        (MakeReinterpretNode reinterpretedInput (m_QuantizationInfo (GetTensorInfo (GetInput fullyConnected 0)))
           CNHWCB {GetId fullyConnected})))
        (MakeMceOperationNode (m_Dimensions (GetTensorInfo (GetInput fullyConnected 0)))
           (m_Dimensions (GetTensorInfo (GetOutput fullyConnected 0)))
           (m_QuantizationInfo (GetTensorInfo (GetOutput fullyConnected 0)))
           (?wi\<lparr>m_Dimensions := set_dim (m_Dimensions ?wi) 2
                     (RoundUpToNearestMultiple (dim (m_Dimensions ?wi) 2) 1024)\<rparr>)
           (Pad (GetDataVector (GetWeights fullyConnected))
              (TotalSizeBytes (?wi\<lparr>m_Dimensions := set_dim (m_Dimensions ?wi) 2
                     (RoundUpToNearestMultiple (dim (m_Dimensions ?wi) 2) 1024)\<rparr>))
              (ucast (m_ZeroPoint (m_QuantizationInfo ?wi))))
           (Constant_GetTensorInfo (GetBias fullyConnected))
           (GetDataVectorAs_int32 (GetDataVector (GetBias fullyConnected)))
           Stride_default 1 0 0 FULLY_CONNECTED CNHWCB {GetId fullyConnected}))"
    let ?nodes = "[length (GetNodes (m_Graph c)), Suc (length (GetNodes (m_Graph c))),
                   Suc (Suc (length (GetNodes (m_Graph c))))]"
    from chain [of ?nodes ?g3] obtain c' where
      c': "ConnectNodeChain (c\<lparr>m_Graph := ?g3\<rparr>) fullyConnected ?nodes = Inr c'"
      "GetNodes (m_Graph c') = GetNodes ?g3"
      "m_OperandToNode c' = (m_OperandToNode c)(OperandKey (GetOutput fullyConnected 0) \<mapsto> last ?nodes)"
      by auto
    show ?thesis
      using True ins outs' inode pk c' ru
      by (simp add: Visit_FullyConnected_def Let_def CreateAndAddNode_def MakeMceOperationNode_def
          ws nth_append Pad_extends ucast_zero_point)
  next
    case False
    let ?g3 = "fst (CreateAndAddNode (fst (CreateAndAddNode (m_Graph c)
        (MakeReinterpretNode reinterpretedInput (m_QuantizationInfo (GetTensorInfo (GetInput fullyConnected 0)))
           CNHWCB {GetId fullyConnected})))
        (MakeMceOperationNode (m_Dimensions (GetTensorInfo (GetInput fullyConnected 0)))
           (m_Dimensions (GetTensorInfo (GetOutput fullyConnected 0)))
           (m_QuantizationInfo (GetTensorInfo (GetOutput fullyConnected 0)))
           (?wi\<lparr>m_Dimensions := set_dim (m_Dimensions ?wi) 2
                     (RoundUpToNearestMultiple (dim (m_Dimensions ?wi) 2) 1024)\<rparr>)
           (Pad (GetDataVector (GetWeights fullyConnected))
              (TotalSizeBytes (?wi\<lparr>m_Dimensions := set_dim (m_Dimensions ?wi) 2
                     (RoundUpToNearestMultiple (dim (m_Dimensions ?wi) 2) 1024)\<rparr>))
              (ucast (m_ZeroPoint (m_QuantizationInfo ?wi))))
           (Constant_GetTensorInfo (GetBias fullyConnected))
           (GetDataVectorAs_int32 (GetDataVector (GetBias fullyConnected)))
           Stride_default 1 0 0 FULLY_CONNECTED CNHWCB {GetId fullyConnected}))"
    let ?nodes = "[length (GetNodes (m_Graph c)), Suc (length (GetNodes (m_Graph c)))]"
    from chain [of ?nodes ?g3] obtain c' where
      c': "ConnectNodeChain (c\<lparr>m_Graph := ?g3\<rparr>) fullyConnected ?nodes = Inr c'"
      "GetNodes (m_Graph c') = GetNodes ?g3"
      "m_OperandToNode c' = (m_OperandToNode c)(OperandKey (GetOutput fullyConnected 0) \<mapsto> last ?nodes)"
      by auto
    show ?thesis
      using False ins outs' inode pk c' ru
      by (simp add: Visit_FullyConnected_def Let_def CreateAndAddNode_def MakeMceOperationNode_def
          ws nth_append Pad_extends ucast_zero_point)
  qed
qed

theorem Visit_FullyConnected_padded_weights_witness:
  "\<exists>c' fcNode d.
      Visit_FullyConnected example_TotalSizeBytes (\<lambda>_. [0, 0, 0, 0]) \<lparr>m_X = 1, m_Y = 1\<rparr>
        (example_converter False) example_fully_connected = Inr c'
    \<and> m_OperandToNode c' (2, 0) = Some fcNode
    \<and> NodeKind (GetNodes (m_Graph c') ! fcNode) = MceOperationNode d
    \<and> mce_Operation d = FULLY_CONNECTED
    \<and> m_Dimensions (mce_WeightsInfo d) = (1, 1, 1024, 4)
    \<and> length (mce_WeightsData d) = 4096
    \<and> mce_WeightsData d = replicate 4000 1 @ replicate 96 3
    \<and> mce_BiasInfo d = example_tensor (1, 1, 1, 4) 0
    \<and> mce_BiasData d = [0, 0, 0, 0]
    \<and> mce_Stride d = \<lparr>m_X = 1, m_Y = 1\<rparr>
    \<and> mce_UpscaleFactor d = 1
    \<and> mce_PadTop d = 0 \<and> mce_PadLeft d = 0"
proof -
  have r: "RoundUpToNearestMultiple 1000 1024 = 1024"
    by (simp add: RoundUpToNearestMultiple_def)
  have p: "GetShapeContainingLinearElements (1, 8, 8, 16) 1000 \<noteq> None"
    by (simp add: GetShapeContainingLinearElements_def Let_def)
  show ?thesis
    using Visit_FullyConnected_padded_weights [where TotalSizeBytes = example_TotalSizeBytes
        and ?GetDataVectorAs_int32.0 = "\<lambda>_. [0, 0, 0, 0]" and Stride_default = "\<lparr>m_X = 1, m_Y = 1\<rparr>"
        and c = "example_converter False" and fullyConnected = example_fully_connected]
      p
    by (fastforce simp: example_defs2 Let_def GetInput_def GetOutput_def OperandKey_def r)
qed

section \<open>Properties of the concatenation rule: shared inputs\<close>

text \<open>
  Claim C7. Outside the estimation mode, a concatenation one of whose input operands has more
  than one consumer makes the rule throw the \<open>NotSupportedException\<close> about inputs connected to
  multiple operations, with the converter as it was; in the estimation mode the rule throws no
  \<open>NotSupportedException\<close> at all.
\<close>

theorem Visit_Concatenation_shared_inputs:
  "(\<not> m_EstimationMode c \<and> (\<exists>it\<in>set (GetInputs concatenation). 1 < length (GetConsumers it))
      \<longrightarrow> Visit_Concatenation IsConcatenationSupported c concatenation
            = Inl (NotSupportedException
                     ''Inputs to Concatentation cannot be connected to multiple operations'', c))
   \<and> (m_EstimationMode c
      \<longrightarrow> (\<forall>message c'. Visit_Concatenation IsConcatenationSupported c concatenation
                           \<noteq> Inl (NotSupportedException message, c')))"
proof (intro conjI impI allI)
  assume "\<not> m_EstimationMode c \<and> (\<exists>it\<in>set (GetInputs concatenation). 1 < length (GetConsumers it))"
  then have "SharedInputThrows (m_EstimationMode c) (GetInputs concatenation)"
    by (simp add: SharedInputThrows_iff)
  then show "Visit_Concatenation IsConcatenationSupported c concatenation
            = Inl (NotSupportedException
                     ''Inputs to Concatentation cannot be connected to multiple operations'', c)"
    by (simp add: Visit_Concatenation_def Let_def)
next
  fix message c'
  assume est: "m_EstimationMode c"
  then have no: "\<not> SharedInputThrows (m_EstimationMode c) (GetInputs concatenation)"
    by (simp add: SharedInputThrows_iff)
  show "Visit_Concatenation IsConcatenationSupported c concatenation
          \<noteq> Inl (NotSupportedException message, c')"
    using no
    by (auto simp: Visit_Concatenation_def Let_def ConnectNode_def
        split: option.splits prod.splits sum.splits)
qed

theorem Visit_Concatenation_shared_inputs_witness:
  "Visit_Concatenation (\<lambda>_ _. Supported) (example_converter False) (example_concatenation [2, 3])
     = Inl (NotSupportedException
              ''Inputs to Concatentation cannot be connected to multiple operations'',
            example_converter False)
   \<and> (\<forall>message c'. Visit_Concatenation (\<lambda>_ _. Supported) (example_converter True)
                       (example_concatenation [2, 3])
                     \<noteq> Inl (NotSupportedException message, c'))"
  using Visit_Concatenation_shared_inputs [where IsConcatenationSupported = "\<lambda>_ _. Supported"
      and c = "example_converter False" and concatenation = "example_concatenation [2, 3]"]
    Visit_Concatenation_shared_inputs [where IsConcatenationSupported = "\<lambda>_ _. Supported"
      and c = "example_converter True" and concatenation = "example_concatenation [2, 3]"]
  by (simp add: example_defs2)

text \<open>
  Claim C10. The check of the consumers comes before the estimate-only branch: outside the
  estimation mode, with an input operand that has more than one consumer, the rule throws the
  exception also when the support oracle answers \<open>EstimateOnly\<close>, and the converter it leaves
  has the graph and the operand map it started with: no \<open>EstimateOnly\<close> node was created.
\<close>

theorem Visit_Concatenation_check_before_estimate:
  assumes "\<not> m_EstimationMode c"
    and "\<exists>it\<in>set (GetInputs concatenation). 1 < length (GetConsumers it)"
    and "IsConcatenationSupported (map GetTensorInfo (GetInputs concatenation))
           (GetConcatenationInfo concatenation) = EstimateOnly"
  shows "\<exists>c'. Visit_Concatenation IsConcatenationSupported c concatenation
            = Inl (NotSupportedException
                     ''Inputs to Concatentation cannot be connected to multiple operations'', c')
          \<and> m_Graph c' = m_Graph c \<and> m_OperandToNode c' = m_OperandToNode c"
proof -
  from assms(1,2) have "SharedInputThrows (m_EstimationMode c) (GetInputs concatenation)"
    by (simp add: SharedInputThrows_iff)
  then show ?thesis by (simp add: Visit_Concatenation_def Let_def)
qed

theorem Visit_Concatenation_check_before_estimate_witness:
  "\<exists>c'. Visit_Concatenation (\<lambda>_ _. EstimateOnly) (example_converter False)
           (example_concatenation [2, 3])
         = Inl (NotSupportedException
                  ''Inputs to Concatentation cannot be connected to multiple operations'', c')
       \<and> m_Graph c' = m_Graph (example_converter False)
       \<and> m_OperandToNode c' = m_OperandToNode (example_converter False)"
  using Visit_Concatenation_check_before_estimate [where IsConcatenationSupported = "\<lambda>_ _. EstimateOnly"
      and c = "example_converter False" and concatenation = "example_concatenation [2, 3]"]
  by (simp add: example_defs2)

section \<open>Properties of the split rule\<close>

lemma dim_set_dim_same: "axis < 4 \<Longrightarrow> dim (set_dim shape axis v) axis = v"
  by (cases shape) auto

lemma dim_set_dim_other: "a \<noteq> axis \<Longrightarrow> a < 4 \<Longrightarrow> axis < 4 \<Longrightarrow> dim (set_dim shape axis v) a = dim shape a"
  by (cases shape) auto

lemma set_dim_set_dim: "axis < 4 \<Longrightarrow> set_dim (set_dim shape axis v) axis w = set_dim shape axis w"
  by (cases shape) auto

lemma unat_sum_list:
  fixes xs :: "u32 list"
  assumes "sum_list (map unat xs) < 2 ^ 32"
  shows "unat (sum_list xs) = sum_list (map unat xs)"
  using assms
proof (induction xs)
  case Nil
  then show ?case by simp
next
  case (Cons x xs)
  then have "sum_list (map unat xs) < 2 ^ 32" by simp
  with Cons.IH have "unat (sum_list xs) = sum_list (map unat xs)" by simp
  with Cons.prems show ?case using unat_add_small [of x "sum_list xs"] by simp
qed

lemma sum_list_take_le:
  fixes xs :: "nat list"
  shows "sum_list (take i xs) \<le> sum_list xs"
proof -
  have "sum_list xs = sum_list (take i xs) + sum_list (drop i xs)"
    by (metis append_take_drop_id sum_list_append)
  then show ?thesis by simp
qed

lemma SplitFormat_Some:
  assumes "axis < 4" and "dim brickGroupShape axis \<noteq> 0"
  shows "\<exists>format. SplitFormat brickGroupShape axis outputs = Some format"
  using assms by (induction outputs) auto

lemma ExtractSubtensors_nodes:
  assumes "axis < 4" and "length outputs = length sizes"
  shows "\<exists>g'. ExtractSubtensors g inputTensorInfo axis format operationId outputs sizes
                 supertensorOffset extractSubtensorNodes
               = Some (g', extractSubtensorNodes @ map (\<lambda>i. length (GetNodes g) + i) [0..<length sizes])
           \<and> GetNodes g' = GetNodes g @
                map (\<lambda>i. MakeExtractSubtensorNode
                             (set_dim supertensorOffset axis
                                (dim supertensorOffset axis + sum_list (take i sizes)))
                             (set_dim (m_Dimensions inputTensorInfo) axis (sizes ! i))
                             (m_QuantizationInfo inputTensorInfo) format {operationId})
                    [0..<length sizes]"
  using assms(2)
proof (induction outputs sizes arbitrary: g supertensorOffset extractSubtensorNodes rule: list_induct2)
  case Nil
  then show ?case by simp
next
  case (Cons out outputs sz sizes)
  let ?node = "MakeExtractSubtensorNode supertensorOffset
                 (set_dim (m_Dimensions inputTensorInfo) axis sz)
                 (m_QuantizationInfo inputTensorInfo) format {operationId}"
  define g1 where "g1 = fst (CreateAndAddNode g ?node)"
  let ?off1 = "set_dim supertensorOffset axis (dim supertensorOffset axis + sz)"
  have g1: "CreateAndAddNode g ?node = (g1, length (GetNodes g))"
    and n1: "GetNodes g1 = GetNodes g @ [?node]"
    by (simp_all add: g1_def CreateAndAddNode_def Let_def)
  from Cons.IH [of g1 ?off1 "extractSubtensorNodes @ [length (GetNodes g)]"]
  obtain g' where r: "ExtractSubtensors g1 inputTensorInfo axis format operationId outputs sizes
                 ?off1 (extractSubtensorNodes @ [length (GetNodes g)])
               = Some (g', (extractSubtensorNodes @ [length (GetNodes g)])
                            @ map (\<lambda>i. length (GetNodes g1) + i) [0..<length sizes])"
    and n: "GetNodes g' = GetNodes g1 @
                map (\<lambda>i. MakeExtractSubtensorNode
                             (set_dim ?off1 axis (dim ?off1 axis + sum_list (take i sizes)))
                             (set_dim (m_Dimensions inputTensorInfo) axis (sizes ! i))
                             (m_QuantizationInfo inputTensorInfo) format {operationId})
                    [0..<length sizes]"
    by blast
  have upt: "[0..<length (sz # sizes)] = 0 # map Suc [0..<length sizes]"
    by (simp add: upt_conv_Cons map_Suc_upt del: upt_Suc)
  have off: "set_dim ?off1 axis (dim ?off1 axis + sum_list (take i sizes))
      = set_dim supertensorOffset axis (dim supertensorOffset axis + sum_list (take (Suc i) (sz # sizes)))"
    for i
    using assms(1) by (simp add: set_dim_set_dim dim_set_dim_same add.assoc)
  have start: "set_dim supertensorOffset axis (dim supertensorOffset axis + sum_list (take 0 (sz # sizes)))
      = supertensorOffset"
    using assms(1) by (cases supertensorOffset) auto
  have "ExtractSubtensors g inputTensorInfo axis format operationId (out # outputs) (sz # sizes)
                 supertensorOffset extractSubtensorNodes
               = Some (g', extractSubtensorNodes @ map (\<lambda>i. length (GetNodes g) + i) [0..<length (sz # sizes)])"
    using assms(1) r g1 n1 unfolding upt by (simp add: Let_def comp_def)
  moreover have "GetNodes g' = GetNodes g @
                map (\<lambda>i. MakeExtractSubtensorNode
                             (set_dim supertensorOffset axis
                                (dim supertensorOffset axis + sum_list (take i (sz # sizes))))
                             (set_dim (m_Dimensions inputTensorInfo) axis ((sz # sizes) ! i))
                             (m_QuantizationInfo inputTensorInfo) format {operationId})
                    [0..<length (sz # sizes)]"
    unfolding upt n n1 using off start by (simp add: comp_def)
  ultimately show ?case by blast
qed

lemma ConnectSubtensors_nodes [simp]:
  "GetNodes (m_Graph (ConnectSubtensors c inputNode outputs nodes)) = GetNodes (m_Graph c)"
  by (induction c inputNode outputs nodes rule: ConnectSubtensors.induct) simp_all

lemma ConnectSubtensors_other:
  assumes "k \<notin> OperandKey ` set outputs"
  shows "m_OperandToNode (ConnectSubtensors c inputNode outputs nodes) k = m_OperandToNode c k"
  using assms
  by (induction c inputNode outputs nodes rule: ConnectSubtensors.induct) auto

lemma ConnectSubtensors_bound:
  assumes "distinct (map OperandKey outputs)" and "length outputs = length nodes"
    and "i < length outputs"
  shows "m_OperandToNode (ConnectSubtensors c inputNode outputs nodes) (OperandKey (outputs ! i))
           = Some (nodes ! i)"
  using assms(2,1,3)
proof (induction outputs nodes arbitrary: c i rule: list_induct2)
  case Nil
  then show ?case by simp
next
  case (Cons out outputs node nodes)
  show ?case
  proof (cases i)
    case 0
    have "OperandKey out \<notin> OperandKey ` set outputs" using Cons.prems(1) by simp
    then show ?thesis using 0 by (simp add: ConnectSubtensors_other)
  next
    case (Suc j)
    then show ?thesis using Cons by simp
  qed
qed

lemma prefix_sums:
  fixes sizes :: "u32 list"
  assumes "sum_list (map unat sizes) \<le> unat (extent :: u32)" and "i < length sizes"
  shows "unat (sum_list (take i sizes)) = sum_list (map unat (take i sizes))"
    and "sum_list (map unat (take i sizes)) + unat (sizes ! i) = sum_list (map unat (take (Suc i) sizes))"
    and "sum_list (map unat (take (Suc i) sizes)) \<le> unat extent"
proof -
  have e: "unat extent < 2 ^ 32" using unsigned_less [of extent] by simp
  have le: "sum_list (map unat (take k sizes)) \<le> sum_list (map unat sizes)" for k
    using sum_list_take_le [of k "map unat sizes"] by (simp add: take_map)
  have "sum_list (map unat (take i sizes)) < 2 ^ 32" using le [of i] assms(1) e by linarith
  then show "unat (sum_list (take i sizes)) = sum_list (map unat (take i sizes))"
    by (rule unat_sum_list)
  show "sum_list (map unat (take i sizes)) + unat (sizes ! i) = sum_list (map unat (take (Suc i) sizes))"
    using assms(2) by (simp add: take_Suc_conv_app_nth)
  show "sum_list (map unat (take (Suc i) sizes)) \<le> unat extent"
    using le [of "Suc i"] assms(1) by linarith
qed

text \<open>
  Claim C9. For a supported split on axis \<open>a\<close> (below 4, with a non-zero brick-group dimension)
  with sizes \<open>s_0, \<dots>, s_(k-1)\<close> summing to dimension \<open>a\<close> of the input, one size for each
  output, the rule adds \<open>k\<close> \<open>ExtractSubtensor\<close> nodes at the end of the graph, after the format
  conversion node if one is needed. The supertensor offset of node \<open>i\<close> is zero except at
  axis \<open>a\<close>, where it is \<open>s_0 + \<dots> + s_(i-1)\<close>: the offsets start at \<open>(0, 0, 0, 0)\<close>, each
  advances by the size of the node before it, and the last offset plus the last size is the
  extent of the input, so the subtensors tile the axis without overlap. Node \<open>i\<close> has the
  quantization of the input and the shape of the input with dimension \<open>a\<close> replaced by \<open>s_i\<close>,
  and output \<open>i\<close> of the split is bound to node \<open>i\<close>.
\<close>

theorem Visit_Split_extract_subtensors:
  assumes ins: "GetInputs split \<noteq> []"
    and supported: "IsSplitSupported (GetTensorInfo (GetInput split 0)) (GetSplitInfo split) = Supported"
    and axis: "unat (m_SplitAxis (GetSplitInfo split)) < 4"
    and brick: "dim (GetBrickGroupShape (m_Capabilities c)) (unat (m_SplitAxis (GetSplitInfo split))) \<noteq> 0"
    and bound: "m_OperandToNode c (OperandKey (GetInput split 0)) \<noteq> None"
    and len: "length (GetOutputs split) = length (m_Sizes (GetSplitInfo split))"
    and dist: "distinct (map OperandKey (GetOutputs split))"
    and total: "sum_list (map unat (m_Sizes (GetSplitInfo split)))
                  = unat (dim (m_Dimensions (GetTensorInfo (GetInput split 0)))
                            (unat (m_SplitAxis (GetSplitInfo split))))"
  shows "\<exists>c' base.
      Visit_Split IsSplitSupported c split = Inr c'
    \<and> length (GetNodes (m_Graph c)) \<le> base
    \<and> length (GetNodes (m_Graph c')) = base + length (m_Sizes (GetSplitInfo split))
    \<and> (\<forall>i < length (m_Sizes (GetSplitInfo split)). \<exists>offset.
          m_OperandToNode c' (OperandKey (GetOutput split i)) = Some (base + i)
        \<and> NodeKind (GetNodes (m_Graph c') ! (base + i))
            = ExtractSubtensorNode
                (set_dim (0, 0, 0, 0) (unat (m_SplitAxis (GetSplitInfo split))) offset)
        \<and> NodeQuantizationInfo (GetNodes (m_Graph c') ! (base + i))
            = m_QuantizationInfo (GetTensorInfo (GetInput split 0))
        \<and> NodeShape (GetNodes (m_Graph c') ! (base + i))
            = set_dim (m_Dimensions (GetTensorInfo (GetInput split 0)))
                (unat (m_SplitAxis (GetSplitInfo split))) (m_Sizes (GetSplitInfo split) ! i)
        \<and> unat offset = sum_list (map unat (take i (m_Sizes (GetSplitInfo split))))
        \<and> unat offset + unat (m_Sizes (GetSplitInfo split) ! i)
            = sum_list (map unat (take (Suc i) (m_Sizes (GetSplitInfo split))))
        \<and> sum_list (map unat (take (Suc i) (m_Sizes (GetSplitInfo split))))
            \<le> unat (dim (m_Dimensions (GetTensorInfo (GetInput split 0)))
                       (unat (m_SplitAxis (GetSplitInfo split)))))"
proof -
  let ?axis = "unat (m_SplitAxis (GetSplitInfo split))"
  let ?sizes = "m_Sizes (GetSplitInfo split)"
  let ?info = "GetTensorInfo (GetInput split 0)"
  let ?id = "GetId split"
  from bound obtain inputNode where
    inode: "m_OperandToNode c (OperandKey (GetInput split 0)) = Some inputNode" by auto
  from SplitFormat_Some [OF axis brick] obtain format where
    fmt: "SplitFormat (GetBrickGroupShape (m_Capabilities c)) ?axis (GetOutputs split) = Some format"
    by blast
  define g1 where "g1 =
     (if NodeFormat (GetNodes (m_Graph c) ! inputNode) \<noteq> format
      then Connect (fst (CreateAndAddNode (m_Graph c)
             (MakeFormatConversionNode (m_Dimensions ?info) (m_QuantizationInfo ?info) format {?id})))
             inputNode (length (GetNodes (m_Graph c)))
      else m_Graph c)"
  define inputNode1 where "inputNode1 =
     (if NodeFormat (GetNodes (m_Graph c) ! inputNode) \<noteq> format
      then length (GetNodes (m_Graph c)) else inputNode)"
  define base where "base = length (GetNodes g1)"
  have base_ge: "length (GetNodes (m_Graph c)) \<le> base"
    by (simp add: base_def g1_def CreateAndAddNode_def Let_def)
  have pre: "(if NodeFormat (GetNodes (m_Graph c) ! inputNode) \<noteq> format
        then (let (g, conversionNode) =
                    CreateAndAddNode (m_Graph c)
                      (MakeFormatConversionNode (m_Dimensions ?info) (m_QuantizationInfo ?info)
                         format {?id})
              in (Connect g inputNode conversionNode, conversionNode))
        else (m_Graph c, inputNode)) = (g1, inputNode1)"
    by (simp add: g1_def inputNode1_def CreateAndAddNode_def Let_def)
  from ExtractSubtensors_nodes [OF axis len, of g1 ?info format ?id "(0, 0, 0, 0)" "[]"]
  obtain g2 where
    ex: "ExtractSubtensors g1 ?info ?axis format ?id (GetOutputs split) ?sizes (0, 0, 0, 0) []
           = Some (g2, map (\<lambda>i. base + i) [0..<length ?sizes])"
    and n2: "GetNodes g2 = GetNodes g1 @
                map (\<lambda>i. MakeExtractSubtensorNode
                             (set_dim (0, 0, 0, 0) ?axis
                                (dim (0, 0, 0, 0) ?axis + sum_list (take i ?sizes)))
                             (set_dim (m_Dimensions ?info) ?axis (?sizes ! i))
                             (m_QuantizationInfo ?info) format {?id})
                    [0..<length ?sizes]"
    unfolding base_def by auto
  define c' where "c' = ConnectSubtensors (c\<lparr>m_Graph := g2\<rparr>) inputNode1 (GetOutputs split)
                          (map (\<lambda>i. base + i) [0..<length ?sizes])"
  have visit: "Visit_Split IsSplitSupported c split = Inr c'"
    using ins supported fmt inode ex pre
    by (simp add: Visit_Split_def Let_def c'_def)
  have nodes: "GetNodes (m_Graph c') = GetNodes g2" by (simp add: c'_def)
  have z: "dim (0, 0, 0, 0) ?axis = 0" using axis by simp
  have per: "\<exists>offset.
          m_OperandToNode c' (OperandKey (GetOutput split i)) = Some (base + i)
        \<and> NodeKind (GetNodes (m_Graph c') ! (base + i))
            = ExtractSubtensorNode (set_dim (0, 0, 0, 0) ?axis offset)
        \<and> NodeQuantizationInfo (GetNodes (m_Graph c') ! (base + i)) = m_QuantizationInfo ?info
        \<and> NodeShape (GetNodes (m_Graph c') ! (base + i))
            = set_dim (m_Dimensions ?info) ?axis (?sizes ! i)
        \<and> unat offset = sum_list (map unat (take i ?sizes))
        \<and> unat offset + unat (?sizes ! i) = sum_list (map unat (take (Suc i) ?sizes))
        \<and> sum_list (map unat (take (Suc i) ?sizes)) \<le> unat (dim (m_Dimensions ?info) ?axis)"
    if i: "i < length ?sizes" for i
  proof -
    let ?offset = "set_dim (0, 0, 0, 0) ?axis (sum_list (take i ?sizes))"
    have le: "sum_list (map unat ?sizes) \<le> unat (dim (m_Dimensions ?info) ?axis)"
      using total by simp
    note ps = prefix_sums [OF le i]
    have b: "m_OperandToNode c' (OperandKey (GetOutput split i)) = Some (base + i)"
      using ConnectSubtensors_bound [OF dist, of "map (\<lambda>i. base + i) [0..<length ?sizes]" i
          "c\<lparr>m_Graph := g2\<rparr>" inputNode1] len i
      by (simp add: c'_def GetOutput_def)
    have nd: "GetNodes (m_Graph c') ! (base + i) =
        MakeExtractSubtensorNode ?offset (set_dim (m_Dimensions ?info) ?axis (?sizes ! i))
          (m_QuantizationInfo ?info) format {?id}"
      using i unfolding nodes n2 base_def by (simp add: nth_append z)
    show ?thesis
      using b ps unfolding nd
      by (intro exI [of _ "sum_list (take i ?sizes)"]) (simp add: MakeExtractSubtensorNode_def)
  qed
  have "length (GetNodes (m_Graph c')) = base + length ?sizes"
    unfolding nodes n2 base_def by simp
  with visit base_ge per show ?thesis by blast
qed

theorem Visit_Split_extract_subtensors_witness:
  "\<exists>c' base offset.
      Visit_Split (\<lambda>_ _. Supported) (example_converter False) example_split = Inr c'
    \<and> length (GetNodes (m_Graph c')) = base + 2
    \<and> m_OperandToNode c' (2, 1) = Some (base + 1)
    \<and> NodeKind (GetNodes (m_Graph c') ! (base + 1)) = ExtractSubtensorNode (0, 0, 0, offset)
    \<and> NodeQuantizationInfo (GetNodes (m_Graph c') ! (base + 1)) = \<lparr>m_ZeroPoint = 0, m_Scale = 1\<rparr>
    \<and> NodeShape (GetNodes (m_Graph c') ! (base + 1)) = (1, 8, 8, 12)
    \<and> unat offset = 4 \<and> unat offset + 12 = 16"
  using Visit_Split_extract_subtensors [where IsSplitSupported = "\<lambda>_ _. Supported"
      and c = "example_converter False" and split = example_split]
  by (auto simp: example_defs example_split_def GetInput_def GetOutput_def OperandKey_def
      elim!: allE [of _ "1::nat"])

section \<open>Properties of the concatenation rule: conversions and requantizations\<close>

subsection \<open>Splitting edges\<close>

lemma replace_first_nth:
  assumes "distinct xs" and "i < length xs"
  shows "replace_first (xs ! i) b xs = xs[i := b]"
  using assms
proof (induction xs arbitrary: i)
  case Nil
  then show ?case by simp
next
  case (Cons x xs)
  show ?case
  proof (cases i)
    case 0
    then show ?thesis by simp
  next
    case (Suc j)
    then have "xs ! j \<in> set xs" using Cons.prems by simp
    then have "x \<noteq> xs ! j" using Cons.prems by auto
    then show ?thesis using Suc Cons by simp
  qed
qed

lemma SplitEdge_nodes [simp]: "GetNodes (SplitEdge g e r) = GetNodes g"
  by (simp add: SplitEdge_def Let_def)

lemma SplitEdge_length_edges [simp]: "length (GetEdges (SplitEdge g e r)) = Suc (length (GetEdges g))"
  by (simp add: SplitEdge_def Let_def)

lemma SplitEdge_step:
  assumes d: "distinct (NodeInputs g n)"
    and valid: "\<forall>j < length (NodeInputs g n). NodeInputs g n ! j < length (GetEdges g)"
    and f: "Feeds g s n i"
    and r: "r \<noteq> n" and fresh: "NodeInputs g r = []"
  shows "NodeInputs (SplitEdge g (NodeInputs g n ! i) r) n = (NodeInputs g n)[i := length (GetEdges g)]"
    and "NodeInputs (SplitEdge g (NodeInputs g n ! i) r) r = [NodeInputs g n ! i]"
    and "k \<noteq> n \<Longrightarrow> k \<noteq> r \<Longrightarrow>
           NodeInputs (SplitEdge g (NodeInputs g n ! i) r) k = NodeInputs g k"
    and "Feeds (SplitEdge g (NodeInputs g n ! i) r) r n i"
    and "Feeds (SplitEdge g (NodeInputs g n ! i) r) s r 0"
    and "j \<noteq> i \<Longrightarrow> Feeds g s' n j \<Longrightarrow> Feeds (SplitEdge g (NodeInputs g n ! i) r) s' n j"
    and "k \<noteq> n \<Longrightarrow> k \<noteq> r \<Longrightarrow> Feeds g s' k j \<Longrightarrow>
           Feeds (SplitEdge g (NodeInputs g n ! i) r) s' k j"
    and "distinct (NodeInputs (SplitEdge g (NodeInputs g n ! i) r) n)"
    and "\<forall>j < length (NodeInputs (SplitEdge g (NodeInputs g n ! i) r) n).
           NodeInputs (SplitEdge g (NodeInputs g n ! i) r) n ! j
             < length (GetEdges (SplitEdge g (NodeInputs g n ! i) r))"
proof -
  let ?e = "NodeInputs g n ! i" and ?L = "length (GetEdges g)"
  let ?g' = "SplitEdge g ?e r"
  from f have i: "i < length (NodeInputs g n)" and e: "?e < ?L"
    and ed: "GetEdges g ! ?e = \<lparr>GetSource = s, GetDestination = n\<rparr>"
    by (simp_all add: Feeds_def)
  have dest: "GetDestination (GetEdges g ! ?e) = n" using ed by simp
  have rf: "replace_first ?e ?L (NodeInputs g n) = (NodeInputs g n)[i := ?L]"
    by (rule replace_first_nth [OF d i])
  show n': "NodeInputs ?g' n = (NodeInputs g n)[i := ?L]"
    using r by (simp add: SplitEdge_def Let_def dest rf)
  show r': "NodeInputs ?g' r = [?e]"
    using r fresh by (simp add: SplitEdge_def Let_def dest)
  show k': "k \<noteq> n \<Longrightarrow> k \<noteq> r \<Longrightarrow> NodeInputs ?g' k = NodeInputs g k" for k
    by (simp add: SplitEdge_def Let_def dest)
  have edges: "GetEdges ?g' = (GetEdges g)[?e := \<lparr>GetSource = s, GetDestination = r\<rparr>]
                  @ [\<lparr>GetSource = r, GetDestination = n\<rparr>]"
    by (simp add: SplitEdge_def Let_def ed)
  have old: "x < ?L \<Longrightarrow> x \<noteq> ?e \<Longrightarrow> GetEdges ?g' ! x = GetEdges g ! x" for x
    by (simp add: edges nth_append)
  have new: "GetEdges ?g' ! ?L = \<lparr>GetSource = r, GetDestination = n\<rparr>"
    by (simp add: edges nth_append)
  have at_e: "GetEdges ?g' ! ?e = \<lparr>GetSource = s, GetDestination = r\<rparr>"
    using e by (simp add: edges nth_append)
  show "Feeds ?g' r n i"
    using i by (simp add: Feeds_def n' new)
  show "Feeds ?g' s r 0"
    using e by (simp add: Feeds_def r' at_e)
  show "Feeds ?g' s' n j" if "j \<noteq> i" "Feeds g s' n j" for s' j
  proof -
    from that(2) have j: "j < length (NodeInputs g n)" and x: "NodeInputs g n ! j < ?L"
      and xd: "GetEdges g ! (NodeInputs g n ! j) = \<lparr>GetSource = s', GetDestination = n\<rparr>"
      by (simp_all add: Feeds_def)
    have ne: "NodeInputs g n ! j \<noteq> ?e"
      using d i j that(1) by (simp add: nth_eq_iff_index_eq)
    show ?thesis
      using j x xd that(1) old [OF x ne] by (simp add: Feeds_def n')
  qed
  show "Feeds ?g' s' k j" if "k \<noteq> n" "k \<noteq> r" "Feeds g s' k j" for s' k j
  proof -
    from that(3) have j: "j < length (NodeInputs g k)" and x: "NodeInputs g k ! j < ?L"
      and xd: "GetEdges g ! (NodeInputs g k ! j) = \<lparr>GetSource = s', GetDestination = k\<rparr>"
      by (simp_all add: Feeds_def)
    have ne: "NodeInputs g k ! j \<noteq> ?e"
      using xd ed that(1) by auto
    show ?thesis
      using j x xd old [OF x ne] k' [OF that(1,2)] by (simp add: Feeds_def)
  qed
  have notin: "?L \<notin> set (NodeInputs g n)"
    using valid by (auto simp: in_set_conv_nth)
  show "distinct (NodeInputs ?g' n)"
    unfolding n' using d notin i by (simp add: distinct_list_update)
  show "\<forall>j < length (NodeInputs ?g' n). NodeInputs ?g' n ! j < length (GetEdges ?g')"
  proof (intro allI impI)
    fix j assume "j < length (NodeInputs ?g' n)"
    then have j: "j < length (NodeInputs g n)" by (simp add: n')
    show "NodeInputs ?g' n ! j < length (GetEdges ?g')"
    proof (cases "j = i")
      case True
      then show ?thesis using j by (simp add: n')
    next
      case False
      then have "NodeInputs ?g' n ! j = NodeInputs g n ! j" by (simp add: n')
      then show ?thesis using valid j by (simp add: less_Suc_eq)
    qed
  qed
qed

lemma SplitEdges_pass:
  assumes "distinct (NodeInputs g n)"
    and "\<forall>j < length (NodeInputs g n). NodeInputs g n ! j < length (GetEdges g)"
    and "\<forall>j < length (NodeInputs g n). Feeds g (S j) n j"
    and "\<forall>(i, r) \<in> set IR. i < length (NodeInputs g n) \<and> r \<noteq> n \<and> NodeInputs g r = []"
    and "distinct (map fst IR)" and "distinct (map snd IR)"
  shows "let g' = SplitEdges g (map (\<lambda>(i, r). (NodeInputs g n ! i, r)) IR)
         in GetNodes g' = GetNodes g
          \<and> length (NodeInputs g' n) = length (NodeInputs g n)
          \<and> distinct (NodeInputs g' n)
          \<and> (\<forall>j < length (NodeInputs g' n). NodeInputs g' n ! j < length (GetEdges g'))
          \<and> (\<forall>j < length (NodeInputs g n).
                Feeds g' (case map_of IR j of Some r \<Rightarrow> r | None \<Rightarrow> S j) n j)
          \<and> (\<forall>(i, r) \<in> set IR. Feeds g' (S i) r 0 \<and> length (NodeInputs g' r) = 1)
          \<and> (\<forall>k s' j. k \<noteq> n \<longrightarrow> k \<notin> snd ` set IR \<longrightarrow> Feeds g s' k j \<longrightarrow> Feeds g' s' k j)
          \<and> (\<forall>k. k \<noteq> n \<longrightarrow> k \<notin> snd ` set IR \<longrightarrow> NodeInputs g' k = NodeInputs g k)"
  using assms
proof (induction IR arbitrary: g S)
  case Nil
  then show ?case by (simp add: Let_def)
next
  case (Cons ir IR)
  obtain i r where ir: "ir = (i, r)" by (cases ir)
  let ?m = "length (NodeInputs g n)"
  let ?e = "NodeInputs g n ! i"
  define g1 where "g1 = SplitEdge g ?e r"
  from Cons.prems(4) have i: "i < ?m" and rn: "r \<noteq> n" and fresh: "NodeInputs g r = []"
    by (simp_all add: ir)
  from Cons.prems(3) i have f: "Feeds g (S i) n i" by simp
  note step = SplitEdge_step [OF Cons.prems(1) Cons.prems(2) f rn fresh, folded g1_def]
  have in1: "NodeInputs g1 n = (NodeInputs g n)[i := length (GetEdges g)]" by (rule step(1))
  have len1: "length (NodeInputs g1 n) = ?m" by (simp add: in1)
  have inot: "i \<notin> fst ` set IR" and rnot: "r \<notin> snd ` set IR"
    using Cons.prems(5,6) by (auto simp: ir)
  have same: "NodeInputs g1 n ! i' = NodeInputs g n ! i'" if "(i', r') \<in> set IR" for i' r'
  proof -
    from that inot have "i' \<noteq> i" by force
    then show ?thesis by (simp add: in1)
  qed
  have list: "map (\<lambda>(i, r). (NodeInputs g n ! i, r)) IR = map (\<lambda>(i, r). (NodeInputs g1 n ! i, r)) IR"
    using same by (intro map_cong) auto
  let ?S1 = "S(i := r)"
  have feeds1: "\<forall>j < length (NodeInputs g1 n). Feeds g1 (?S1 j) n j"
  proof (intro allI impI)
    fix j assume "j < length (NodeInputs g1 n)"
    then have j: "j < ?m" by (simp add: len1)
    show "Feeds g1 (?S1 j) n j"
    proof (cases "j = i")
      case True
      then show ?thesis using step(4) by simp
    next
      case False
      then show ?thesis using step(6) [OF False] Cons.prems(3) j by simp
    qed
  qed
  have idx1: "\<forall>(i', r') \<in> set IR. i' < length (NodeInputs g1 n) \<and> r' \<noteq> n \<and> NodeInputs g1 r' = []"
  proof (intro ballI, clarify)
    fix i' r' assume m: "(i', r') \<in> set IR"
    with Cons.prems(4) have a: "i' < ?m" "r' \<noteq> n" "NodeInputs g r' = []" by auto
    from m rnot have "r' \<noteq> r" by force
    then have "NodeInputs g1 r' = NodeInputs g r'" using step(3) a(2) by simp
    then show "i' < length (NodeInputs g1 n) \<and> r' \<noteq> n \<and> NodeInputs g1 r' = []"
      using a by (simp add: len1)
  qed
  define g' where "g' = SplitEdges g1 (map (\<lambda>(i, r). (NodeInputs g1 n ! i, r)) IR)"
  have di: "distinct (map fst IR)" and dr: "distinct (map snd IR)"
    using Cons.prems(5,6) by simp_all
  from Cons.IH [OF step(8) step(9) feeds1 idx1 di dr]
  have ih: "GetNodes g' = GetNodes g1"
    "length (NodeInputs g' n) = length (NodeInputs g1 n)"
    "distinct (NodeInputs g' n)"
    "\<forall>j < length (NodeInputs g' n). NodeInputs g' n ! j < length (GetEdges g')"
    "\<forall>j < length (NodeInputs g1 n). Feeds g' (case map_of IR j of Some r \<Rightarrow> r | None \<Rightarrow> ?S1 j) n j"
    "\<forall>(i, r) \<in> set IR. Feeds g' (?S1 i) r 0 \<and> length (NodeInputs g' r) = 1"
    "\<forall>k s' j. k \<noteq> n \<longrightarrow> k \<notin> snd ` set IR \<longrightarrow> Feeds g1 s' k j \<longrightarrow> Feeds g' s' k j"
    "\<forall>k. k \<noteq> n \<longrightarrow> k \<notin> snd ` set IR \<longrightarrow> NodeInputs g' k = NodeInputs g1 k"
    unfolding g'_def Let_def by blast+
  have whole: "SplitEdges g (map (\<lambda>(i, r). (NodeInputs g n ! i, r)) (ir # IR)) = g'"
    by (simp add: ir g'_def g1_def list)
  have c1: "GetNodes g' = GetNodes g" using ih(1) by (simp add: g1_def)
  have c2: "length (NodeInputs g' n) = ?m" using ih(2) len1 by simp
  have c5: "\<forall>j < ?m. Feeds g' (case map_of (ir # IR) j of Some r \<Rightarrow> r | None \<Rightarrow> S j) n j"
  proof (intro allI impI)
    fix j assume j: "j < ?m"
    have fj: "Feeds g' (case map_of IR j of Some r \<Rightarrow> r | None \<Rightarrow> ?S1 j) n j"
      using ih(5) j len1 by simp
    show "Feeds g' (case map_of (ir # IR) j of Some r \<Rightarrow> r | None \<Rightarrow> S j) n j"
    proof (cases "j = i")
      case True
      have "map_of IR i = None" using inot by (simp add: map_of_eq_None_iff)
      then show ?thesis using fj True by (simp add: ir)
    next
      case False
      then show ?thesis using fj by (cases "map_of IR j") (simp_all add: ir)
    qed
  qed
  have c6: "\<forall>(i', r') \<in> set (ir # IR). Feeds g' (S i') r' 0 \<and> length (NodeInputs g' r') = 1"
  proof (intro ballI, clarify)
    fix i' r' assume m: "(i', r') \<in> set (ir # IR)"
    show "Feeds g' (S i') r' 0 \<and> length (NodeInputs g' r') = 1"
    proof (cases "(i', r') = (i, r)")
      case True
      have "Feeds g' (S i) r 0" using ih(7) rn rnot step(5) by blast
      moreover have "NodeInputs g' r = NodeInputs g1 r" using ih(8) rn rnot by blast
      ultimately show ?thesis using True step(2) by simp
    next
      case False
      with m have m': "(i', r') \<in> set IR" by (auto simp: ir)
      with inot have "i' \<noteq> i" by force
      then show ?thesis using ih(6) m' by auto
    qed
  qed
  have c7: "\<forall>k s' j. k \<noteq> n \<longrightarrow> k \<notin> snd ` set (ir # IR) \<longrightarrow> Feeds g s' k j \<longrightarrow> Feeds g' s' k j"
  proof (intro allI impI)
    fix k s' j assume k: "k \<noteq> n" "k \<notin> snd ` set (ir # IR)" and fk: "Feeds g s' k j"
    from k(2) have kr: "k \<noteq> r" and kn: "k \<notin> snd ` set IR" by (auto simp: ir)
    have "Feeds g1 s' k j" using step(7) [OF k(1) kr fk] .
    then show "Feeds g' s' k j" using ih(7) k(1) kn by blast
  qed
  have c8: "\<forall>k. k \<noteq> n \<longrightarrow> k \<notin> snd ` set (ir # IR) \<longrightarrow> NodeInputs g' k = NodeInputs g k"
  proof (intro allI impI)
    fix k assume k: "k \<noteq> n" "k \<notin> snd ` set (ir # IR)"
    from k(2) have kr: "k \<noteq> r" and kn: "k \<notin> snd ` set IR" by (auto simp: ir)
    have "NodeInputs g' k = NodeInputs g1 k" using ih(8) k(1) kn by blast
    also have "\<dots> = NodeInputs g k" using step(3) [OF k(1) kr] .
    finally show "NodeInputs g' k = NodeInputs g k" .
  qed
  show ?case
    unfolding Let_def whole using c1 c2 ih(3) ih(4) c5 c6 c7 c8 by blast
qed

subsection \<open>The collecting loops\<close>

lemma NewNodeIndices_cong:
  assumes "\<forall>j. i \<le> j \<and> j < i + k \<longrightarrow> sel j = sel' j"
  shows "NewNodeIndices sel i k N = NewNodeIndices sel' i k N"
  using assms by (induction sel i k N rule: NewNodeIndices.induct) auto

lemma upt_add_Suc: "[i..<i + Suc k] = i # [Suc i..<Suc i + k]"
  by (simp add: upt_conv_Cons del: upt_Suc)

lemma NewNodeIndices_snd:
  "map snd (NewNodeIndices sel i k N) = [N..<N + length (NewNodeIndices sel i k N)]"
proof (induction sel i k N rule: NewNodeIndices.induct)
  case (1 sel i N)
  then show ?case by simp
next
  case (2 sel i k N)
  show ?case
  proof (cases "sel i")
    case True
    then show ?thesis using 2(1) upt_add_Suc [of N] by (simp del: upt_Suc)
  next
    case False
    then show ?thesis using 2(2) by simp
  qed
qed

lemma NewNodeIndices_fst:
  "map fst (NewNodeIndices sel i k N) = filter sel [i..<i + k]"
proof (induction sel i k N rule: NewNodeIndices.induct)
  case (1 sel i N)
  then show ?case by simp
next
  case (2 sel i k N)
  show ?case
  proof (cases "sel i")
    case True
    then show ?thesis using 2(1) unfolding upt_add_Suc by simp
  next
    case False
    then show ?thesis using 2(2) unfolding upt_add_Suc by simp
  qed
qed

lemma NewNodeIndices_distinct:
  "distinct (map fst (NewNodeIndices sel i k N))" "distinct (map snd (NewNodeIndices sel i k N))"
  by (simp_all add: NewNodeIndices_fst NewNodeIndices_snd)

lemma NewNodeIndices_mem:
  assumes "(j, r) \<in> set (NewNodeIndices sel i k N)"
  shows "i \<le> j" "j < i + k" "sel j" "N \<le> r" "r < N + length (NewNodeIndices sel i k N)"
proof -
  from assms have "j \<in> set (map fst (NewNodeIndices sel i k N))" by force
  then have "j \<in> set (filter sel [i..<i + k])" by (simp only: NewNodeIndices_fst)
  then show "i \<le> j" "j < i + k" "sel j" by auto
  from assms have "r \<in> set (map snd (NewNodeIndices sel i k N))" by force
  then have "r \<in> set [N..<N + length (NewNodeIndices sel i k N)]"
    using NewNodeIndices_snd [of sel i k N] by simp
  then show "N \<le> r" "r < N + length (NewNodeIndices sel i k N)" by auto
qed

lemma NewNodeIndices_map_of:
  assumes "i \<le> j" "j < i + k"
  shows "sel j \<Longrightarrow> \<exists>r. map_of (NewNodeIndices sel i k N) j = Some r
                    \<and> (j, r) \<in> set (NewNodeIndices sel i k N)"
    and "\<not> sel j \<Longrightarrow> map_of (NewNodeIndices sel i k N) j = None"
proof -
  have eq: "fst ` set (NewNodeIndices sel i k N) = set (filter sel [i..<i + k])"
    using NewNodeIndices_fst [of sel i k N] by (metis set_map)
  show "\<not> sel j \<Longrightarrow> map_of (NewNodeIndices sel i k N) j = None"
    by (simp add: map_of_eq_None_iff eq)
  assume "sel j"
  then have "j \<in> fst ` set (NewNodeIndices sel i k N)" using assms by (simp add: eq)
  then obtain r where "map_of (NewNodeIndices sel i k N) j = Some r"
    by (metis map_of_eq_None_iff not_Some_eq)
  then show "\<exists>r. map_of (NewNodeIndices sel i k N) j = Some r
                    \<and> (j, r) \<in> set (NewNodeIndices sel i k N)"
    by (auto dest: map_of_SomeD)
qed

lemma CreateAndAddNode_effect:
  assumes "CreateAndAddNode g node = (g1, r)"
  shows "r = length (GetNodes g)" "GetNodes g1 = GetNodes g @ [node]" "GetEdges g1 = GetEdges g"
    "NodeInputs g1 = (NodeInputs g)(length (GetNodes g) := [])"
  using assms by (auto simp: CreateAndAddNode_def Let_def)

lemma AddConversions_collect:
  assumes "n < length (GetNodes g)"
    and "\<forall>j. i \<le> j \<and> j < i + length inputs \<longrightarrow> InputSource g n j < length (GetNodes g)"
  shows "\<exists>g'. AddConversions g n format operationId inputs i acc
            = (g', acc @ map (\<lambda>(j, r). (NodeInputs g n ! j, r))
                          (NewNodeIndices (\<lambda>j. GetInputFormat g n j \<noteq> format) i (length inputs)
                             (length (GetNodes g))))
       \<and> GetEdges g' = GetEdges g
       \<and> (\<forall>k < length (GetNodes g). NodeInputs g' k = NodeInputs g k)
       \<and> (\<forall>k. length (GetNodes g) \<le> k \<and> k < length (GetNodes g') \<longrightarrow> NodeInputs g' k = [])
       \<and> GetNodes g' = GetNodes g @
            map (\<lambda>(j, r). MakeFormatConversionNode (m_Dimensions (GetTensorInfo (inputs ! (j - i))))
                            (m_QuantizationInfo (GetTensorInfo (inputs ! (j - i)))) format
                            {operationId})
              (NewNodeIndices (\<lambda>j. GetInputFormat g n j \<noteq> format) i (length inputs)
                 (length (GetNodes g)))"
  using assms
proof (induction inputs arbitrary: g i acc)
  case Nil
  then show ?case by auto
next
  case (Cons x xs)
  let ?N = "length (GetNodes g)"
  let ?sel = "\<lambda>j. GetInputFormat g n j \<noteq> format"
  show ?case
  proof (cases "?sel i")
    case False
    have src: "\<forall>j. Suc i \<le> j \<and> j < Suc i + length xs \<longrightarrow> InputSource g n j < ?N"
      using Cons.prems(2) by simp
    from Cons.IH [OF Cons.prems(1) src, of acc]
    obtain g' where r: "AddConversions g n format operationId xs (Suc i) acc
            = (g', acc @ map (\<lambda>(j, r). (NodeInputs g n ! j, r))
                          (NewNodeIndices ?sel (Suc i) (length xs) ?N))"
      and e: "GetEdges g' = GetEdges g"
      and old: "\<forall>k < ?N. NodeInputs g' k = NodeInputs g k"
      and new: "\<forall>k. ?N \<le> k \<and> k < length (GetNodes g') \<longrightarrow> NodeInputs g' k = []"
      and nodes: "GetNodes g' = GetNodes g @
            map (\<lambda>(j, r). MakeFormatConversionNode (m_Dimensions (GetTensorInfo (xs ! (j - Suc i))))
                            (m_QuantizationInfo (GetTensorInfo (xs ! (j - Suc i)))) format
                            {operationId})
              (NewNodeIndices ?sel (Suc i) (length xs) ?N)"
      by blast
    have mk: "map (\<lambda>(j, r). MakeFormatConversionNode (m_Dimensions (GetTensorInfo (xs ! (j - Suc i))))
                            (m_QuantizationInfo (GetTensorInfo (xs ! (j - Suc i)))) format
                            {operationId})
              (NewNodeIndices ?sel (Suc i) (length xs) ?N)
        = map (\<lambda>(j, r). MakeFormatConversionNode (m_Dimensions (GetTensorInfo ((x # xs) ! (j - i))))
                            (m_QuantizationInfo (GetTensorInfo ((x # xs) ! (j - i)))) format
                            {operationId})
              (NewNodeIndices ?sel (Suc i) (length xs) ?N)"
    proof (intro map_cong refl, clarify)
      fix j r assume "(j, r) \<in> set (NewNodeIndices ?sel (Suc i) (length xs) ?N)"
      then have "Suc i \<le> j" by (rule NewNodeIndices_mem(1))
      then have "(x # xs) ! (j - i) = xs ! (j - Suc i)" by (simp add: Suc_diff_le)
      then show "MakeFormatConversionNode (m_Dimensions (GetTensorInfo (xs ! (j - Suc i))))
                            (m_QuantizationInfo (GetTensorInfo (xs ! (j - Suc i)))) format
                            {operationId}
          = MakeFormatConversionNode (m_Dimensions (GetTensorInfo ((x # xs) ! (j - i))))
                            (m_QuantizationInfo (GetTensorInfo ((x # xs) ! (j - i)))) format
                            {operationId}" by simp
    qed
    show ?thesis
      using False r e old new nodes unfolding mk by simp
  next
    case True
    let ?node = "MakeFormatConversionNode (m_Dimensions (GetTensorInfo x))
                    (m_QuantizationInfo (GetTensorInfo x)) format {operationId}"
    obtain g1 r1 where c: "CreateAndAddNode g ?node = (g1, r1)" by (cases "CreateAndAddNode g ?node")
    note eff = CreateAndAddNode_effect [OF c]
    have n1: "n < length (GetNodes g1)" using Cons.prems(1) eff(2) by simp
    have in1: "NodeInputs g1 k = NodeInputs g k" if "k < ?N" for k
      using that eff(4) by simp
    have isrc: "InputSource g1 n j = InputSource g n j" for j
      using Cons.prems(1) by (simp add: InputSource_def Node_GetInput_def eff(3) in1)
    have src: "\<forall>j. Suc i \<le> j \<and> j < Suc i + length xs \<longrightarrow> InputSource g1 n j < length (GetNodes g1)"
      using Cons.prems(2) isrc eff(2) by (simp add: less_Suc_eq)
    let ?sel1 = "\<lambda>j. GetInputFormat g1 n j \<noteq> format"
    have fmt: "GetInputFormat g1 n j = GetInputFormat g n j" if "i \<le> j" "j < i + length (x # xs)" for j
    proof -
      have "InputSource g n j < ?N" using Cons.prems(2) that by simp
      then show ?thesis
        using isrc [of j]
        by (simp add: GetInputFormat_def InputSource_def eff(2) nth_append)
    qed
    have cong: "NewNodeIndices ?sel1 (Suc i) (length xs) (Suc ?N)
        = NewNodeIndices ?sel (Suc i) (length xs) (Suc ?N)"
      by (rule NewNodeIndices_cong) (simp add: fmt)
    from Cons.IH [OF n1 src, of "acc @ [(Node_GetInput g1 n i, r1)]"]
    obtain g' where r: "AddConversions g1 n format operationId xs (Suc i) (acc @ [(Node_GetInput g1 n i, r1)])
            = (g', (acc @ [(Node_GetInput g1 n i, r1)]) @ map (\<lambda>(j, r). (NodeInputs g1 n ! j, r))
                          (NewNodeIndices ?sel1 (Suc i) (length xs) (length (GetNodes g1))))"
      and e: "GetEdges g' = GetEdges g1"
      and old: "\<forall>k < length (GetNodes g1). NodeInputs g' k = NodeInputs g1 k"
      and new: "\<forall>k. length (GetNodes g1) \<le> k \<and> k < length (GetNodes g') \<longrightarrow> NodeInputs g' k = []"
      and nodes: "GetNodes g' = GetNodes g1 @
            map (\<lambda>(j, r). MakeFormatConversionNode (m_Dimensions (GetTensorInfo (xs ! (j - Suc i))))
                            (m_QuantizationInfo (GetTensorInfo (xs ! (j - Suc i)))) format
                            {operationId})
              (NewNodeIndices ?sel1 (Suc i) (length xs) (length (GetNodes g1)))"
      by blast
    have len1: "length (GetNodes g1) = Suc ?N" using eff(2) by simp
    have mk: "map (\<lambda>(j, r). MakeFormatConversionNode (m_Dimensions (GetTensorInfo (xs ! (j - Suc i))))
                            (m_QuantizationInfo (GetTensorInfo (xs ! (j - Suc i)))) format
                            {operationId})
              (NewNodeIndices ?sel (Suc i) (length xs) (Suc ?N))
        = map (\<lambda>(j, r). MakeFormatConversionNode (m_Dimensions (GetTensorInfo ((x # xs) ! (j - i))))
                            (m_QuantizationInfo (GetTensorInfo ((x # xs) ! (j - i)))) format
                            {operationId})
              (NewNodeIndices ?sel (Suc i) (length xs) (Suc ?N))"
    proof (intro map_cong refl, clarify)
      fix j r assume "(j, r) \<in> set (NewNodeIndices ?sel (Suc i) (length xs) (Suc ?N))"
      then have "Suc i \<le> j" by (rule NewNodeIndices_mem(1))
      then have "(x # xs) ! (j - i) = xs ! (j - Suc i)" by (simp add: Suc_diff_le)
      then show "MakeFormatConversionNode (m_Dimensions (GetTensorInfo (xs ! (j - Suc i))))
                            (m_QuantizationInfo (GetTensorInfo (xs ! (j - Suc i)))) format
                            {operationId}
          = MakeFormatConversionNode (m_Dimensions (GetTensorInfo ((x # xs) ! (j - i))))
                            (m_QuantizationInfo (GetTensorInfo ((x # xs) ! (j - i)))) format
                            {operationId}" by simp
    qed
    have edge: "map (\<lambda>(j, r). (NodeInputs g1 n ! j, r)) IR = map (\<lambda>(j, r). (NodeInputs g n ! j, r)) IR" for IR :: "(nat \<times> nat) list"
      using in1 [OF Cons.prems(1)] by simp
    have a: "AddConversions g n format operationId (x # xs) i acc
            = (g', acc @ map (\<lambda>(j, r). (NodeInputs g n ! j, r))
                          (NewNodeIndices ?sel i (length (x # xs)) ?N))"
    proof -
      have "AddConversions g1 n format operationId xs (Suc i) (acc @ [(Node_GetInput g1 n i, r1)])
            = (g', (acc @ [(Node_GetInput g1 n i, r1)]) @ map (\<lambda>(j, r). (NodeInputs g n ! j, r))
                          (NewNodeIndices ?sel (Suc i) (length xs) (Suc ?N)))"
        using r by (simp only: len1 cong edge)
      then show ?thesis
        using True c by (simp add: Node_GetInput_def in1 [OF Cons.prems(1)] eff(1))
    qed
    have b: "GetEdges g' = GetEdges g" using e eff(3) by simp
    have c1: "\<forall>k < ?N. NodeInputs g' k = NodeInputs g k"
      using old in1 len1 by simp
    have c2: "\<forall>k. ?N \<le> k \<and> k < length (GetNodes g') \<longrightarrow> NodeInputs g' k = []"
    proof (intro allI impI)
      fix k assume k: "?N \<le> k \<and> k < length (GetNodes g')"
      show "NodeInputs g' k = []"
      proof (cases "k = ?N")
        case True
        then have "NodeInputs g' k = NodeInputs g1 ?N" using old len1 by simp
        then show ?thesis using eff(4) by simp
      next
        case False
        then show ?thesis using new k len1 by simp
      qed
    qed
    have d: "GetNodes g' = GetNodes g @
            map (\<lambda>(j, r). MakeFormatConversionNode (m_Dimensions (GetTensorInfo ((x # xs) ! (j - i))))
                            (m_QuantizationInfo (GetTensorInfo ((x # xs) ! (j - i)))) format
                            {operationId})
              (NewNodeIndices ?sel i (length (x # xs)) ?N)"
    proof -
      have "GetNodes g' = GetNodes g1 @
            map (\<lambda>(j, r). MakeFormatConversionNode (m_Dimensions (GetTensorInfo (xs ! (j - Suc i))))
                            (m_QuantizationInfo (GetTensorInfo (xs ! (j - Suc i)))) format
                            {operationId})
              (NewNodeIndices ?sel (Suc i) (length xs) (Suc ?N))"
        using nodes by (simp only: len1 cong)
      then show ?thesis using True by (simp add: mk eff(2))
    qed
    show ?thesis using a b c1 c2 d by blast
  qed
qed

lemma AddRequantizes_collect:
  assumes "n < length (GetNodes g)"
    and "\<forall>j. i \<le> j \<and> j < i + length inputs \<longrightarrow> InputSource g n j < length (GetNodes g)"
  shows "\<exists>g'. AddRequantizes g n outputQuantInfo format operationId inputs i acc
            = (g', acc @ map (\<lambda>(j, r). (NodeInputs g n ! j, r))
                          (NewNodeIndices (\<lambda>j. GetInputQuantizationInfo g n j \<noteq> outputQuantInfo) i (length inputs)
                             (length (GetNodes g))))
       \<and> GetEdges g' = GetEdges g
       \<and> (\<forall>k < length (GetNodes g). NodeInputs g' k = NodeInputs g k)
       \<and> (\<forall>k. length (GetNodes g) \<le> k \<and> k < length (GetNodes g') \<longrightarrow> NodeInputs g' k = [])
       \<and> GetNodes g' = GetNodes g @
            map (\<lambda>(j, r). MakeRequantizeNode (m_Dimensions (GetTensorInfo (inputs ! (j - i)))) outputQuantInfo format
                            {operationId})
              (NewNodeIndices (\<lambda>j. GetInputQuantizationInfo g n j \<noteq> outputQuantInfo) i (length inputs)
                 (length (GetNodes g)))"
  using assms
proof (induction inputs arbitrary: g i acc)
  case Nil
  then show ?case by auto
next
  case (Cons x xs)
  let ?N = "length (GetNodes g)"
  let ?sel = "\<lambda>j. GetInputQuantizationInfo g n j \<noteq> outputQuantInfo"
  show ?case
  proof (cases "?sel i")
    case False
    have src: "\<forall>j. Suc i \<le> j \<and> j < Suc i + length xs \<longrightarrow> InputSource g n j < ?N"
      using Cons.prems(2) by simp
    from Cons.IH [OF Cons.prems(1) src, of acc]
    obtain g' where r: "AddRequantizes g n outputQuantInfo format operationId xs (Suc i) acc
            = (g', acc @ map (\<lambda>(j, r). (NodeInputs g n ! j, r))
                          (NewNodeIndices ?sel (Suc i) (length xs) ?N))"
      and e: "GetEdges g' = GetEdges g"
      and old: "\<forall>k < ?N. NodeInputs g' k = NodeInputs g k"
      and new: "\<forall>k. ?N \<le> k \<and> k < length (GetNodes g') \<longrightarrow> NodeInputs g' k = []"
      and nodes: "GetNodes g' = GetNodes g @
            map (\<lambda>(j, r). MakeRequantizeNode (m_Dimensions (GetTensorInfo (xs ! (j - Suc i)))) outputQuantInfo format
                            {operationId})
              (NewNodeIndices ?sel (Suc i) (length xs) ?N)"
      by blast
    have mk: "map (\<lambda>(j, r). MakeRequantizeNode (m_Dimensions (GetTensorInfo (xs ! (j - Suc i)))) outputQuantInfo format
                            {operationId})
              (NewNodeIndices ?sel (Suc i) (length xs) ?N)
        = map (\<lambda>(j, r). MakeRequantizeNode (m_Dimensions (GetTensorInfo ((x # xs) ! (j - i)))) outputQuantInfo format
                            {operationId})
              (NewNodeIndices ?sel (Suc i) (length xs) ?N)"
    proof (intro map_cong refl, clarify)
      fix j r assume "(j, r) \<in> set (NewNodeIndices ?sel (Suc i) (length xs) ?N)"
      then have "Suc i \<le> j" by (rule NewNodeIndices_mem(1))
      then have "(x # xs) ! (j - i) = xs ! (j - Suc i)" by (simp add: Suc_diff_le)
      then show "MakeRequantizeNode (m_Dimensions (GetTensorInfo (xs ! (j - Suc i)))) outputQuantInfo format
                            {operationId}
          = MakeRequantizeNode (m_Dimensions (GetTensorInfo ((x # xs) ! (j - i)))) outputQuantInfo format
                            {operationId}" by simp
    qed
    show ?thesis
      using False r e old new nodes unfolding mk by simp
  next
    case True
    let ?node = "MakeRequantizeNode (m_Dimensions (GetTensorInfo x)) outputQuantInfo format {operationId}"
    obtain g1 r1 where c: "CreateAndAddNode g ?node = (g1, r1)" by (cases "CreateAndAddNode g ?node")
    note eff = CreateAndAddNode_effect [OF c]
    have n1: "n < length (GetNodes g1)" using Cons.prems(1) eff(2) by simp
    have in1: "NodeInputs g1 k = NodeInputs g k" if "k < ?N" for k
      using that eff(4) by simp
    have isrc: "InputSource g1 n j = InputSource g n j" for j
      using Cons.prems(1) by (simp add: InputSource_def Node_GetInput_def eff(3) in1)
    have src: "\<forall>j. Suc i \<le> j \<and> j < Suc i + length xs \<longrightarrow> InputSource g1 n j < length (GetNodes g1)"
      using Cons.prems(2) isrc eff(2) by (simp add: less_Suc_eq)
    let ?sel1 = "\<lambda>j. GetInputQuantizationInfo g1 n j \<noteq> outputQuantInfo"
    have fmt: "GetInputQuantizationInfo g1 n j = GetInputQuantizationInfo g n j" if "i \<le> j" "j < i + length (x # xs)" for j
    proof -
      have "InputSource g n j < ?N" using Cons.prems(2) that by simp
      then show ?thesis
        using isrc [of j]
        by (simp add: GetInputQuantizationInfo_def InputSource_def eff(2) nth_append)
    qed
    have cong: "NewNodeIndices ?sel1 (Suc i) (length xs) (Suc ?N)
        = NewNodeIndices ?sel (Suc i) (length xs) (Suc ?N)"
      by (rule NewNodeIndices_cong) (simp add: fmt)
    from Cons.IH [OF n1 src, of "acc @ [(Node_GetInput g1 n i, r1)]"]
    obtain g' where r: "AddRequantizes g1 n outputQuantInfo format operationId xs (Suc i) (acc @ [(Node_GetInput g1 n i, r1)])
            = (g', (acc @ [(Node_GetInput g1 n i, r1)]) @ map (\<lambda>(j, r). (NodeInputs g1 n ! j, r))
                          (NewNodeIndices ?sel1 (Suc i) (length xs) (length (GetNodes g1))))"
      and e: "GetEdges g' = GetEdges g1"
      and old: "\<forall>k < length (GetNodes g1). NodeInputs g' k = NodeInputs g1 k"
      and new: "\<forall>k. length (GetNodes g1) \<le> k \<and> k < length (GetNodes g') \<longrightarrow> NodeInputs g' k = []"
      and nodes: "GetNodes g' = GetNodes g1 @
            map (\<lambda>(j, r). MakeRequantizeNode (m_Dimensions (GetTensorInfo (xs ! (j - Suc i)))) outputQuantInfo format
                            {operationId})
              (NewNodeIndices ?sel1 (Suc i) (length xs) (length (GetNodes g1)))"
      by blast
    have len1: "length (GetNodes g1) = Suc ?N" using eff(2) by simp
    have mk: "map (\<lambda>(j, r). MakeRequantizeNode (m_Dimensions (GetTensorInfo (xs ! (j - Suc i)))) outputQuantInfo format
                            {operationId})
              (NewNodeIndices ?sel (Suc i) (length xs) (Suc ?N))
        = map (\<lambda>(j, r). MakeRequantizeNode (m_Dimensions (GetTensorInfo ((x # xs) ! (j - i)))) outputQuantInfo format
                            {operationId})
              (NewNodeIndices ?sel (Suc i) (length xs) (Suc ?N))"
    proof (intro map_cong refl, clarify)
      fix j r assume "(j, r) \<in> set (NewNodeIndices ?sel (Suc i) (length xs) (Suc ?N))"
      then have "Suc i \<le> j" by (rule NewNodeIndices_mem(1))
      then have "(x # xs) ! (j - i) = xs ! (j - Suc i)" by (simp add: Suc_diff_le)
      then show "MakeRequantizeNode (m_Dimensions (GetTensorInfo (xs ! (j - Suc i)))) outputQuantInfo format
                            {operationId}
          = MakeRequantizeNode (m_Dimensions (GetTensorInfo ((x # xs) ! (j - i)))) outputQuantInfo format
                            {operationId}" by simp
    qed
    have edge: "map (\<lambda>(j, r). (NodeInputs g1 n ! j, r)) IR = map (\<lambda>(j, r). (NodeInputs g n ! j, r)) IR" for IR :: "(nat \<times> nat) list"
      using in1 [OF Cons.prems(1)] by simp
    have a: "AddRequantizes g n outputQuantInfo format operationId (x # xs) i acc
            = (g', acc @ map (\<lambda>(j, r). (NodeInputs g n ! j, r))
                          (NewNodeIndices ?sel i (length (x # xs)) ?N))"
    proof -
      have "AddRequantizes g1 n outputQuantInfo format operationId xs (Suc i) (acc @ [(Node_GetInput g1 n i, r1)])
            = (g', (acc @ [(Node_GetInput g1 n i, r1)]) @ map (\<lambda>(j, r). (NodeInputs g n ! j, r))
                          (NewNodeIndices ?sel (Suc i) (length xs) (Suc ?N)))"
        using r by (simp only: len1 cong edge)
      then show ?thesis
        using True c by (simp add: Node_GetInput_def in1 [OF Cons.prems(1)] eff(1))
    qed
    have b: "GetEdges g' = GetEdges g" using e eff(3) by simp
    have c1: "\<forall>k < ?N. NodeInputs g' k = NodeInputs g k"
      using old in1 len1 by simp
    have c2: "\<forall>k. ?N \<le> k \<and> k < length (GetNodes g') \<longrightarrow> NodeInputs g' k = []"
    proof (intro allI impI)
      fix k assume k: "?N \<le> k \<and> k < length (GetNodes g')"
      show "NodeInputs g' k = []"
      proof (cases "k = ?N")
        case True
        then have "NodeInputs g' k = NodeInputs g1 ?N" using old len1 by simp
        then show ?thesis using eff(4) by simp
      next
        case False
        then show ?thesis using new k len1 by simp
      qed
    qed
    have d: "GetNodes g' = GetNodes g @
            map (\<lambda>(j, r). MakeRequantizeNode (m_Dimensions (GetTensorInfo ((x # xs) ! (j - i)))) outputQuantInfo format
                            {operationId})
              (NewNodeIndices ?sel i (length (x # xs)) ?N)"
    proof -
      have "GetNodes g' = GetNodes g1 @
            map (\<lambda>(j, r). MakeRequantizeNode (m_Dimensions (GetTensorInfo (xs ! (j - Suc i)))) outputQuantInfo format
                            {operationId})
              (NewNodeIndices ?sel (Suc i) (length xs) (Suc ?N))"
        using nodes by (simp only: len1 cong)
      then show ?thesis using True by (simp add: mk eff(2))
    qed
    show ?thesis using a b c1 c2 d by blast
  qed
qed

subsection \<open>Format and connection of the concat node\<close>

lemma word_mod_eq_0_iff_dvd:
  fixes a b :: u32
  shows "a mod b = 0 \<longleftrightarrow> unat b dvd unat a"
proof -
  have "a mod b = 0 \<longleftrightarrow> unat (a mod b) = 0" by (simp add: unat_eq_zero)
  also have "\<dots> \<longleftrightarrow> unat a mod unat b = 0" by (simp add: unat_mod)
  also have "\<dots> \<longleftrightarrow> unat b dvd unat a" by (simp add: dvd_eq_mod_eq_0)
  finally show ?thesis .
qed

lemma ConcatenationFormat_Some:
  assumes "axis < 4" and "dim brickGroupShape axis \<noteq> 0"
  shows "ConcatenationFormat brickGroupShape axis inputs =
           Some (if \<forall>input\<in>set inputs.
                      unat (dim brickGroupShape axis) dvd unat (dim (m_Dimensions (GetTensorInfo input)) axis)
                 then CNHWCB else CNHWC)"
  using assms by (induction inputs) (auto simp: word_mod_eq_0_iff_dvd)

lemma Connect_effect:
  "GetNodes (Connect g s n) = GetNodes g"
  "GetEdges (Connect g s n) = GetEdges g @ [\<lparr>GetSource = s, GetDestination = n\<rparr>]"
  "NodeInputs (Connect g s n) = (NodeInputs g)(n := NodeInputs g n @ [length (GetEdges g)])"
  by (simp_all add: Connect_def Let_def)

lemma ConnectInputs_edges:
  assumes "\<forall>operand\<in>set operands. m_OperandToNode c (OperandKey operand) \<noteq> None"
  shows "\<exists>c'. ConnectInputs c operands n = Inr c'
           \<and> GetNodes (m_Graph c') = GetNodes (m_Graph c)
           \<and> GetEdges (m_Graph c') = GetEdges (m_Graph c) @
                map (\<lambda>operand. \<lparr>GetSource = the (m_OperandToNode c (OperandKey operand)),
                                GetDestination = n\<rparr>) operands
           \<and> NodeInputs (m_Graph c') n = NodeInputs (m_Graph c) n @
                [length (GetEdges (m_Graph c))..<length (GetEdges (m_Graph c)) + length operands]
           \<and> (\<forall>k. k \<noteq> n \<longrightarrow> NodeInputs (m_Graph c') k = NodeInputs (m_Graph c) k)
           \<and> m_OperandToNode c' = m_OperandToNode c
           \<and> m_EstimationMode c' = m_EstimationMode c
           \<and> m_Capabilities c' = m_Capabilities c"
  using assms
proof (induction operands arbitrary: c)
  case Nil
  then show ?case by simp
next
  case (Cons operand operands)
  then obtain p where p: "m_OperandToNode c (OperandKey operand) = Some p" by auto
  define c1 where "c1 = c\<lparr>m_Graph := Connect (m_Graph c) p n\<rparr>"
  have b1: "\<forall>operand\<in>set operands. m_OperandToNode c1 (OperandKey operand) \<noteq> None"
    using Cons.prems by (simp add: c1_def)
  from Cons.IH [OF b1] obtain c' where
    r: "ConnectInputs c1 operands n = Inr c'"
    and nodes: "GetNodes (m_Graph c') = GetNodes (m_Graph c1)"
    and edges: "GetEdges (m_Graph c') = GetEdges (m_Graph c1) @
                map (\<lambda>operand. \<lparr>GetSource = the (m_OperandToNode c1 (OperandKey operand)),
                                GetDestination = n\<rparr>) operands"
    and ins: "NodeInputs (m_Graph c') n = NodeInputs (m_Graph c1) n @
                [length (GetEdges (m_Graph c1))..<length (GetEdges (m_Graph c1)) + length operands]"
    and others: "\<forall>k. k \<noteq> n \<longrightarrow> NodeInputs (m_Graph c') k = NodeInputs (m_Graph c1) k"
    and rest: "m_OperandToNode c' = m_OperandToNode c1" "m_EstimationMode c' = m_EstimationMode c1"
      "m_Capabilities c' = m_Capabilities c1"
    by blast
  have g1: "m_Graph c1 = Connect (m_Graph c) p n" by (simp add: c1_def)
  have "ConnectInputs c (operand # operands) n = Inr c'"
    using p r by (simp add: c1_def)
  moreover have "GetNodes (m_Graph c') = GetNodes (m_Graph c)"
    using nodes by (simp add: g1 Connect_effect)
  moreover have "GetEdges (m_Graph c') = GetEdges (m_Graph c) @
                map (\<lambda>operand. \<lparr>GetSource = the (m_OperandToNode c (OperandKey operand)),
                                GetDestination = n\<rparr>) (operand # operands)"
    using edges p by (simp add: g1 Connect_effect c1_def)
  moreover have "NodeInputs (m_Graph c') n = NodeInputs (m_Graph c) n @
                [length (GetEdges (m_Graph c))..<length (GetEdges (m_Graph c)) + length (operand # operands)]"
    using ins upt_add_Suc [of "length (GetEdges (m_Graph c))" "length operands"]
    by (simp add: g1 Connect_effect del: upt_Suc)
  moreover have "\<forall>k. k \<noteq> n \<longrightarrow> NodeInputs (m_Graph c') k = NodeInputs (m_Graph c) k"
    using others by (simp add: g1 Connect_effect)
  moreover have "m_OperandToNode c' = m_OperandToNode c" "m_EstimationMode c' = m_EstimationMode c"
      "m_Capabilities c' = m_Capabilities c"
    using rest by (simp_all add: c1_def)
  ultimately show ?case by blast
qed

lemma Feeds_transfer:
  assumes "GetEdges g' = GetEdges g" and "NodeInputs g' k = NodeInputs g k"
  shows "Feeds g' s k j \<longleftrightarrow> Feeds g s k j"
  using assms by (simp add: Feeds_def)

lemma Feeds_source:
  assumes "Feeds g s n i"
  shows "InputSource g n i = s"
    and "GetInputFormat g n i = NodeFormat (GetNodes g ! s)"
    and "GetInputQuantizationInfo g n i = NodeQuantizationInfo (GetNodes g ! s)"
  using assms
  by (simp_all add: Feeds_def InputSource_def GetInputFormat_def GetInputQuantizationInfo_def
      Node_GetInput_def)

lemma NewNodeIndices_nth_node:
  assumes "length xs = N" and "(j, r) \<in> set (NewNodeIndices sel i k N)"
  shows "(xs @ map f (NewNodeIndices sel i k N)) ! r = f (j, r)"
proof -
  let ?IR = "NewNodeIndices sel i k N"
  from assms(2) obtain t where t: "t < length ?IR" "?IR ! t = (j, r)"
    by (auto simp: in_set_conv_nth)
  have "map snd ?IR ! t = [N..<N + length ?IR] ! t"
    using NewNodeIndices_snd [of sel i k N] by simp
  then have "r = N + t" using t by simp
  then show ?thesis using t assms(1) by (simp add: nth_append)
qed

subsection \<open>The rule\<close>

text \<open>
  Claim C6. For a supported concatenation along axis \<open>a\<close> the rule chooses NHWCB exactly when
  the extent along \<open>a\<close> of every input is a multiple of the extent along \<open>a\<close> of the brick
  group, and NHWC otherwise; the concat node has that format. A format conversion node is spliced
  into exactly those input edges whose producer has another format, and a requantize node, to the
  quantization of the output, into exactly those whose input quantization (that of the conversion
  node where one was spliced in, of the producer otherwise) differs from the output's. So the
  \<open>i\<close>-th input of the concat node is fed by the chain producer, conversion (if any), requantize
  (if any), and no other node is created. Each pass first collects its edges and nodes and only
  then splits the edges.
\<close>

theorem Visit_Concatenation_splices:
  assumes supported:
      "IsConcatenationSupported (map GetTensorInfo (GetInputs concatenation))
         (GetConcatenationInfo concatenation) = Supported"
    and noshare: "m_EstimationMode c
         \<or> (\<forall>it\<in>set (GetInputs concatenation). length (GetConsumers it) \<le> 1)"
    and axis: "unat (m_Axis (GetConcatenationInfo concatenation)) < 4"
    and brick: "dim (GetBrickGroupShape (m_Capabilities c))
                  (unat (m_Axis (GetConcatenationInfo concatenation))) \<noteq> 0"
    and outs: "length (GetOutputs concatenation) = 1"
    and bound: "\<forall>operand\<in>set (GetInputs concatenation).
                  \<exists>producer. m_OperandToNode c (OperandKey operand) = Some producer
                           \<and> producer < length (GetNodes (m_Graph c))"
  shows "\<exists>c'. Visit_Concatenation IsConcatenationSupported c concatenation = Inr c'
    \<and> (let g = m_Graph c; g' = m_Graph c';
            n = length (GetNodes g);
            m = length (GetInputs concatenation);
            axis = unat (m_Axis (GetConcatenationInfo concatenation));
            format =
              (if \<forall>input\<in>set (GetInputs concatenation).
                    unat (dim (GetBrickGroupShape (m_Capabilities c)) axis)
                      dvd unat (dim (m_Dimensions (GetTensorInfo input)) axis)
               then CNHWCB else CNHWC);
            outputQuantInfo = m_QuantizationInfo (GetTensorInfo (GetOutput concatenation 0));
            producer = (\<lambda>i. the (m_OperandToNode c (OperandKey (GetInput concatenation i))));
            converted = (\<lambda>i. NodeFormat (GetNodes g ! producer i) \<noteq> format);
            inputQuantInfo =
              (\<lambda>i. if converted i
                   then m_QuantizationInfo (GetTensorInfo (GetInput concatenation i))
                   else NodeQuantizationInfo (GetNodes g ! producer i));
            requantized = (\<lambda>i. inputQuantInfo i \<noteq> outputQuantInfo)
        in take n (GetNodes g') = GetNodes g
         \<and> GetNodes g' ! n =
              MakeConcatNode (m_Dimensions (GetTensorInfo (GetOutput concatenation 0)))
                (m_OutputQuantizationInfo (GetConcatenationInfo concatenation)) format
                (m_Axis (GetConcatenationInfo concatenation)) {GetId concatenation}
         \<and> m_OperandToNode c' (OperandKey (GetOutput concatenation 0)) = Some n
         \<and> length (NodeInputs g' n) = m
         \<and> length (GetNodes g')
              = Suc n + length (filter converted [0..<m]) + length (filter requantized [0..<m])
         \<and> (\<forall>i < m. \<exists>s1 s2.
                Feeds g' s1 n i
              \<and> (if requantized i
                  then n < s1 \<and> s1 < length (GetNodes g')
                     \<and> GetNodes g' ! s1 =
                          MakeRequantizeNode (m_Dimensions (GetTensorInfo (GetInput concatenation i)))
                            outputQuantInfo format {GetId concatenation}
                     \<and> length (NodeInputs g' s1) = 1 \<and> Feeds g' s2 s1 0
                  else s1 = s2)
              \<and> (if converted i
                  then n < s2 \<and> s2 < length (GetNodes g')
                     \<and> GetNodes g' ! s2 =
                          MakeFormatConversionNode
                            (m_Dimensions (GetTensorInfo (GetInput concatenation i)))
                            (m_QuantizationInfo (GetTensorInfo (GetInput concatenation i)))
                            format {GetId concatenation}
                     \<and> length (NodeInputs g' s2) = 1 \<and> Feeds g' (producer i) s2 0
                  else s2 = producer i)))"
proof -
  let ?ops = "GetInputs concatenation"
  let ?m = "length ?ops"
  let ?info = "GetConcatenationInfo concatenation"
  let ?axis = "unat (m_Axis ?info)"
  let ?bg = "GetBrickGroupShape (m_Capabilities c)"
  let ?id = "GetId concatenation"
  let ?outQ = "m_QuantizationInfo (GetTensorInfo (GetOutput concatenation 0))"
  let ?g0 = "m_Graph c"
  let ?n = "length (GetNodes ?g0)"
  define fmt where "fmt =
    (if \<forall>input\<in>set ?ops. unat (dim ?bg ?axis) dvd unat (dim (m_Dimensions (GetTensorInfo input)) ?axis)
     then CNHWCB else CNHWC)"
  define p where "p = (\<lambda>i. the (m_OperandToNode c (OperandKey (GetInput concatenation i))))"
  define conv where "conv = (\<lambda>i. NodeFormat (GetNodes ?g0 ! p i) \<noteq> fmt)"
  define inq where "inq = (\<lambda>i. if conv i then m_QuantizationInfo (GetTensorInfo (GetInput concatenation i))
                                else NodeQuantizationInfo (GetNodes ?g0 ! p i))"
  define req where "req = (\<lambda>i. inq i \<noteq> ?outQ)"
  let ?cn = "MakeConcatNode (m_Dimensions (GetTensorInfo (GetOutput concatenation 0)))
               (m_OutputQuantizationInfo ?info) fmt (m_Axis ?info) {?id}"
  have fmt: "ConcatenationFormat ?bg ?axis ?ops = Some fmt"
    unfolding fmt_def by (rule ConcatenationFormat_Some [OF axis brick])
  have nothrow: "\<not> SharedInputThrows (m_EstimationMode c) ?ops"
    using noshare by (auto simp: SharedInputThrows_iff)
  have outs': "GetOutputs concatenation \<noteq> []" using outs by auto
  have pb: "m_OperandToNode c (OperandKey (?ops ! i)) = Some (p i) \<and> p i < ?n" if "i < ?m" for i
  proof -
    from that have "?ops ! i \<in> set ?ops" by simp
    with bound obtain pr where "m_OperandToNode c (OperandKey (?ops ! i)) = Some pr" "pr < ?n"
      by blast
    then show ?thesis by (simp add: p_def GetInput_def)
  qed
  obtain g1 r where cr0: "CreateAndAddNode ?g0 ?cn = (g1, r)" by (cases "CreateAndAddNode ?g0 ?cn")
  note e1 = CreateAndAddNode_effect [OF cr0]
  have cr: "CreateAndAddNode ?g0 ?cn = (g1, ?n)" using cr0 e1(1) by simp
  have b1: "\<forall>operand\<in>set ?ops. m_OperandToNode (c\<lparr>m_Graph := g1\<rparr>) (OperandKey operand) \<noteq> None"
    using bound by auto
  from ConnectInputs_edges [OF b1, of ?n] obtain cA where
    cA: "ConnectInputs (c\<lparr>m_Graph := g1\<rparr>) ?ops ?n = Inr cA"
    and nodesA: "GetNodes (m_Graph cA) = GetNodes g1"
    and edgesA: "GetEdges (m_Graph cA) = GetEdges g1 @
                map (\<lambda>operand. \<lparr>GetSource = the (m_OperandToNode c (OperandKey operand)),
                                GetDestination = ?n\<rparr>) ?ops"
    and insA: "NodeInputs (m_Graph cA) ?n = NodeInputs g1 ?n @
                [length (GetEdges g1)..<length (GetEdges g1) + ?m]"
    and mapA: "m_OperandToNode cA = m_OperandToNode c"
    by auto
  define c1 where "c1 = cA\<lparr>m_OperandToNode :=
      (m_OperandToNode cA)(OperandKey (GetOutput concatenation 0) \<mapsto> ?n)\<rparr>"
  have conn: "ConnectNode (c\<lparr>m_Graph := g1\<rparr>) concatenation ?n = Inr c1"
    using outs cA by (simp add: ConnectNode_def ConnectNodeChain_def c1_def)
  define gA where "gA = m_Graph c1"
  have gA: "gA = m_Graph cA" by (simp add: gA_def c1_def)
  let ?E0 = "length (GetEdges ?g0)"
  have nodes_gA: "GetNodes gA = GetNodes ?g0 @ [?cn]" using nodesA e1(2) by (simp add: gA)
  have ins_gA: "NodeInputs gA ?n = [?E0..<?E0 + ?m]" using insA e1(3,4) by (simp add: gA)
  have len_edges_gA: "length (GetEdges gA) = ?E0 + ?m" using edgesA e1(3) by (simp add: gA)
  have feedsA: "Feeds gA (p j) ?n j" if "j < ?m" for j
  proof -
    have "GetEdges gA ! (?E0 + j) = \<lparr>GetSource = p j, GetDestination = ?n\<rparr>"
      using that edgesA e1(3) by (simp add: gA nth_append p_def GetInput_def)
    then show ?thesis using that by (simp add: Feeds_def ins_gA len_edges_gA)
  qed
  have n_gA: "?n < length (GetNodes gA)" by (simp add: nodes_gA)
  let ?sel1 = "\<lambda>j. GetInputFormat gA ?n j \<noteq> fmt"
  have srcA: "\<forall>j. 0 \<le> j \<and> j < 0 + ?m \<longrightarrow> InputSource gA ?n j < length (GetNodes gA)"
  proof (intro allI impI)
    fix j assume "0 \<le> j \<and> j < 0 + ?m"
    then have j: "j < ?m" by simp
    have "InputSource gA ?n j = p j" by (rule Feeds_source(1) [OF feedsA [OF j]])
    then show "InputSource gA ?n j < length (GetNodes gA)"
      using pb [OF j] by (simp add: nodes_gA)
  qed
  define IR1 where "IR1 = NewNodeIndices ?sel1 0 ?m (length (GetNodes gA))"
  define mk1 where "mk1 = (\<lambda>(j :: nat, r :: nat).
      MakeFormatConversionNode (m_Dimensions (GetTensorInfo (?ops ! (j - 0))))
        (m_QuantizationInfo (GetTensorInfo (?ops ! (j - 0)))) fmt {?id})"
  from AddConversions_collect [OF n_gA srcA, of fmt ?id "[]"] obtain g2 where
    add1: "AddConversions gA ?n fmt ?id ?ops 0 [] = (g2, map (\<lambda>(j, r). (NodeInputs gA ?n ! j, r)) IR1)"
    and edges2: "GetEdges g2 = GetEdges gA"
    and old2: "\<forall>k < length (GetNodes gA). NodeInputs g2 k = NodeInputs gA k"
    and new2: "\<forall>k. length (GetNodes gA) \<le> k \<and> k < length (GetNodes g2) \<longrightarrow> NodeInputs g2 k = []"
    and nodes2: "GetNodes g2 = GetNodes gA @ map mk1 IR1"
    unfolding IR1_def mk1_def by auto
  have sel1: "?sel1 j = conv j" if "j < ?m" for j
    using Feeds_source(2) [OF feedsA [OF that]] pb [OF that]
    by (simp add: conv_def nodes_gA nth_append)
  have IR1_conv: "IR1 = NewNodeIndices conv 0 ?m (Suc ?n)"
    unfolding IR1_def using sel1 by (simp add: nodes_gA NewNodeIndices_cong)
  have ins2: "NodeInputs g2 ?n = NodeInputs gA ?n" using old2 n_gA by simp
  have feeds2: "\<forall>j < length (NodeInputs g2 ?n). Feeds g2 (p j) ?n j"
    using feedsA by (simp add: Feeds_transfer [OF edges2 ins2] ins2 ins_gA)
  have dist2: "distinct (NodeInputs g2 ?n)" by (simp add: ins2 ins_gA)
  have valid2: "\<forall>j < length (NodeInputs g2 ?n). NodeInputs g2 ?n ! j < length (GetEdges g2)"
    by (simp add: ins2 ins_gA edges2 len_edges_gA)
  have len2: "length (GetNodes g2) = Suc ?n + length IR1" by (simp add: nodes2 nodes_gA)
  have mem1: "i < ?m \<and> conv i \<and> Suc ?n \<le> r \<and> r < Suc ?n + length IR1" if "(i, r) \<in> set IR1" for i r
    using NewNodeIndices_mem [OF that [unfolded IR1_conv]] by (simp add: IR1_conv)
  have idx1: "\<forall>(i, r) \<in> set IR1. i < length (NodeInputs g2 ?n) \<and> r \<noteq> ?n \<and> NodeInputs g2 r = []"
  proof (intro ballI, clarify)
    fix i r assume m: "(i, r) \<in> set IR1"
    note a = mem1 [OF m]
    have "NodeInputs g2 r = []" using new2 a by (simp add: len2 nodes_gA)
    then show "i < length (NodeInputs g2 ?n) \<and> r \<noteq> ?n \<and> NodeInputs g2 r = []"
      using a by (simp add: ins2 ins_gA)
  qed
  have di1: "distinct (map fst IR1)" and dr1: "distinct (map snd IR1)"
    unfolding IR1_def by (rule NewNodeIndices_distinct)+
  define g3 where "g3 = SplitEdges g2 (map (\<lambda>(i, r). (NodeInputs g2 ?n ! i, r)) IR1)"
  define S1 where "S1 = (\<lambda>j. case map_of IR1 j of Some r \<Rightarrow> r | None \<Rightarrow> p j)"
  from SplitEdges_pass [OF dist2 valid2 feeds2 idx1 di1 dr1]
  have nodes3: "GetNodes g3 = GetNodes g2"
    and len3: "length (NodeInputs g3 ?n) = ?m"
    and dist3: "distinct (NodeInputs g3 ?n)"
    and valid3: "\<forall>j < length (NodeInputs g3 ?n). NodeInputs g3 ?n ! j < length (GetEdges g3)"
    and feeds3: "\<forall>j < ?m. Feeds g3 (S1 j) ?n j"
    and convs3: "\<forall>(i, r) \<in> set IR1. Feeds g3 (p i) r 0 \<and> length (NodeInputs g3 r) = 1"
    unfolding g3_def [symmetric] Let_def S1_def by (simp_all add: ins2 ins_gA)
  have g3_eq: "g3 = SplitEdges g2 (map (\<lambda>(j, r). (NodeInputs gA ?n ! j, r)) IR1)"
    by (simp add: g3_def ins2)
  have S1_conv: "conv j \<Longrightarrow> (j, S1 j) \<in> set IR1" and S1_direct: "\<not> conv j \<Longrightarrow> S1 j = p j"
    if "j < ?m" for j
  proof -
    have r: "0 \<le> j" "j < 0 + ?m" using that by simp_all
    show "conv j \<Longrightarrow> (j, S1 j) \<in> set IR1"
      using NewNodeIndices_map_of(1) [OF r, of conv "Suc ?n"] by (auto simp: S1_def IR1_conv)
    show "\<not> conv j \<Longrightarrow> S1 j = p j"
      using NewNodeIndices_map_of(2) [OF r, of conv "Suc ?n"] by (simp add: S1_def IR1_conv)
  qed
  have node1: "GetNodes g2 ! r = mk1 (i, r)" if "(i, r) \<in> set IR1" for i r
    unfolding nodes2 using that unfolding IR1_def
    by (intro NewNodeIndices_nth_node) simp_all
  have S1_lt: "S1 j < length (GetNodes g3)" if "j < ?m" for j
  proof (cases "conv j")
    case True
    from mem1 [OF S1_conv [OF that True]] show ?thesis by (simp add: nodes3 len2)
  next
    case False
    then show ?thesis using S1_direct [OF that] pb [OF that] by (simp add: nodes3 len2)
  qed
  have n_g3: "?n < length (GetNodes g3)" by (simp add: nodes3 len2)
  let ?sel2 = "\<lambda>j. GetInputQuantizationInfo g3 ?n j \<noteq> ?outQ"
  have src3: "\<forall>j. 0 \<le> j \<and> j < 0 + ?m \<longrightarrow> InputSource g3 ?n j < length (GetNodes g3)"
  proof (intro allI impI)
    fix j assume "0 \<le> j \<and> j < 0 + ?m"
    then have j: "j < ?m" by simp
    have "Feeds g3 (S1 j) ?n j" using feeds3 j by simp
    then have "InputSource g3 ?n j = S1 j" by (rule Feeds_source(1))
    then show "InputSource g3 ?n j < length (GetNodes g3)"
      using S1_lt [OF j] by simp
  qed
  define IR2 where "IR2 = NewNodeIndices ?sel2 0 ?m (length (GetNodes g3))"
  define mk2 where "mk2 = (\<lambda>(j :: nat, r :: nat).
      MakeRequantizeNode (m_Dimensions (GetTensorInfo (?ops ! (j - 0)))) ?outQ fmt {?id})"
  from AddRequantizes_collect [OF n_g3 src3, of ?outQ fmt ?id "[]"] obtain g4 where
    add2: "AddRequantizes g3 ?n ?outQ fmt ?id ?ops 0 [] = (g4, map (\<lambda>(j, r). (NodeInputs g3 ?n ! j, r)) IR2)"
    and edges4: "GetEdges g4 = GetEdges g3"
    and old4: "\<forall>k < length (GetNodes g3). NodeInputs g4 k = NodeInputs g3 k"
    and new4: "\<forall>k. length (GetNodes g3) \<le> k \<and> k < length (GetNodes g4) \<longrightarrow> NodeInputs g4 k = []"
    and nodes4: "GetNodes g4 = GetNodes g3 @ map mk2 IR2"
    unfolding IR2_def mk2_def by auto
  have quant3: "NodeQuantizationInfo (GetNodes g3 ! S1 j) = inq j" if "j < ?m" for j
  proof (cases "conv j")
    case True
    have "GetNodes g3 ! S1 j = mk1 (j, S1 j)"
      using node1 [OF S1_conv [OF that True]] by (simp add: nodes3)
    then show ?thesis using True
      by (simp add: mk1_def MakeFormatConversionNode_def inq_def GetInput_def)
  next
    case False
    have "GetNodes g3 ! S1 j = GetNodes ?g0 ! p j"
      using S1_direct [OF that False] pb [OF that] by (simp add: nodes3 nodes2 nodes_gA nth_append)
    then show ?thesis using False by (simp add: inq_def)
  qed
  have sel2: "?sel2 j = req j" if "j < ?m" for j
    using Feeds_source(3) [of g3 "S1 j" ?n j] feeds3 that quant3 [OF that]
    by (simp add: req_def)
  have IR2_req: "IR2 = NewNodeIndices req 0 ?m (length (GetNodes g3))"
    unfolding IR2_def using sel2 by (simp add: NewNodeIndices_cong)
  have ins4: "NodeInputs g4 ?n = NodeInputs g3 ?n" using old4 n_g3 by simp
  have feeds4: "\<forall>j < length (NodeInputs g4 ?n). Feeds g4 (S1 j) ?n j"
    using feeds3 by (simp add: Feeds_transfer [OF edges4 ins4] ins4 len3)
  have dist4: "distinct (NodeInputs g4 ?n)" using dist3 by (simp add: ins4)
  have valid4: "\<forall>j < length (NodeInputs g4 ?n). NodeInputs g4 ?n ! j < length (GetEdges g4)"
    using valid3 by (simp add: ins4 edges4)
  have len4: "length (GetNodes g4) = length (GetNodes g3) + length IR2" by (simp add: nodes4)
  have mem2: "i < ?m \<and> req i \<and> length (GetNodes g3) \<le> r \<and> r < length (GetNodes g3) + length IR2"
    if "(i, r) \<in> set IR2" for i r
    using NewNodeIndices_mem [OF that [unfolded IR2_req]] by (simp add: IR2_req)
  have idx2: "\<forall>(i, r) \<in> set IR2. i < length (NodeInputs g4 ?n) \<and> r \<noteq> ?n \<and> NodeInputs g4 r = []"
  proof (intro ballI, clarify)
    fix i r assume m: "(i, r) \<in> set IR2"
    note a = mem2 [OF m]
    have "NodeInputs g4 r = []" using new4 a by (simp add: len4)
    moreover have "r \<noteq> ?n" using a n_g3 by simp
    ultimately show "i < length (NodeInputs g4 ?n) \<and> r \<noteq> ?n \<and> NodeInputs g4 r = []"
      using a by (simp add: ins4 len3)
  qed
  have di2: "distinct (map fst IR2)" and dr2: "distinct (map snd IR2)"
    unfolding IR2_def by (rule NewNodeIndices_distinct)+
  define g5 where "g5 = SplitEdges g4 (map (\<lambda>(i, r). (NodeInputs g4 ?n ! i, r)) IR2)"
  define S2 where "S2 = (\<lambda>j. case map_of IR2 j of Some r \<Rightarrow> r | None \<Rightarrow> S1 j)"
  from SplitEdges_pass [OF dist4 valid4 feeds4 idx2 di2 dr2]
  have nodes5: "GetNodes g5 = GetNodes g4"
    and len5: "length (NodeInputs g5 ?n) = ?m"
    and feeds5: "\<forall>j < ?m. Feeds g5 (S2 j) ?n j"
    and reqs5: "\<forall>(i, r) \<in> set IR2. Feeds g5 (S1 i) r 0 \<and> length (NodeInputs g5 r) = 1"
    and keep5: "\<forall>k s' j. k \<noteq> ?n \<longrightarrow> k \<notin> snd ` set IR2 \<longrightarrow> Feeds g4 s' k j \<longrightarrow> Feeds g5 s' k j"
    and same5: "\<forall>k. k \<noteq> ?n \<longrightarrow> k \<notin> snd ` set IR2 \<longrightarrow> NodeInputs g5 k = NodeInputs g4 k"
    unfolding g5_def [symmetric] Let_def S2_def by (simp_all add: ins4 len3)
  have g5_eq: "g5 = SplitEdges g4 (map (\<lambda>(j, r). (NodeInputs g3 ?n ! j, r)) IR2)"
    by (simp add: g5_def ins4)
  have S2_req: "req j \<Longrightarrow> (j, S2 j) \<in> set IR2" and S2_direct: "\<not> req j \<Longrightarrow> S2 j = S1 j"
    if "j < ?m" for j
  proof -
    have r: "0 \<le> j" "j < 0 + ?m" using that by simp_all
    show "req j \<Longrightarrow> (j, S2 j) \<in> set IR2"
      using NewNodeIndices_map_of(1) [OF r, of req "length (GetNodes g3)"]
      by (auto simp: S2_def IR2_req)
    show "\<not> req j \<Longrightarrow> S2 j = S1 j"
      using NewNodeIndices_map_of(2) [OF r, of req "length (GetNodes g3)"]
      by (simp add: S2_def IR2_req)
  qed
  have node2: "GetNodes g4 ! r = mk2 (i, r)" if "(i, r) \<in> set IR2" for i r
    unfolding nodes4 using that unfolding IR2_def
    by (intro NewNodeIndices_nth_node) simp_all
  define c' where "c' = c1\<lparr>m_Graph := g5\<rparr>"
  have visit: "Visit_Concatenation IsConcatenationSupported c concatenation = Inr c'"
    using supported nothrow fmt outs' cr conn add1 add2
    by (simp add: Visit_Concatenation_def Let_def c'_def gA_def [symmetric] g3_eq [symmetric]
        g5_eq [symmetric])
  have g': "m_Graph c' = g5" by (simp add: c'_def)
  have nodes5_all: "GetNodes g5 = GetNodes ?g0 @ [?cn] @ map mk1 IR1 @ map mk2 IR2"
    by (simp add: nodes5 nodes4 nodes3 nodes2 nodes_gA)
  have t1: "take ?n (GetNodes g5) = GetNodes ?g0" by (simp add: nodes5_all)
  have t2: "GetNodes g5 ! ?n = ?cn" by (simp add: nodes5_all nth_append)
  have t3: "m_OperandToNode c' (OperandKey (GetOutput concatenation 0)) = Some ?n"
    by (simp add: c'_def c1_def)
  have cnt1: "length IR1 = length (filter conv [0..<?m])"
    using NewNodeIndices_fst [of conv 0 ?m "Suc ?n"] unfolding IR1_conv [symmetric]
    by (metis length_map add_0)
  have cnt2: "length IR2 = length (filter req [0..<?m])"
    using NewNodeIndices_fst [of req 0 ?m "length (GetNodes g3)"] unfolding IR2_req [symmetric]
    by (metis length_map add_0)
  have t5: "length (GetNodes g5) = Suc ?n + length (filter conv [0..<?m]) + length (filter req [0..<?m])"
    by (simp add: nodes5_all cnt1 cnt2)
  have per: "\<forall>i < ?m. \<exists>s1 s2. Feeds g5 s1 ?n i
      \<and> (if req i
          then ?n < s1 \<and> s1 < length (GetNodes g5)
             \<and> GetNodes g5 ! s1 = MakeRequantizeNode (m_Dimensions (GetTensorInfo (GetInput concatenation i)))
                                    ?outQ fmt {?id}
             \<and> length (NodeInputs g5 s1) = 1 \<and> Feeds g5 s2 s1 0
          else s1 = s2)
      \<and> (if conv i
          then ?n < s2 \<and> s2 < length (GetNodes g5)
             \<and> GetNodes g5 ! s2 = MakeFormatConversionNode
                                    (m_Dimensions (GetTensorInfo (GetInput concatenation i)))
                                    (m_QuantizationInfo (GetTensorInfo (GetInput concatenation i)))
                                    fmt {?id}
             \<and> length (NodeInputs g5 s2) = 1 \<and> Feeds g5 (p i) s2 0
          else s2 = p i)"
    (is "\<forall>i < ?m. ?P i")
  proof (intro allI impI)
    fix i assume i: "i < ?m"
    have f: "Feeds g5 (S2 i) ?n i" using feeds5 i by simp
    have A: "if req i
          then ?n < S2 i \<and> S2 i < length (GetNodes g5)
             \<and> GetNodes g5 ! S2 i = MakeRequantizeNode (m_Dimensions (GetTensorInfo (GetInput concatenation i)))
                                    ?outQ fmt {?id}
             \<and> length (NodeInputs g5 (S2 i)) = 1 \<and> Feeds g5 (S1 i) (S2 i) 0
          else S2 i = S1 i"
    proof (cases "req i")
      case True
      note m = S2_req [OF i True]
      note a = mem2 [OF m]
      have "GetNodes g5 ! S2 i = mk2 (i, S2 i)" using node2 [OF m] by (simp add: nodes5)
      then have "GetNodes g5 ! S2 i = MakeRequantizeNode (m_Dimensions (GetTensorInfo (GetInput concatenation i)))
                                    ?outQ fmt {?id}"
        by (simp add: mk2_def GetInput_def)
      moreover have "Feeds g5 (S1 i) (S2 i) 0 \<and> length (NodeInputs g5 (S2 i)) = 1"
        using reqs5 m by blast
      moreover have "?n < S2 i" using a n_g3 by simp
      moreover have "S2 i < length (GetNodes g5)" using a by (simp add: nodes5 len4)
      ultimately show ?thesis using True by simp
    next
      case False
      then show ?thesis using S2_direct [OF i False] by simp
    qed
    have B: "if conv i
          then ?n < S1 i \<and> S1 i < length (GetNodes g5)
             \<and> GetNodes g5 ! S1 i = MakeFormatConversionNode
                                    (m_Dimensions (GetTensorInfo (GetInput concatenation i)))
                                    (m_QuantizationInfo (GetTensorInfo (GetInput concatenation i)))
                                    fmt {?id}
             \<and> length (NodeInputs g5 (S1 i)) = 1 \<and> Feeds g5 (p i) (S1 i) 0
          else S1 i = p i"
    proof (cases "conv i")
      case True
      note m = S1_conv [OF i True]
      note a = mem1 [OF m]
      have lt3: "S1 i < length (GetNodes g3)" by (rule S1_lt [OF i])
      have "GetNodes g5 ! S1 i = GetNodes g2 ! S1 i"
        using lt3 by (simp add: nodes5 nodes4 nodes3 nth_append)
      then have nd: "GetNodes g5 ! S1 i = MakeFormatConversionNode
                                    (m_Dimensions (GetTensorInfo (GetInput concatenation i)))
                                    (m_QuantizationInfo (GetTensorInfo (GetInput concatenation i)))
                                    fmt {?id}"
        using node1 [OF m] by (simp add: mk1_def GetInput_def)
      have ne: "S1 i \<noteq> ?n" using a by simp
      have notin: "S1 i \<notin> snd ` set IR2"
      proof
        assume "S1 i \<in> snd ` set IR2"
        then obtain j where "(j, S1 i) \<in> set IR2" by force
        from mem2 [OF this] lt3 show False by simp
      qed
      have f3: "Feeds g3 (p i) (S1 i) 0" and l3: "length (NodeInputs g3 (S1 i)) = 1"
        using convs3 m by blast+
      have in4: "NodeInputs g4 (S1 i) = NodeInputs g3 (S1 i)" using old4 lt3 by simp
      have f4: "Feeds g4 (p i) (S1 i) 0"
        using f3 by (simp add: Feeds_transfer [OF edges4 in4])
      have f5: "Feeds g5 (p i) (S1 i) 0" using keep5 ne notin f4 by blast
      have l5: "length (NodeInputs g5 (S1 i)) = 1" using same5 ne notin in4 l3 by simp
      have "S1 i < length (GetNodes g5)" using lt3 by (simp add: nodes5 len4)
      moreover have "?n < S1 i" using a by simp
      ultimately show ?thesis using True nd f5 l5 by simp
    next
      case False
      then show ?thesis using S1_direct [OF i False] by simp
    qed
    from f A B show "?P i" by blast
  qed
  show ?thesis
    unfolding Let_def
    apply (rule exI [of _ c'])
    unfolding g'
    using visit t1 t2 t3 len5 t5 per
    unfolding fmt_def p_def conv_def inq_def req_def
    by blast
qed

theorem Visit_Concatenation_splices_witness:
  "\<exists>c' conversion requantize.
      Visit_Concatenation (\<lambda>_ _. Supported) (example_converter False) (example_concatenation [2])
        = Inr c'
    \<and> length (GetNodes (m_Graph c')) = 5
    \<and> NodeKind (GetNodes (m_Graph c') ! 2) = ConcatNode 3
    \<and> NodeFormat (GetNodes (m_Graph c') ! 2) = CNHWC
    \<and> Feeds (m_Graph c') conversion 2 0
    \<and> NodeKind (GetNodes (m_Graph c') ! conversion) = FormatConversionNode
    \<and> Feeds (m_Graph c') 0 conversion 0
    \<and> Feeds (m_Graph c') requantize 2 1
    \<and> NodeKind (GetNodes (m_Graph c') ! requantize) = RequantizeNode
    \<and> Feeds (m_Graph c') 1 requantize 0"
proof -
  let ?c = "example_converter False" and ?k = "example_concatenation [2]"
  have h1: "(\<lambda>_ _. Supported) (map GetTensorInfo (GetInputs ?k)) (GetConcatenationInfo ?k) = Supported"
    by simp
  have h2: "m_EstimationMode ?c \<or> (\<forall>it\<in>set (GetInputs ?k). length (GetConsumers it) \<le> 1)"
    by (simp add: example_defs2)
  have h3: "unat (m_Axis (GetConcatenationInfo ?k)) < 4" by (simp add: example_defs2)
  have h4: "dim (GetBrickGroupShape (m_Capabilities ?c)) (unat (m_Axis (GetConcatenationInfo ?k))) \<noteq> 0"
    by (simp add: example_defs2)
  have h5: "length (GetOutputs ?k) = 1" by (simp add: example_defs2)
  have h6: "\<forall>operand\<in>set (GetInputs ?k).
                  \<exists>producer. m_OperandToNode ?c (OperandKey operand) = Some producer
                           \<and> producer < length (GetNodes (m_Graph ?c))"
    by (simp add: example_defs2 OperandKey_def)
  from Visit_Concatenation_splices [where IsConcatenationSupported = "\<lambda>_ _. Supported"
      and c = ?c and concatenation = ?k, OF h1 h2 h3 h4 h5 h6]
  obtain c' where v: "Visit_Concatenation (\<lambda>_ _. Supported) ?c ?k = Inr c'"
    and body: "let g = m_Graph ?c; g' = m_Graph c';
            n = length (GetNodes g);
            m = length (GetInputs ?k);
            axis = unat (m_Axis (GetConcatenationInfo ?k));
            format =
              (if \<forall>input\<in>set (GetInputs ?k).
                    unat (dim (GetBrickGroupShape (m_Capabilities ?c)) axis)
                      dvd unat (dim (m_Dimensions (GetTensorInfo input)) axis)
               then CNHWCB else CNHWC);
            outputQuantInfo = m_QuantizationInfo (GetTensorInfo (GetOutput ?k 0));
            producer = (\<lambda>i. the (m_OperandToNode ?c (OperandKey (GetInput ?k i))));
            converted = (\<lambda>i. NodeFormat (GetNodes g ! producer i) \<noteq> format);
            inputQuantInfo =
              (\<lambda>i. if converted i
                   then m_QuantizationInfo (GetTensorInfo (GetInput ?k i))
                   else NodeQuantizationInfo (GetNodes g ! producer i));
            requantized = (\<lambda>i. inputQuantInfo i \<noteq> outputQuantInfo)
        in take n (GetNodes g') = GetNodes g
         \<and> GetNodes g' ! n =
              MakeConcatNode (m_Dimensions (GetTensorInfo (GetOutput ?k 0)))
                (m_OutputQuantizationInfo (GetConcatenationInfo ?k)) format
                (m_Axis (GetConcatenationInfo ?k)) {GetId ?k}
         \<and> m_OperandToNode c' (OperandKey (GetOutput ?k 0)) = Some n
         \<and> length (NodeInputs g' n) = m
         \<and> length (GetNodes g')
              = Suc n + length (filter converted [0..<m]) + length (filter requantized [0..<m])
         \<and> (\<forall>i < m. \<exists>s1 s2.
                Feeds g' s1 n i
              \<and> (if requantized i
                  then n < s1 \<and> s1 < length (GetNodes g')
                     \<and> GetNodes g' ! s1 =
                          MakeRequantizeNode (m_Dimensions (GetTensorInfo (GetInput ?k i)))
                            outputQuantInfo format {GetId ?k}
                     \<and> length (NodeInputs g' s1) = 1 \<and> Feeds g' s2 s1 0
                  else s1 = s2)
              \<and> (if converted i
                  then n < s2 \<and> s2 < length (GetNodes g')
                     \<and> GetNodes g' ! s2 =
                          MakeFormatConversionNode
                            (m_Dimensions (GetTensorInfo (GetInput ?k i)))
                            (m_QuantizationInfo (GetTensorInfo (GetInput ?k i)))
                            format {GetId ?k}
                     \<and> length (NodeInputs g' s2) = 1 \<and> Feeds g' (producer i) s2 0
                  else s2 = producer i))"
    by blast
  have n: "length (GetNodes (m_Graph ?c)) = 2" by (simp add: example_defs2)
  note b = body [unfolded Let_def n]
  note concat = b [THEN conjunct2, THEN conjunct1]
  note count = b [THEN conjunct2, THEN conjunct2, THEN conjunct2, THEN conjunct2, THEN conjunct1]
  note per = b [THEN conjunct2, THEN conjunct2, THEN conjunct2, THEN conjunct2, THEN conjunct2,
      rule_format]
  have l: "length (GetNodes (m_Graph c')) = 5"
    using count by (simp add: example_defs2 GetInput_def GetOutput_def OperandKey_def)
  have k: "NodeKind (GetNodes (m_Graph c') ! 2) = ConcatNode 3
         \<and> NodeFormat (GetNodes (m_Graph c') ! 2) = CNHWC"
    using concat
    by (simp add: example_defs2 GetInput_def GetOutput_def OperandKey_def MakeConcatNode_def)
  have p0: "\<exists>s. Feeds (m_Graph c') s 2 0
         \<and> NodeKind (GetNodes (m_Graph c') ! s) = FormatConversionNode
         \<and> Feeds (m_Graph c') 0 s 0"
    using per [of 0]
    by (auto simp: example_defs2 GetInput_def GetOutput_def OperandKey_def
        MakeFormatConversionNode_def MakeRequantizeNode_def)
  have p1: "\<exists>s. Feeds (m_Graph c') s 2 1
         \<and> NodeKind (GetNodes (m_Graph c') ! s) = RequantizeNode
         \<and> Feeds (m_Graph c') 1 s 0"
    using per [of 1]
    by (auto simp: example_defs2 GetInput_def GetOutput_def OperandKey_def
        MakeFormatConversionNode_def MakeRequantizeNode_def)
  from v l k p0 p1 show ?thesis by blast
qed

end
